(* ===== verification/Prelude.thy ===== *)
theory Prelude
  imports Main "HOL-Library.AList" "HOL-Library.State_Monad" "HOL-Library.Word"
begin

text \<open>
  Shared vocabulary of the development: the machine integers of the program, Go maps as
  association lists, generic list lemmas and the collections of rules that the component
  theories fill (\<open>go_simps\<close> for unfolding the operator's definitions, \<open>emits_intro\<close> for
  reasoning about the API calls an operation makes).
\<close>

named_theorems go_simps "definitions of the model that proofs unfold"
named_theorems emits_intro "introduction rules for the events emitted by an operation"

section \<open>Types\<close>

text \<open>Go's \<open>int32\<close> and \<open>int64\<close> keep their width; both are read as signed numbers.\<close>

type_synonym int32 = "32 word"
type_synonym int64 = "64 word"

text \<open>A point in time or a \<open>time.Duration\<close>, in nanoseconds. The zero \<open>time.Time\<close> is 0.\<close>

type_synonym time = int

text \<open>
  A Go map with string keys is an association list: the order of the entries stands for an
  iteration order, and \<open>wf_dict\<close> says that no key occurs twice.
\<close>

type_synonym 'v dict = "(string \<times> 'v) list"

definition wf_dict :: "'v dict \<Rightarrow> bool" where
  "wf_dict d \<longleftrightarrow> distinct (map fst d)"

abbreviation dict_get :: "'v dict \<Rightarrow> string \<Rightarrow> 'v option" where
  "dict_get d k \<equiv> map_of d k"

abbreviation dict_put :: "string \<Rightarrow> 'v \<Rightarrow> 'v dict \<Rightarrow> 'v dict" where
  "dict_put k v d \<equiv> AList.update k v d"

abbreviation dict_delete :: "string \<Rightarrow> 'v dict \<Rightarrow> 'v dict" where
  "dict_delete k d \<equiv> AList.delete k d"

abbreviation ret :: "'a \<Rightarrow> ('s, 'a) state" where
  "ret x \<equiv> State_Monad.return x"

section \<open>Dictionaries\<close>

lemma dict_get_put [simp]: "dict_get (dict_put k v d) k' = (if k' = k then Some v else dict_get d k')"
  by (simp add: update_conv')

lemma dict_get_delete [simp]: "dict_get (dict_delete k d) k' = (if k' = k then None else dict_get d k')"
  by (simp add: delete_conv')

lemma wf_dict_put [simp]: "wf_dict d \<Longrightarrow> wf_dict (dict_put k v d)"
  by (simp add: wf_dict_def distinct_update)

lemma wf_dict_delete [simp]: "wf_dict d \<Longrightarrow> wf_dict (dict_delete k d)"
  by (simp add: wf_dict_def distinct_delete)

lemma wf_dict_card: "wf_dict d \<Longrightarrow> length d = card (dom (map_of d))"
  by (simp add: wf_dict_def dom_map_of_conv_image_fst distinct_card flip: set_map)

section \<open>Lists\<close>

lemma ex1_filter_length: "length (filter P xs) = 1 \<Longrightarrow> \<exists>x \<in> set xs. P x"
  by (metis One_nat_def filter_empty_conv length_0_conv zero_neq_one)

lemma map_of_map_keyed [simp]:
  "distinct (map f xs) \<Longrightarrow> x \<in> set xs \<Longrightarrow> map_of (map (\<lambda>y. (f y, g y)) xs) (f x) = Some (g x)"
  by (rule map_of_is_SomeI) (auto simp: o_def)

lemma split_at_sep:
  "c \<notin> set xs \<Longrightarrow> c \<notin> set ys \<Longrightarrow> xs @ c # zs = ys @ c # ws \<longleftrightarrow> xs = ys \<and> zs = ws"
proof (induction xs arbitrary: ys)
  case Nil
  then show ?case by (cases ys) auto
next
  case (Cons x xs)
  then show ?case by (cases ys) auto
qed

lemma concat_list_all2_Cons:
  assumes "R t es" and "\<exists>ess. es' = concat ess \<and> list_all2 R ts ess"
  shows "\<exists>ess. es @ es' = concat ess \<and> list_all2 R (t # ts) ess"
proof -
  from assms(2) obtain ess where "es' = concat ess" "list_all2 R ts ess" by blast
  with assms(1) have "es @ es' = concat (es # ess) \<and> list_all2 R (t # ts) (es # ess)" by simp
  then show ?thesis by blast
qed

lemma list_all2_to_list_all: "list_all2 R ts ess \<Longrightarrow> list_all (\<lambda>t. \<exists>es \<in> set ess. R t es) ts"
  by (induction rule: list_all2_induct) (auto simp: list_all_iff)

lemma filter_key_fresh: "f c \<notin> f ` set cs \<Longrightarrow> filter (\<lambda>x. f x = f c) cs = []"
  by (metis (mono_tags, lifting) filter_False imageI)

lemma find_key_fresh: "f c \<notin> f ` set cs \<Longrightarrow> find (\<lambda>x. f x = f c) cs = None"
  by (metis (mono_tags, lifting) find_None_iff imageI)

lemma find_Some_mem: "find P xs = Some x \<Longrightarrow> x \<in> set xs \<and> P x"
  by (auto simp: find_Some_iff)

section \<open>Signed numbers\<close>

lemma sint_of_nat: "int n < 2 ^ 31 \<Longrightarrow> sint (of_nat n :: int32) = int n"
  by (simp add: sint_uint unat_of_nat uint_nat signed_take_bit_int_eq_self take_bit_nat_eq_self)

lemma sint_less: "sint (x :: int32) < 2 ^ 31"
  using sint_lt [of x] by simp

end
