(* ===== verification/GoStd.thy ===== *)
theory GoStd
  imports Prelude
begin

text \<open>
  The part of the Go language and its standard library that the operator uses: error values
  and their wrapping with \<open>fmt.Errorf\<close>, results that may be errors or panics, the verbs \<open>%d\<close>
  and \<open>%q\<close>, \<open>strconv.Atoi\<close>, \<open>strings.LastIndex\<close> and \<open>net.ParseIP\<close>. Strings are lists of bytes.
\<close>

section \<open>Errors and results\<close>

text \<open>
  An error value is its message and whether \<open>errors.IsNotFound\<close> of apimachinery holds for it.
  That predicate looks through wrapped errors (\<open>%w\<close>), so wrapping keeps it.
\<close>

datatype err = Err (err_msg: string) (IsNotFound: bool)

definition errorf_wrap :: "string \<Rightarrow> err \<Rightarrow> err" where
  "errorf_wrap prefix e = Err (prefix @ '': '' @ err_msg e) (IsNotFound e)"

definition errorf :: "string \<Rightarrow> err" where
  "errorf msg = Err msg False"

lemma IsNotFound_errorf_wrap [simp]: "IsNotFound (errorf_wrap p e) = IsNotFound e"
  by (simp add: errorf_wrap_def)

lemma IsNotFound_errorf [simp]: "IsNotFound (errorf m) = False"
  by (simp add: errorf_def)

text \<open>
  A Go function that returns \<open>(T, error)\<close> returns \<open>err + T\<close> here, one that returns \<open>error\<close>
  returns \<open>err option\<close> with \<open>None\<close> for nil. Where the code can also panic, the result is an
  \<open>outcome\<close>.
\<close>

datatype 'a outcome = Ok 'a | Error err | Panics

fun err_of :: "err + 'a \<Rightarrow> err option" where
  "err_of (Inl e) = Some e"
| "err_of (Inr x) = None"

lemma err_of_None [simp]: "err_of r = None \<longleftrightarrow> (\<exists>x. r = Inr x)"
  by (cases r) auto

section \<open>Decimal numbers\<close>

definition digit_char :: "nat \<Rightarrow> char" where
  "digit_char d = char_of (48 + d)"

definition is_digit :: "char \<Rightarrow> bool" where
  "is_digit c \<longleftrightarrow> 48 \<le> (of_char c :: nat) \<and> (of_char c :: nat) \<le> 57"

definition digit_val :: "char \<Rightarrow> nat" where
  "digit_val c = of_char c - 48"

fun show_nat :: "nat \<Rightarrow> string" where
  "show_nat n = (if n < 10 then [digit_char n] else show_nat (n div 10) @ [digit_char (n mod 10)])"

declare show_nat.simps [simp del]

definition show_int :: "int \<Rightarrow> string" where
  "show_int i = (if i < 0 then CHR ''-'' # show_nat (nat (- i)) else show_nat (nat i))"

text \<open>\<open>fmt.Sprintf("%d", p)\<close> of an \<open>int32\<close>.\<close>

definition fmt_d :: "int32 \<Rightarrow> string" where
  "fmt_d p = show_int (sint p)"

definition read_nat :: "string \<Rightarrow> nat" where
  "read_nat s = foldl (\<lambda>acc c. 10 * acc + digit_val c) 0 s"

text \<open>
  \<open>strconv.Atoi\<close>: an optional sign, at least one decimal digit and nothing else, and a value
  that fits a 64-bit \<open>int\<close>.
\<close>

definition atoi :: "string \<Rightarrow> int option" where
  "atoi s =
     (let (neg, ds) =
        (case s of
           [] \<Rightarrow> (False, [])
         | c # cs \<Rightarrow> if c = CHR ''-'' then (True, cs) else if c = CHR ''+'' then (False, cs) else (False, s))
      in if ds = [] \<or> \<not> list_all is_digit ds then None
         else let v = (if neg then - int (read_nat ds) else int (read_nat ds))
              in if - (2 ^ 63) \<le> v \<and> v < 2 ^ 63 then Some v else None)"

lemma is_digit_digit_char [simp]: "d < 10 \<Longrightarrow> is_digit (digit_char d)"
  by (simp add: is_digit_def digit_char_def)

lemma digit_val_digit_char [simp]: "d < 10 \<Longrightarrow> digit_val (digit_char d) = d"
  by (simp add: digit_val_def digit_char_def)

lemma show_nat_digits: "list_all is_digit (show_nat n)"
proof (induction n rule: show_nat.induct)
  case (1 n)
  then show ?case by (cases "n < 10") (simp_all add: show_nat.simps [of n])
qed

lemma show_nat_nonempty [simp]: "show_nat n \<noteq> []"
  by (simp add: show_nat.simps [of n])

lemma read_show_nat [simp]: "read_nat (show_nat n) = n"
proof (induction n rule: show_nat.induct)
  case (1 n)
  then show ?case
    by (cases "n < 10") (simp_all add: show_nat.simps [of n] read_nat_def)
qed

lemma show_nat_no_sign: "show_nat n = c # cs \<Longrightarrow> c \<noteq> CHR ''-'' \<and> c \<noteq> CHR ''+''"
  using show_nat_digits [of n] by (auto simp: is_digit_def)

text \<open>Printing with \<open>%d\<close> and reading with \<open>Atoi\<close> agree on every 64-bit number.\<close>

lemma atoi_show_int:
  assumes "- (2 ^ 63) \<le> i" "i < 2 ^ 63"
  shows "atoi (show_int i) = Some i"
proof (cases "i < 0")
  case True
  with assms show ?thesis by (simp add: atoi_def show_int_def show_nat_digits)
next
  case False
  obtain c cs where c: "show_nat (nat i) = c # cs" by (metis neq_Nil_conv show_nat_nonempty)
  then have "read_nat (c # cs) = nat i" "list_all is_digit (c # cs)"
    using read_show_nat [of "nat i"] show_nat_digits [of "nat i"] by simp_all
  with False assms show_nat_no_sign [OF c] show ?thesis
    by (simp add: atoi_def show_int_def c)
qed

lemma sint32_bounds: "- (2 ^ 63) \<le> sint (p :: int32)" "sint (p :: int32) < 2 ^ 63"
  using sint_range_size [of p] by (auto simp: word_size)

lemma atoi_fmt_d [simp]: "atoi (fmt_d p) = Some (sint p)"
  unfolding fmt_d_def by (rule atoi_show_int) (rule sint32_bounds)+

lemma fmt_d_no_colon: "CHR '':'' \<notin> set (fmt_d p)"
proof -
  have "c \<noteq> CHR '':''" if "c \<in> set (show_nat n)" for c n
    using show_nat_digits [of n] that by (auto simp: list_all_iff is_digit_def)
  then show ?thesis by (auto simp: fmt_d_def show_int_def)
qed

lemma fmt_d_nonempty [simp]: "fmt_d p \<noteq> []"
  by (simp add: fmt_d_def show_int_def)

section \<open>Strings\<close>

text \<open>\<open>strings.LastIndex(s, c)\<close>: the byte position of the last occurrence, or \<open>-1\<close>.\<close>

fun last_index :: "string \<Rightarrow> char \<Rightarrow> int" where
  "last_index [] c = -1"
| "last_index (x # xs) c =
     (let i = last_index xs c in if 0 \<le> i then i + 1 else if x = c then 0 else -1)"

lemma last_index_absent: "c \<notin> set s \<Longrightarrow> last_index s c = -1"
  by (induction s) auto

lemma last_index_append: "c \<notin> set ys \<Longrightarrow> last_index (xs @ c # ys) c = int (length xs)"
  by (induction xs) (auto simp: last_index_absent)

definition has_prefix :: "string \<Rightarrow> string \<Rightarrow> bool" where
  "has_prefix p s \<longleftrightarrow> length p \<le> length s \<and> take (length p) s = p"

lemma has_prefix_append [simp]: "has_prefix p (p @ s)"
  by (simp add: has_prefix_def)

lemma has_prefix_iff: "has_prefix p s \<longleftrightarrow> (\<exists>t. s = p @ t)"
  by (metis append_take_drop_id has_prefix_append has_prefix_def)

text \<open>
  The verb \<open>%q\<close> (\<open>strconv.Quote\<close>): exact on 7-bit bytes. Bytes of 128 and above are copied,
  as the quoting does for printable UTF-8.
\<close>

definition hex_char :: "nat \<Rightarrow> char" where
  "hex_char d = (if d < 10 then char_of (48 + d) else char_of (87 + d))"

definition quote_char :: "char \<Rightarrow> string" where
  "quote_char c =
     (let n = (of_char c :: nat) in
      if n = 34 then [CHR 0x5C, CHR 0x22]
      else if n = 92 then [CHR 0x5C, CHR 0x5C]
      else if n = 7 then [CHR 0x5C, CHR ''a'']
      else if n = 8 then [CHR 0x5C, CHR ''b'']
      else if n = 12 then [CHR 0x5C, CHR ''f'']
      else if n = 10 then [CHR 0x5C, CHR ''n'']
      else if n = 13 then [CHR 0x5C, CHR ''r'']
      else if n = 9 then [CHR 0x5C, CHR ''t'']
      else if n = 11 then [CHR 0x5C, CHR ''v'']
      else if n < 32 \<or> n = 127 then [CHR 0x5C, CHR ''x'', hex_char (n div 16), hex_char (n mod 16)]
      else [c])"

definition fmt_q :: "string \<Rightarrow> string" where
  "fmt_q s = CHR 0x22 # concat (map quote_char s) @ [CHR 0x22]"

section \<open>IP addresses\<close>

text \<open>
  \<open>net.ParseIP(s) != nil\<close>. As in \<open>netip.ParseAddr\<close>, the first of the bytes \<open>.\<close>, \<open>:\<close> and \<open>%\<close>
  decides between an IPv4 and an IPv6 address, and an address with a zone is no result.
\<close>

fun split_on :: "char \<Rightarrow> string \<Rightarrow> string list" where
  "split_on c [] = [[]]"
| "split_on c (x # xs) =
     (if x = c then [] # split_on c xs
      else case split_on c xs of [] \<Rightarrow> [[x]] | f # fs \<Rightarrow> (x # f) # fs)"

definition ipv4_octet :: "string \<Rightarrow> bool" where
  "ipv4_octet f \<longleftrightarrow> f \<noteq> [] \<and> list_all is_digit f \<and> (f = ''0'' \<or> hd f \<noteq> CHR ''0'') \<and> read_nat f \<le> 255"

definition is_ipv4 :: "string \<Rightarrow> bool" where
  "is_ipv4 s \<longleftrightarrow> (let fs = split_on (CHR ''.'') s in length fs = 4 \<and> list_all ipv4_octet fs)"

definition is_hex :: "char \<Rightarrow> bool" where
  "is_hex c \<longleftrightarrow> is_digit c \<or> c \<in> set ''abcdefABCDEF''"

text \<open>
  The loop of \<open>parseIPv6\<close>: \<open>k\<close> groups of 16 bits are still free, \<open>ell\<close> says whether an
  ellipsis was seen. The result is whether the rest of the string completes the address.
\<close>

fun ipv6_groups :: "nat \<Rightarrow> bool \<Rightarrow> string \<Rightarrow> bool" where
  "ipv6_groups 0 ell s = False"
| "ipv6_groups (Suc k) ell s =
     (let h = takeWhile is_hex s; r = dropWhile is_hex s
      in if h = [] \<or> length h > 4 then False
         else case r of
           [] \<Rightarrow> (if ell then k \<noteq> 0 else k = 0)
         | c # cs \<Rightarrow>
             if c = CHR ''.'' then
               (if \<not> ell \<and> k \<noteq> 1 then False
                else if k = 0 then False
                else is_ipv4 s \<and> (if ell then k \<noteq> 1 else k = 1))
             else if c \<noteq> CHR '':'' \<or> cs = [] then False
             else if hd cs = CHR '':'' then
               (if ell then False else if tl cs = [] then k \<noteq> 0 else ipv6_groups k True (tl cs))
             else ipv6_groups k ell cs)"

definition is_ipv6 :: "string \<Rightarrow> bool" where
  "is_ipv6 s =
     (if has_prefix ''::'' s then (if drop 2 s = [] then True else ipv6_groups 8 True (drop 2 s))
      else ipv6_groups 8 False s)"

definition is_ip :: "string \<Rightarrow> bool" where
  "is_ip s =
     (CHR ''%'' \<notin> set s \<and>
      (case find (\<lambda>c. c = CHR ''.'' \<or> c = CHR '':'') s of
         None \<Rightarrow> False
       | Some c \<Rightarrow> if c = CHR ''.'' then is_ipv4 s else is_ipv6 s))"

lemma is_ip_nonempty: "is_ip s \<Longrightarrow> s \<noteq> []"
  by (auto simp: is_ip_def)

end
