(* ===== verification/Api_Types.thy ===== *)
theory Api_Types
  imports GoStd
begin

text \<open>
  The API types of \<open>api/v1alpha1\<close>: the PostgresMC resource, its spec and its status, as records
  whose fields carry the Go names with a prefix per struct, and the constants of conditions,
  reasons and roles. Enumerations are string types in Go (a status role can be the empty
  string before it is set), so they are strings here. Of the embedded object metadata the
  record holds the fields that the operator reads or writes.
\<close>

section \<open>Spec\<close>

type_synonym ClusterRole = string

definition ClusterRolePrimary :: ClusterRole where
  "ClusterRolePrimary = ''primary''"

definition ClusterRoleStandby :: ClusterRole where
  "ClusterRoleStandby = ''standby''"

type_synonym ReplicationMode = string

definition ReplicationAsync :: ReplicationMode where [simp]: "ReplicationAsync = ''async''"
definition ReplicationSync :: ReplicationMode where [simp]: "ReplicationSync = ''sync''"

record ClusterTarget =
  ct_Name :: string
  ct_ClusterRef :: string
  ct_SecretNamespace :: string
  ct_Namespace :: string
  ct_Role :: ClusterRole
  ct_ExternalHost :: string
  ct_ExternalPort :: int32

record ReplicationSpec =
  rs_Mode :: ReplicationMode

type_synonym ServiceType = string

definition ServiceTypeNodePort :: ServiceType where
  "ServiceTypeNodePort = ''NodePort''"

definition ServiceTypeLoadBalancer :: ServiceType where
  "ServiceTypeLoadBalancer = ''LoadBalancer''"

record ReplicationServiceConfig =
  rsc_Type :: ServiceType
  rsc_NodePort :: int32

record AutoFailoverSpec =
  af_Enabled :: bool
  af_PrimaryUnreachableThreshold :: int32

text \<open>\<open>PostgresqlSpec\<close> is a raw JSON blob: its bytes.\<close>

record PostgresMCSpec =
  sp_TeamID :: string
  sp_Clusters :: "ClusterTarget list"
  sp_PostgresqlSpec :: string
  sp_Replication :: ReplicationSpec
  sp_ReplicationService :: ReplicationServiceConfig
  sp_AutoFailover :: AutoFailoverSpec

section \<open>Status\<close>

type_synonym ConditionStatus = string

definition ConditionTrue :: ConditionStatus where
  "ConditionTrue = ''True''"

definition ConditionFalse :: ConditionStatus where
  "ConditionFalse = ''False''"

text \<open>\<open>metav1.Condition\<close>\<close>

record Condition =
  cd_Type :: string
  cd_Status :: ConditionStatus
  cd_ObservedGeneration :: int64
  cd_LastTransitionTime :: time
  cd_Reason :: string
  cd_Message :: string

record ClusterStatus =
  cs_Name :: string
  cs_Role :: ClusterRole
  cs_Phase :: string
  cs_ObservedGeneration :: int64
  cs_Conditions :: "Condition list"
  cs_Endpoint :: string
  cs_LastSyncedAt :: "time option"

record PostgresMCStatus =
  st_Phase :: string
  st_ObservedGeneration :: int64
  st_CurrentPrimary :: string
  st_Conditions :: "Condition list"
  st_Clusters :: "ClusterStatus list"
  st_PrimaryFailureCount :: int32

record PostgresMC =
  mc_Name :: string
  mc_Namespace :: string
  mc_Generation :: int64
  mc_DeletionTimestamp :: "time option"
  mc_Finalizers :: "string list"
  mc_Spec :: PostgresMCSpec
  mc_Status :: PostgresMCStatus

text \<open>The zero values that Go gives to fields that a composite literal leaves out.\<close>

definition zero_ClusterTarget :: ClusterTarget where
  "zero_ClusterTarget = \<lparr>ct_Name = [], ct_ClusterRef = [], ct_SecretNamespace = [], ct_Namespace = [],
     ct_Role = [], ct_ExternalHost = [], ct_ExternalPort = 0\<rparr>"

definition zero_ClusterStatus :: ClusterStatus where
  "zero_ClusterStatus = \<lparr>cs_Name = [], cs_Role = [], cs_Phase = [], cs_ObservedGeneration = 0,
     cs_Conditions = [], cs_Endpoint = [], cs_LastSyncedAt = None\<rparr>"

text \<open>Updates of nested fields, as the assignments \<open>mc.Status.X = v\<close> and \<open>mc.Spec.X = v\<close> do.\<close>

abbreviation mc_set_Clusters :: "ClusterStatus list \<Rightarrow> PostgresMC \<Rightarrow> PostgresMC" where
  "mc_set_Clusters v mc \<equiv> mc\<lparr>mc_Status := (mc_Status mc)\<lparr>st_Clusters := v\<rparr>\<rparr>"

abbreviation mc_set_Conditions :: "Condition list \<Rightarrow> PostgresMC \<Rightarrow> PostgresMC" where
  "mc_set_Conditions v mc \<equiv> mc\<lparr>mc_Status := (mc_Status mc)\<lparr>st_Conditions := v\<rparr>\<rparr>"

abbreviation mc_set_Phase :: "string \<Rightarrow> PostgresMC \<Rightarrow> PostgresMC" where
  "mc_set_Phase v mc \<equiv> mc\<lparr>mc_Status := (mc_Status mc)\<lparr>st_Phase := v\<rparr>\<rparr>"

abbreviation mc_set_CurrentPrimary :: "string \<Rightarrow> PostgresMC \<Rightarrow> PostgresMC" where
  "mc_set_CurrentPrimary v mc \<equiv> mc\<lparr>mc_Status := (mc_Status mc)\<lparr>st_CurrentPrimary := v\<rparr>\<rparr>"

abbreviation mc_set_FailureCount :: "int32 \<Rightarrow> PostgresMC \<Rightarrow> PostgresMC" where
  "mc_set_FailureCount v mc \<equiv> mc\<lparr>mc_Status := (mc_Status mc)\<lparr>st_PrimaryFailureCount := v\<rparr>\<rparr>"

abbreviation mc_set_ObservedGeneration :: "int64 \<Rightarrow> PostgresMC \<Rightarrow> PostgresMC" where
  "mc_set_ObservedGeneration v mc \<equiv> mc\<lparr>mc_Status := (mc_Status mc)\<lparr>st_ObservedGeneration := v\<rparr>\<rparr>"

abbreviation mc_set_SpecClusters :: "ClusterTarget list \<Rightarrow> PostgresMC \<Rightarrow> PostgresMC" where
  "mc_set_SpecClusters v mc \<equiv> mc\<lparr>mc_Spec := (mc_Spec mc)\<lparr>sp_Clusters := v\<rparr>\<rparr>"

section \<open>Condition types and reasons\<close>

definition ConditionReady :: string where "ConditionReady = ''Ready''"
definition ConditionFailoverInProgress :: string where "ConditionFailoverInProgress = ''FailoverInProgress''"
definition ConditionClusterReachable :: string where "ConditionClusterReachable = ''Reachable''"

definition ReasonClusterUnreachable :: string where "ReasonClusterUnreachable = ''ClusterUnreachable''"
definition ReasonZalandoApplyFailed :: string where "ReasonZalandoApplyFailed = ''ZalandoApplyFailed''"
definition ReasonCredsNotReady :: string where "ReasonCredsNotReady = ''CredentialsNotReady''"
definition ReasonPrimaryNotReady :: string where "ReasonPrimaryNotReady = ''PrimaryNotReady''"
definition ReasonReconcileSuccess :: string where "ReasonReconcileSuccess = ''ReconcileSuccess''"
definition ReasonFailoverStarted :: string where "ReasonFailoverStarted = ''FailoverStarted''"
definition ReasonFailoverCompleted :: string where "ReasonFailoverCompleted = ''FailoverCompleted''"
definition ReasonSpecInvalid :: string where "ReasonSpecInvalid = ''SpecInvalid''"
definition ReasonAutoFailover :: string where "ReasonAutoFailover = ''AutoFailover''"

lemmas api_consts [go_simps] =
  ClusterRolePrimary_def ClusterRoleStandby_def ServiceTypeNodePort_def ServiceTypeLoadBalancer_def
  ConditionTrue_def ConditionFalse_def ConditionReady_def ConditionFailoverInProgress_def
  ConditionClusterReachable_def

lemmas reason_consts =
  ReasonClusterUnreachable_def ReasonZalandoApplyFailed_def ReasonCredsNotReady_def
  ReasonPrimaryNotReady_def ReasonReconcileSuccess_def ReasonFailoverStarted_def
  ReasonFailoverCompleted_def ReasonSpecInvalid_def ReasonAutoFailover_def

lemma roles_distinct [simp]: "ClusterRolePrimary \<noteq> ClusterRoleStandby" "ClusterRoleStandby \<noteq> ClusterRolePrimary"
  by (simp_all add: ClusterRolePrimary_def ClusterRoleStandby_def)

lemma roles_nonempty [simp]: "ClusterRolePrimary \<noteq> []" "ClusterRoleStandby \<noteq> []"
  by (simp_all add: ClusterRolePrimary_def ClusterRoleStandby_def)

lemma statuses_distinct [simp]: "ConditionTrue \<noteq> ConditionFalse" "ConditionFalse \<noteq> ConditionTrue"
  by (simp_all add: ConditionTrue_def ConditionFalse_def)

lemma service_types_distinct [simp]: "ServiceTypeNodePort \<noteq> ServiceTypeLoadBalancer"
    "ServiceTypeLoadBalancer \<noteq> ServiceTypeNodePort" "ServiceTypeNodePort \<noteq> []" "ServiceTypeLoadBalancer \<noteq> []"
    "[] \<noteq> ServiceTypeNodePort" "[] \<noteq> ServiceTypeLoadBalancer"
  by (simp_all add: ServiceTypeNodePort_def ServiceTypeLoadBalancer_def)

lemma condition_types_distinct [simp]:
  "ConditionReady \<noteq> ConditionClusterReachable" "ConditionClusterReachable \<noteq> ConditionReady"
  "ConditionReady \<noteq> ConditionFailoverInProgress" "ConditionFailoverInProgress \<noteq> ConditionReady"
  by (simp_all add: ConditionReady_def ConditionClusterReachable_def ConditionFailoverInProgress_def)

end
