(* ===== verification/Json.thy ===== *)
theory Json
  imports GoStd "HOL-Library.List_Lexorder" "HOL-Library.Char_ord"
begin

text \<open>
  The part of Go's \<open>encoding/json\<close> that the operator uses: \<open>json.Unmarshal\<close> into a
  \<open>map[string]interface{}\<close> and \<open>json.Marshal\<close> of such a map. The scanner is the one of the
  standard library, a state machine that reads one byte at a time, with its error messages; it
  builds the value while it checks the syntax. The library's lemma \<open>unmarshal_marshal\<close> says
  that reading back a printed object gives the object.
\<close>

section \<open>Values\<close>

text \<open>
  A JSON value as Go decodes it into an \<open>interface{}\<close>. A number is kept as its text: the
  operator never looks at one. While the scanner builds an object, its members are listed as
  they come; a decoded object has every key once, the last member winning.
\<close>

datatype json =
    JNull
  | JBool bool
  | JNumber string
  | JString string
  | JArray "json list"
  | JObject "(string \<times> json) list"

section \<open>Strings and runes\<close>

definition byte :: "char \<Rightarrow> nat" where
  "byte c = of_char c"

text \<open>The encoding of U+FFFD, which replaces what is not a rune.\<close>

definition replacement :: string where
  "replacement = map char_of [0xEF, 0xBF, 0xBD :: nat]"

definition utf8_encode :: "nat \<Rightarrow> string" where
  "utf8_encode r =
     (if r < 0x80 then [char_of r]
      else if r < 0x800 then [char_of (0xC0 + r div 0x40), char_of (0x80 + r mod 0x40)]
      else if 0xD800 \<le> r \<and> r < 0xE000 \<or> 0x10FFFF < r then replacement
      else if r < 0x10000 then
        [char_of (0xE0 + r div 0x1000), char_of (0x80 + r div 0x40 mod 0x40), char_of (0x80 + r mod 0x40)]
      else [char_of (0xF0 + r div 0x40000), char_of (0x80 + r div 0x1000 mod 0x40),
            char_of (0x80 + r div 0x40 mod 0x40), char_of (0x80 + r mod 0x40)])"

text \<open>
  The length of the rune at the head of a string, and 0 when the bytes there are no well-formed
  UTF-8: \<open>utf8.DecodeRune\<close> then returns U+FFFD for one byte.
\<close>

definition cont_byte :: "nat \<Rightarrow> nat \<Rightarrow> char \<Rightarrow> bool" where
  "cont_byte lo hi c \<longleftrightarrow> lo \<le> byte c \<and> byte c \<le> hi"

fun utf8_len :: "string \<Rightarrow> nat" where
  "utf8_len [] = 0"
| "utf8_len (c # cs) =
     (let b = byte c in
      if b < 0x80 then 1
      else if 0xC2 \<le> b \<and> b \<le> 0xDF then
        (case cs of c1 # _ \<Rightarrow> if cont_byte 0x80 0xBF c1 then 2 else 0 | _ \<Rightarrow> 0)
      else if 0xE0 \<le> b \<and> b \<le> 0xEF then
        (case cs of c1 # c2 # _ \<Rightarrow>
           if cont_byte (if b = 0xE0 then 0xA0 else 0x80) (if b = 0xED then 0x9F else 0xBF) c1 \<and>
              cont_byte 0x80 0xBF c2 then 3 else 0
         | _ \<Rightarrow> 0)
      else if 0xF0 \<le> b \<and> b \<le> 0xF4 then
        (case cs of c1 # c2 # c3 # _ \<Rightarrow>
           if cont_byte (if b = 0xF0 then 0x90 else 0x80) (if b = 0xF4 then 0x8F else 0xBF) c1 \<and>
              cont_byte 0x80 0xBF c2 \<and> cont_byte 0x80 0xBF c3 then 4 else 0
         | _ \<Rightarrow> 0)
      else 0)"

definition hex_val :: "char \<Rightarrow> nat" where
  "hex_val c =
     (if is_digit c then byte c - 48
      else if 97 \<le> byte c then byte c - 87 else byte c - 55)"

definition hex4 :: "string \<Rightarrow> nat" where
  "hex4 s = foldl (\<lambda>acc c. 16 * acc + hex_val c) 0 (take 4 s)"

text \<open>The rune of an escape \<open>\u\<close> at the head of the string, as \<open>getu4\<close> reads it.\<close>

definition getu4 :: "string \<Rightarrow> nat option" where
  "getu4 s =
     (if 6 \<le> length s \<and> s ! 0 = CHR 0x5C \<and> s ! 1 = CHR ''u'' \<and> list_all is_hex (take 4 (drop 2 s))
      then Some (hex4 (drop 2 s)) else None)"

definition unescape :: "char \<Rightarrow> char" where
  "unescape c =
     (if c = CHR ''b'' then CHR 0x08 else if c = CHR ''f'' then CHR 0x0C
      else if c = CHR ''n'' then CHR 0x0A else if c = CHR ''r'' then CHR 0x0D
      else if c = CHR ''t'' then CHR 0x09 else c)"

text \<open>\<open>unquote\<close>: the contents of a string literal that the scanner has accepted.\<close>

fun unquote :: "string \<Rightarrow> string" where
  "unquote [] = []"
| "unquote (c # cs) =
     (if c = CHR 0x5C then
        (case cs of
           [] \<Rightarrow> []
         | e # es \<Rightarrow>
             if e = CHR ''u'' then
               (let r = hex4 es; rest = drop 4 es
                in if 0xD800 \<le> r \<and> r < 0xE000 then
                     (case getu4 rest of
                        Some r2 \<Rightarrow>
                          if r < 0xDC00 \<and> 0xDC00 \<le> r2 \<and> r2 < 0xE000
                          then utf8_encode (0x10000 + (r - 0xD800) * 0x400 + (r2 - 0xDC00)) @ unquote (drop 6 rest)
                          else replacement @ unquote rest
                      | None \<Rightarrow> replacement @ unquote rest)
                   else utf8_encode r @ unquote rest)
             else unescape e # unquote es)
      else
        (let n = utf8_len (c # cs)
         in if n = 0 then replacement @ unquote cs
            else take n (c # cs) @ unquote (drop (n - 1) cs)))"

section \<open>Numbers\<close>

text \<open>The states of the scanner inside a number: \<open>stateNeg\<close>, \<open>state0\<close>, \<open>state1\<close>, \<open>stateDot\<close> and so on.\<close>

datatype num_state = NNeg | NZero | NInt | NDot | NFrac | NE | NESign | NExp

definition num_start :: "char \<Rightarrow> num_state option" where
  "num_start c =
     (if c = CHR ''-'' then Some NNeg else if c = CHR ''0'' then Some NZero
      else if is_digit c then Some NInt else None)"

definition num_frac :: "char \<Rightarrow> num_state option" where
  "num_frac c =
     (if c = CHR ''.'' then Some NDot else if c = CHR ''e'' \<or> c = CHR ''E'' then Some NE else None)"

text \<open>The next state, or \<open>None\<close> where the byte does not continue the number.\<close>

fun num_step :: "num_state \<Rightarrow> char \<Rightarrow> num_state option" where
  "num_step NNeg c = (if c = CHR ''0'' then Some NZero else if is_digit c then Some NInt else None)"
| "num_step NZero c = num_frac c"
| "num_step NInt c = (if is_digit c then Some NInt else num_frac c)"
| "num_step NDot c = (if is_digit c then Some NFrac else None)"
| "num_step NFrac c =
     (if is_digit c then Some NFrac else if c = CHR ''e'' \<or> c = CHR ''E'' then Some NE else None)"
| "num_step NE c =
     (if c = CHR ''+'' \<or> c = CHR ''-'' then Some NESign else if is_digit c then Some NExp else None)"
| "num_step NESign c = (if is_digit c then Some NExp else None)"
| "num_step NExp c = (if is_digit c then Some NExp else None)"

text \<open>What the scanner complains about where a number cannot end yet.\<close>

fun num_error :: "num_state \<Rightarrow> string option" where
  "num_error NNeg = Some ''in numeric literal''"
| "num_error NDot = Some ''after decimal point in numeric literal''"
| "num_error NE = Some ''in exponent of numeric literal''"
| "num_error NESign = Some ''in exponent of numeric literal''"
| "num_error _ = None"

text \<open>
  \<open>strconv.ParseFloat\<close> of the text of a number fails exactly when the value is at least halfway
  between the largest \<open>float64\<close> and \<open>2^1024\<close>.
\<close>

definition float_parts :: "string \<Rightarrow> nat \<times> int" where
  "float_parts s =
     (let t = (if s \<noteq> [] \<and> hd s = CHR ''-'' then tl s else s);
          mant = takeWhile (\<lambda>c. c \<noteq> CHR ''e'' \<and> c \<noteq> CHR ''E'') t;
          expo = drop (Suc (length mant)) t;
          ip = takeWhile is_digit mant;
          fp = drop (Suc (length ip)) mant;
          e = (if expo = [] then 0
               else if hd expo = CHR ''-'' then - int (read_nat (tl expo))
               else if hd expo = CHR ''+'' then int (read_nat (tl expo)) else int (read_nat expo))
      in (read_nat (ip @ fp), e - int (length fp)))"

definition float_overflows :: "string \<Rightarrow> bool" where
  "float_overflows s =
     (case float_parts s of (m, e) \<Rightarrow>
        if 0 \<le> e then 2 ^ 1024 - 2 ^ 970 \<le> m * 10 ^ nat e
        else (2 ^ 1024 - 2 ^ 970) * 10 ^ nat (- e) \<le> m)"

section \<open>The scanner\<close>

text \<open>
  \<open>scanner.error\<close>: the offending byte in quotes (\<open>quoteChar\<close>) and what was expected. A byte of
  128 and above is shown as the rune with that number.
\<close>

definition latin1_char :: "char \<Rightarrow> string" where
  "latin1_char c =
     (let n = byte c in
      if n < 0x80 then quote_char c
      else if n \<le> 0xA0 \<or> n = 0xAD then [CHR 0x5C, CHR ''u'', CHR ''0'', CHR ''0'', hex_char (n div 16), hex_char (n mod 16)]
      else utf8_encode n)"

definition json_quote_char :: "char \<Rightarrow> string" where
  "json_quote_char c =
     [CHR 0x27] @
     (if c = CHR 0x27 then [CHR 0x5C, CHR 0x27] else if c = CHR 0x22 then [CHR 0x22] else latin1_char c) @
     [CHR 0x27]"

definition invalid_char :: "char \<Rightarrow> string \<Rightarrow> string" where
  "invalid_char c context = ''invalid character '' @ json_quote_char c @ '' '' @ context"

definition json_space :: "char \<Rightarrow> bool" where
  "json_space c \<longleftrightarrow> c = CHR '' '' \<or> c = CHR 0x09 \<or> c = CHR 0x0D \<or> c = CHR 0x0A"

text \<open>
  An open array with its elements so far; an open object with its members so far and, between
  the key and the value of a member, the key.
\<close>

datatype frame = FArray "json list" | FObject "(string \<times> json) list" "string option"

text \<open>
  The states of the scanner. \<open>EndTop\<close> holds the finished value; \<open>Literal\<close> the rest of
  \<open>true\<close>, \<open>false\<close> or \<open>null\<close>, its name and its value; \<open>InString\<close> the raw bytes so far.
\<close>

datatype scan =
    BeginValue
  | BeginValueOrEmpty
  | BeginString
  | BeginStringOrEmpty
  | EndKey
  | EndValue
  | EndTop json
  | InString string
  | InStringEsc string
  | InStringEscU nat string
  | InNumber num_state string
  | Literal string string json

type_synonym scanner = "frame list \<times> scan"

abbreviation maxNestingDepth :: nat where
  "maxNestingDepth \<equiv> 10000"

text \<open>A value is complete: it becomes a key, a member, an element, or the result.\<close>

fun json_complete :: "frame list \<Rightarrow> json \<Rightarrow> scanner" where
  "json_complete [] v = ([], EndTop v)"
| "json_complete (FArray vs # st) v = (FArray (vs @ [v]) # st, EndValue)"
| "json_complete (FObject ps (Some k) # st) v = (FObject (ps @ [(k, v)]) None # st, EndValue)"
| "json_complete (FObject ps None # st) v =
     (FObject ps (Some (case v of JString k \<Rightarrow> k | _ \<Rightarrow> [])) # st, EndKey)"

definition end_value :: "frame list \<Rightarrow> char \<Rightarrow> string + scanner" where
  "end_value st c =
     (if json_space c then Inr (st, EndValue)
      else case st of
             [] \<Rightarrow> Inl (invalid_char c ''after top-level value'')
           | FArray vs # st' \<Rightarrow>
               if c = CHR '','' then Inr (st, BeginValue)
               else if c = CHR '']'' then Inr (json_complete st' (JArray vs))
               else Inl (invalid_char c ''after array element'')
           | FObject ps k # st' \<Rightarrow>
               if c = CHR '','' then Inr (st, BeginString)
               else if c = CHR ''}'' then Inr (json_complete st' (JObject ps))
               else Inl (invalid_char c ''after object key:value pair''))"

text \<open>The state that follows a complete value, on the byte that ended it (a number has no closing byte).\<close>

fun after_value :: "scanner \<Rightarrow> char \<Rightarrow> string + scanner" where
  "after_value (st, EndTop v) c =
     (if json_space c then Inr (st, EndTop v) else Inl (invalid_char c ''after top-level value''))"
| "after_value (st, _) c = end_value st c"

definition scan_push :: "frame \<Rightarrow> frame list \<Rightarrow> scan \<Rightarrow> char \<Rightarrow> string + scanner" where
  "scan_push f st next c =
     (if length st < maxNestingDepth then Inr (f # st, next) else Inl (invalid_char c ''exceeded max depth''))"

definition begin_value :: "frame list \<Rightarrow> char \<Rightarrow> string + scanner" where
  "begin_value st c =
     (if c = CHR ''{'' then scan_push (FObject [] None) st BeginStringOrEmpty c
      else if c = CHR ''['' then scan_push (FArray []) st BeginValueOrEmpty c
      else if c = CHR 0x22 then Inr (st, InString [])
      else if c = CHR ''t'' then Inr (st, Literal ''rue'' ''true'' (JBool True))
      else if c = CHR ''f'' then Inr (st, Literal ''alse'' ''false'' (JBool False))
      else if c = CHR ''n'' then Inr (st, Literal ''ull'' ''null'' JNull)
      else case num_start c of
             Some n \<Rightarrow> Inr (st, InNumber n [c])
           | None \<Rightarrow> Inl (invalid_char c ''looking for beginning of value''))"

definition begin_string :: "frame list \<Rightarrow> char \<Rightarrow> string + scanner" where
  "begin_string st c =
     (if c = CHR 0x22 then Inr (st, InString [])
      else Inl (invalid_char c ''looking for beginning of object key string''))"

fun scan_step :: "scanner \<Rightarrow> char \<Rightarrow> string + scanner" where
  "scan_step (st, BeginValue) c = (if json_space c then Inr (st, BeginValue) else begin_value st c)"
| "scan_step (st, BeginValueOrEmpty) c =
     (if json_space c then Inr (st, BeginValueOrEmpty)
      else if c = CHR '']'' then end_value st c else begin_value st c)"
| "scan_step (st, BeginString) c = (if json_space c then Inr (st, BeginString) else begin_string st c)"
| "scan_step (st, BeginStringOrEmpty) c =
     (if json_space c then Inr (st, BeginStringOrEmpty)
      else if c = CHR ''}'' then end_value st c else begin_string st c)"
| "scan_step (st, EndKey) c =
     (if json_space c then Inr (st, EndKey)
      else if c = CHR '':'' then Inr (st, BeginValue) else Inl (invalid_char c ''after object key''))"
| "scan_step (st, EndValue) c = end_value st c"
| "scan_step (st, EndTop v) c = after_value (st, EndTop v) c"
| "scan_step (st, InString raw) c =
     (if c = CHR 0x22 then Inr (json_complete st (JString (unquote raw)))
      else if c = CHR 0x5C then Inr (st, InStringEsc (raw @ [c]))
      else if byte c < 0x20 then Inl (invalid_char c ''in string literal'')
      else Inr (st, InString (raw @ [c])))"
| "scan_step (st, InStringEsc raw) c =
     (if c = CHR ''u'' then Inr (st, InStringEscU 4 (raw @ [c]))
      else if c \<in> {CHR ''b'', CHR ''f'', CHR ''n'', CHR ''r'', CHR ''t'', CHR 0x5C, CHR ''/'', CHR 0x22}
      then Inr (st, InString (raw @ [c]))
      else Inl (invalid_char c ''in string escape code''))"
| "scan_step (st, InStringEscU n raw) c =
     (if is_hex c then Inr (st, if n = 1 then InString (raw @ [c]) else InStringEscU (n - 1) (raw @ [c]))
      else Inl (invalid_char c (''in '' @ [CHR 0x5C] @ ''u hexadecimal character escape'')))"
| "scan_step (st, InNumber n tx) c =
     (case num_step n c of
        Some n' \<Rightarrow> Inr (st, InNumber n' (tx @ [c]))
      | None \<Rightarrow>
          (case num_error n of
             Some context \<Rightarrow> Inl (invalid_char c context)
           | None \<Rightarrow> after_value (json_complete st (JNumber tx)) c))"
| "scan_step (st, Literal rest name v) c =
     (if rest \<noteq> [] \<and> c = hd rest
      then Inr (if tl rest = [] then json_complete st v else (st, Literal (tl rest) name v))
      else Inl (invalid_char c (''in literal '' @ name @ '' (expecting '' @ json_quote_char (hd rest) @ '')'')))"

primrec scan_bytes :: "string \<Rightarrow> scanner \<Rightarrow> string + scanner" where
  "scan_bytes [] s = Inr s"
| "scan_bytes (c # cs) s = (case scan_step s c of Inl e \<Rightarrow> Inl e | Inr s' \<Rightarrow> scan_bytes cs s')"

text \<open>\<open>checkValid\<close>: all bytes, and at the end one step on a space unless the value is complete.\<close>

definition parse_json :: "string \<Rightarrow> string + json" where
  "parse_json data =
     (case scan_bytes data ([], BeginValue) of
        Inl e \<Rightarrow> Inl e
      | Inr s \<Rightarrow>
          (case snd s of
             EndTop v \<Rightarrow> Inr v
           | _ \<Rightarrow>
               (case scan_step s (CHR '' '') of
                  Inl e \<Rightarrow> Inl e
                | Inr s' \<Rightarrow> (case snd s' of EndTop v \<Rightarrow> Inr v | _ \<Rightarrow> Inl ''unexpected end of JSON input''))))"

section \<open>Decoding\<close>

text \<open>Objects become maps: of members with the same key the last one stays.\<close>

fun decode :: "json \<Rightarrow> json" where
  "decode (JArray vs) = JArray (map decode vs)"
| "decode (JObject ps) = JObject (fold (\<lambda>(k, v). dict_put k v) (map (\<lambda>(k, v). (k, decode v)) ps) [])"
| "decode v = v"

text \<open>The first number, in the order of the text, that no \<open>float64\<close> can hold.\<close>

fun bad_numbers :: "json \<Rightarrow> string list" where
  "bad_numbers (JNumber tx) = (if float_overflows tx then [tx] else [])"
| "bad_numbers (JArray vs) = concat (map bad_numbers vs)"
| "bad_numbers (JObject ps) = concat (map (\<lambda>(k, v). bad_numbers v) ps)"
| "bad_numbers v = []"

definition cannot_unmarshal :: "string \<Rightarrow> string \<Rightarrow> err" where
  "cannot_unmarshal what typ = errorf (''json: cannot unmarshal '' @ what @ '' into Go value of type '' @ typ)"

text \<open>
  \<open>json.Unmarshal\<close> into a \<open>map[string]interface{}\<close> that is nil: \<open>None\<close> is the nil map, which the
  literal \<open>null\<close> leaves behind without an error.
\<close>

definition json_unmarshal_map :: "string \<Rightarrow> err + json dict option" where
  "json_unmarshal_map data =
     (case parse_json data of
        Inl e \<Rightarrow> Inl (errorf e)
      | Inr v \<Rightarrow>
          let mismatch = (\<lambda>what. Inl (cannot_unmarshal what ''map[string]interface {}''))
          in case v of
               JNull \<Rightarrow> Inr None
             | JBool b \<Rightarrow> mismatch ''bool''
             | JNumber tx \<Rightarrow> mismatch ''number''
             | JString s \<Rightarrow> mismatch ''string''
             | JArray vs \<Rightarrow> mismatch ''array''
             | JObject ps \<Rightarrow>
                 (case bad_numbers v of
                    tx # _ \<Rightarrow> Inl (cannot_unmarshal (''number '' @ tx) ''float64'')
                  | [] \<Rightarrow> (case decode v of JObject d \<Rightarrow> Inr (Some d) | _ \<Rightarrow> Inr None)))"

section \<open>Printing\<close>

text \<open>\<open>json.Marshal\<close> of a string, with the escapes for HTML.\<close>

definition marshal_char :: "char \<Rightarrow> string" where
  "marshal_char c =
     (if c = CHR 0x22 \<or> c = CHR 0x5C then [CHR 0x5C, c]
      else if byte c = 8 then [CHR 0x5C, CHR ''b''] else if byte c = 12 then [CHR 0x5C, CHR ''f'']
      else if byte c = 10 then [CHR 0x5C, CHR ''n''] else if byte c = 13 then [CHR 0x5C, CHR ''r'']
      else if byte c = 9 then [CHR 0x5C, CHR ''t'']
      else if byte c < 0x20 \<or> c = CHR ''<'' \<or> c = CHR ''>'' \<or> c = CHR ''&''
      then [CHR 0x5C, CHR ''u'', CHR ''0'', CHR ''0'', hex_char (byte c div 16), hex_char (byte c mod 16)]
      else [c])"

definition u_escape :: "string \<Rightarrow> string" where
  "u_escape hex = [CHR 0x5C, CHR ''u''] @ hex"

fun marshal_bytes :: "string \<Rightarrow> string" where
  "marshal_bytes [] = []"
| "marshal_bytes (c # cs) =
     (if byte c < 0x80 then marshal_char c @ marshal_bytes cs
      else let n = utf8_len (c # cs); rune = take n (c # cs)
           in if n = 0 then u_escape ''fffd'' @ marshal_bytes cs
              else (if rune = utf8_encode 0x2028 then u_escape ''2028''
                    else if rune = utf8_encode 0x2029 then u_escape ''2029'' else rune) @
                   marshal_bytes (drop (n - 1) cs))"

definition marshal_string :: "string \<Rightarrow> string" where
  "marshal_string s = [CHR 0x22] @ marshal_bytes s @ [CHR 0x22]"

definition separated :: "string list \<Rightarrow> string" where
  "separated xs = concat (case xs of [] \<Rightarrow> [] | x # ys \<Rightarrow> x # map (\<lambda>y. CHR '','' # y) ys)"

text \<open>\<open>json.Marshal\<close> of a value: the keys of a map come in ascending order.\<close>

fun marshal :: "json \<Rightarrow> string" where
  "marshal JNull = ''null''"
| "marshal (JBool b) = (if b then ''true'' else ''false'')"
| "marshal (JNumber tx) = tx"
| "marshal (JString s) = marshal_string s"
| "marshal (JArray vs) = ''['' @ separated (map marshal vs) @ '']''"
| "marshal (JObject ps) =
     ''{'' @ separated (map snd (sort_key fst (map (\<lambda>(k, v). (k, marshal_string k @ '':'' @ marshal v)) ps))) @ ''}''"

section \<open>Merge patches\<close>

text \<open>
  What an API server does with a JSON merge patch (RFC 7386): the members of the patch are merged
  into the object, and a null removes the member.
\<close>

fun json_fields :: "json option \<Rightarrow> json dict" where
  "json_fields (Some (JObject d)) = d"
| "json_fields _ = []"

fun merge_patch :: "json option \<Rightarrow> json \<Rightarrow> json"
  and merge_members :: "(string \<times> json) list \<Rightarrow> json dict \<Rightarrow> json dict" where
  "merge_patch target (JObject ps) = JObject (merge_members ps (json_fields target))"
| "merge_patch target v = v"
| "merge_members [] d = d"
| "merge_members ((k, v) # ps) d =
     merge_members ps (if v = JNull then dict_delete k d else dict_put k (merge_patch (dict_get d k) v) d)"

section \<open>Reading back what was printed\<close>

lemma scan_append:
  "scan_bytes (xs @ ys) s = (case scan_bytes xs s of Inl e \<Rightarrow> Inl e | Inr s' \<Rightarrow> scan_bytes ys s')"
  by (induction xs arbitrary: s) (auto split: sum.split)

text \<open>Values that are printed exactly: numbers in the syntax of JSON, 7-bit strings, keys in order.\<close>

definition ascii :: "string \<Rightarrow> bool" where
  "ascii s \<longleftrightarrow> list_all (\<lambda>c. byte c < 0x80) s"

primrec num_run :: "string \<Rightarrow> num_state \<Rightarrow> num_state option" where
  "num_run [] n = Some n"
| "num_run (c # cs) n = (case num_step n c of None \<Rightarrow> None | Some n' \<Rightarrow> num_run cs n')"

definition number_text :: "string \<Rightarrow> bool" where
  "number_text tx \<longleftrightarrow>
     (case tx of
        [] \<Rightarrow> False
      | c # cs \<Rightarrow>
          (case num_start c of
             None \<Rightarrow> False
           | Some n \<Rightarrow> (case num_run cs n of None \<Rightarrow> False | Some n' \<Rightarrow> num_error n' = None)))"

fun json_depth :: "json \<Rightarrow> nat" where
  "json_depth (JArray vs) = Suc (Max (set (0 # map json_depth vs)))"
| "json_depth (JObject ps) = Suc (Max (set (0 # map (\<lambda>(k, v). json_depth v) ps)))"
| "json_depth v = 0"

fun printable :: "json \<Rightarrow> bool" where
  "printable (JNumber tx) = (number_text tx \<and> \<not> float_overflows tx)"
| "printable (JString s) = ascii s"
| "printable (JArray vs) = list_all printable vs"
| "printable (JObject ps) =
     (sorted (map fst ps) \<and> distinct (map fst ps) \<and> list_all (\<lambda>(k, v). ascii k \<and> printable v) ps)"
| "printable v = True"

text \<open>A state in which a value, not a key, is expected.\<close>

fun value_pos :: "frame list \<Rightarrow> bool" where
  "value_pos (FObject ps None # st) = False"
| "value_pos _ = True"

lemma step_complete: "value_pos st \<Longrightarrow> scan_step (json_complete st v) c = after_value (json_complete st v) c"
  by (cases "(st, v)" rule: json_complete.cases) auto

text \<open>The three shapes of a printed character.\<close>

lemma char_eqI: "byte c = n \<Longrightarrow> byte d = n \<Longrightarrow> c = d"
  by (metis byte_def char_of_char)

lemma char_of_af:
  "char_of (97 :: nat) = CHR ''a''" "char_of (98 :: nat) = CHR ''b''" "char_of (99 :: nat) = CHR ''c''"
  "char_of (100 :: nat) = CHR ''d''" "char_of (101 :: nat) = CHR ''e''" "char_of (102 :: nat) = CHR ''f''"
  by (rule char_eqI; simp add: byte_def)+

lemma hex_char_val: "n < 16 \<Longrightarrow> is_hex (hex_char n) \<and> hex_val (hex_char n) = n"
proof -
  assume "n < 16"
  then have "n \<in> {0, 1, 2, 3, 4, 5, 6, 7, 8, 9, 10, 11, 12, 13, 14, 15}" by (simp, presburger)
  then show ?thesis
    by (elim insertE) (simp_all add: hex_char_def is_hex_def hex_val_def is_digit_def byte_def char_of_af)
qed

lemma hex4_byte: "hex4 [CHR ''0'', CHR ''0'', hex_char (byte c div 16), hex_char (byte c mod 16)] = byte c"
proof -
  have "byte c div 16 < 16" using nat_of_char_less_256 [of c] by (simp add: byte_def less_mult_imp_div_less)
  then show ?thesis by (simp add: hex4_def hex_char_val hex_val_def [of "CHR ''0''"] is_digit_def byte_def)
qed

lemma utf8_encode_byte: "byte c < 128 \<Longrightarrow> utf8_encode (byte c) = [c]"
  by (simp add: utf8_encode_def byte_def)

lemma marshal_char_cases:
  obtains "marshal_char c = [c]" "c \<noteq> CHR 0x22" "c \<noteq> CHR 0x5C" "\<not> byte c < 0x20"
  | e where "marshal_char c = [CHR 0x5C, e]" "e \<noteq> CHR ''u''" "unescape e = c"
      "e \<in> {CHR ''b'', CHR ''f'', CHR ''n'', CHR ''r'', CHR ''t'', CHR 0x5C, CHR ''/'', CHR 0x22}"
  | h1 h2 h3 h4 where "marshal_char c = [CHR 0x5C, CHR ''u'', h1, h2, h3, h4]"
      "is_hex h1" "is_hex h2" "is_hex h3" "is_hex h4" "hex4 [h1, h2, h3, h4] = byte c"
proof -
  have small: "byte c = 8 \<Longrightarrow> c = CHR 0x08" "byte c = 12 \<Longrightarrow> c = CHR 0x0C" "byte c = 10 \<Longrightarrow> c = CHR 0x0A"
      "byte c = 13 \<Longrightarrow> c = CHR 0x0D" "byte c = 9 \<Longrightarrow> c = CHR 0x09"
    by (erule char_eqI, simp add: byte_def)+
  have "byte c div 16 < 16" using nat_of_char_less_256 [of c] by (simp add: byte_def less_mult_imp_div_less)
  then have hex: "is_hex (hex_char (byte c div 16))" "is_hex (hex_char (byte c mod 16))" "is_hex (CHR ''0'')"
    by (simp_all add: hex_char_val) (simp add: is_hex_def is_digit_def)
  consider "c = CHR 0x22 \<or> c = CHR 0x5C" | "c = CHR 0x08" | "c = CHR 0x0C" | "c = CHR 0x0A" | "c = CHR 0x0D" | "c = CHR 0x09"
    | "c \<noteq> CHR 0x22" "c \<noteq> CHR 0x5C" "byte c \<notin> {8, 12, 10, 13, 9}"
    using small by blast
  then show ?thesis
  proof cases
    case 7
    then have plain: "marshal_char c =
        (if byte c < 0x20 \<or> c = CHR ''<'' \<or> c = CHR ''>'' \<or> c = CHR ''&''
         then [CHR 0x5C, CHR ''u'', CHR ''0'', CHR ''0'', hex_char (byte c div 16), hex_char (byte c mod 16)] else [c])"
      by (simp add: marshal_char_def)
    show ?thesis
    proof (cases "byte c < 0x20 \<or> c = CHR ''<'' \<or> c = CHR ''>'' \<or> c = CHR ''&''")
      case True
      with plain have "marshal_char c =
          [CHR 0x5C, CHR ''u'', CHR ''0'', CHR ''0'', hex_char (byte c div 16), hex_char (byte c mod 16)]"
        by (simp only: if_True)
      from that(3) [OF this hex(3,3,1,2) hex4_byte] show ?thesis .
    next
      case False
      with plain have "marshal_char c = [c]" by (simp only: if_False)
      with 7 False that(1) show ?thesis by blast
    qed
  qed (use that(2) in \<open>auto simp: marshal_char_def unescape_def byte_def\<close>)
qed

lemma scan_marshal_char:
  "scan_bytes (marshal_char c @ rest) (st, InString raw) = scan_bytes rest (st, InString (raw @ marshal_char c))"
  by (cases c rule: marshal_char_cases) (auto simp: numeral_eq_Suc simp del: insert_iff)

lemma unquote_marshal_char:
  assumes "byte c < 128"
  shows "unquote (marshal_char c @ t) = c # unquote t"
proof (cases c rule: marshal_char_cases)
  case (3 h1 h2 h3 h4)
  then have "hex4 (h1 # h2 # h3 # h4 # t) = byte c" by (simp add: hex4_def)
  with 3 assms show ?thesis by (simp add: utf8_encode_byte Let_def)
qed (use assms in \<open>auto simp: Let_def\<close>)

lemma marshal_bytes_ascii: "ascii s \<Longrightarrow> marshal_bytes s = concat (map marshal_char s)"
  by (induction s) (auto simp: ascii_def)

lemma unquote_marshal: "ascii s \<Longrightarrow> unquote (concat (map marshal_char s)) = s"
  by (induction s) (auto simp: ascii_def unquote_marshal_char simp del: unquote.simps(2))

lemma scan_marshal_chars:
  "ascii s \<Longrightarrow> scan_bytes (concat (map marshal_char s) @ rest) (st, InString raw) =
     scan_bytes rest (st, InString (raw @ concat (map marshal_char s)))"
  by (induction s arbitrary: raw) (auto simp: ascii_def scan_marshal_char simp del: scan_step.simps)

text \<open>
  Printed values end at a byte that cannot continue a number: what may follow a value inside an
  object or an array, or white space.
\<close>

definition delimiter :: "char \<Rightarrow> bool" where
  "delimiter c \<longleftrightarrow> c \<in> {CHR '','', CHR ''}'', CHR '']'', CHR '' ''}"

lemma num_step_delimiter: "delimiter c \<Longrightarrow> num_step n c = None"
  by (cases n) (auto simp: delimiter_def num_frac_def is_digit_def)

lemma scan_number_run:
  assumes "num_run cs n = Some n'" "num_error n' = None" "delimiter d" "value_pos st"
  shows "scan_bytes (cs @ d # rest) (st, InNumber n tx) = scan_bytes (d # rest) (json_complete st (JNumber (tx @ cs)))"
  using assms(1)
proof (induction cs arbitrary: n tx)
  case Nil
  with assms(2-4) show ?case by (simp add: num_step_delimiter step_complete)
next
  case (Cons c cs)
  then show ?case by (auto split: option.splits simp del: scan_bytes.simps(2) simp: scan_bytes.simps(2) [of c])
qed

lemma num_start_chars:
  "num_start c = Some n \<Longrightarrow> \<not> json_space c \<and> c \<noteq> CHR ''{'' \<and> c \<noteq> CHR ''['' \<and> c \<noteq> CHR '']'' \<and> c \<noteq> CHR 0x22 \<and>
     c \<noteq> CHR ''t'' \<and> c \<noteq> CHR ''f'' \<and> c \<noteq> CHR ''n''"
  by (auto simp: num_start_def is_digit_def json_space_def split: if_splits)

lemma scan_number:
  assumes "number_text tx" "delimiter d" "value_pos st"
  shows "scan_bytes (tx @ d # rest) (st, BeginValue) = scan_bytes (d # rest) (json_complete st (JNumber tx))"
proof -
  from assms(1) obtain c cs n n' where tx: "tx = c # cs" "num_start c = Some n" "num_run cs n = Some n'" "num_error n' = None"
    by (auto simp: number_text_def split: list.splits option.splits)
  with num_start_chars [OF tx(2)] have "scan_step (st, BeginValue) c = Inr (st, InNumber n [c])"
    by (simp add: begin_value_def)
  with scan_number_run [OF tx(3,4) assms(2,3), of rest "[c]"] show ?thesis
    by (simp add: tx(1))
qed

lemma scan_string:
  assumes "ascii s"
  shows "scan_bytes (marshal_string s @ rest) (st, BeginValue) = scan_bytes rest (json_complete st (JString s))"
    and "scan_bytes (marshal_string s @ rest) (st, BeginString) = scan_bytes rest (json_complete st (JString s))"
  using assms
  by (simp_all add: marshal_string_def marshal_bytes_ascii scan_marshal_chars unquote_marshal begin_value_def
      begin_string_def json_space_def)

lemma scan_member:
  assumes "ascii k"
    and "\<And>st d rest. value_pos st \<Longrightarrow> length st + json_depth v \<le> maxNestingDepth \<Longrightarrow> delimiter d \<Longrightarrow>
      scan_bytes (marshal v @ d # rest) (st, BeginValue) = scan_bytes (d # rest) (json_complete st v)"
    and "Suc (length st) + json_depth v \<le> maxNestingDepth" "delimiter d"
  shows "scan_bytes (marshal_string k @ CHR '':'' # marshal v @ d # rest) (FObject ps None # st, BeginString) =
    scan_bytes (d # rest) (FObject (ps @ [(k, v)]) None # st, EndValue)"
  using assms(2) [of "FObject ps (Some k) # st" d rest] assms(1,3,4)
  by (simp add: scan_string(2) json_space_def)

text \<open>The first byte of a printed value is no white space and no closing bracket.\<close>

lemma marshal_first:
  assumes "printable v"
  obtains c cs where "marshal v = c # cs" "\<not> json_space c" "c \<noteq> CHR '']''"
proof (cases v)
  case (JNumber tx)
  with assms obtain c cs n where "tx = c # cs" "num_start c = Some n"
    by (auto simp: number_text_def split: list.splits option.splits)
  with that JNumber num_start_chars show ?thesis by (metis marshal.simps(3))
next
  case (JBool b)
  with that show ?thesis by (cases b) (auto simp: json_space_def)
qed (auto simp: json_space_def marshal_string_def that split: if_splits)

lemma begin_or_empty:
  assumes "printable v"
  shows "scan_bytes (marshal v @ rest) (st, BeginValueOrEmpty) = scan_bytes (marshal v @ rest) (st, BeginValue)"
  using assms by (rule marshal_first) simp

lemma begin_string_or_empty:
  "scan_bytes (marshal_string k @ rest) (st, BeginStringOrEmpty) = scan_bytes (marshal_string k @ rest) (st, BeginString)"
  by (simp add: marshal_string_def json_space_def)

lemma scan_comma:
  "scan_bytes (CHR '','' # cs) (FObject ps k # st, EndValue) = scan_bytes cs (FObject ps k # st, BeginString)"
  "scan_bytes (CHR '','' # cs) (FArray us # st, EndValue) = scan_bytes cs (FArray us # st, BeginValue)"
  by (simp_all add: end_value_def json_space_def)

text \<open>The members and elements of a printed value, each after a comma, up to the closing bracket.\<close>

lemma scan_elements:
  assumes "\<And>v st d rest. v \<in> set vs \<Longrightarrow> value_pos st \<Longrightarrow> length st + json_depth v \<le> maxNestingDepth \<Longrightarrow> delimiter d \<Longrightarrow>
      scan_bytes (marshal v @ d # rest) (st, BeginValue) = scan_bytes (d # rest) (json_complete st v)"
    and "\<And>v. v \<in> set vs \<Longrightarrow> Suc (length st) + json_depth v \<le> maxNestingDepth"
  shows "scan_bytes (concat (map (\<lambda>v. CHR '','' # marshal v) vs) @ CHR '']'' # rest) (FArray us # st, EndValue) =
    scan_bytes rest (json_complete st (JArray (us @ vs)))"
  using assms
proof (induction vs arbitrary: us)
  case Nil
  then show ?case by (simp add: end_value_def json_space_def)
next
  case (Cons v vs)
  obtain d r where next': "concat (map (\<lambda>v. CHR '','' # marshal v) vs) @ CHR '']'' # rest = d # r" "delimiter d"
    by (cases vs) (auto simp: delimiter_def)
  have "scan_bytes (marshal v @ d # r) (FArray us # st, BeginValue) =
      scan_bytes (d # r) (FArray (us @ [v]) # st, EndValue)"
    using Cons.prems(1) [of v "FArray us # st" d r] Cons.prems(2) [of v] next'(2) by simp
  with Cons.IH [of "us @ [v]"] Cons.prems next'(1) show ?case
    by (simp add: end_value_def json_space_def)
qed

definition json_member :: "string \<times> json \<Rightarrow> string" where
  "json_member p = marshal_string (fst p) @ CHR '':'' # marshal (snd p)"

lemma scan_members:
  assumes "\<And>k v st d rest. (k, v) \<in> set qs \<Longrightarrow> value_pos st \<Longrightarrow> length st + json_depth v \<le> maxNestingDepth \<Longrightarrow> delimiter d \<Longrightarrow>
      scan_bytes (marshal v @ d # rest) (st, BeginValue) = scan_bytes (d # rest) (json_complete st v)"
    and "\<And>k v. (k, v) \<in> set qs \<Longrightarrow> ascii k \<and> Suc (length st) + json_depth v \<le> maxNestingDepth"
  shows "scan_bytes (concat (map (\<lambda>p. CHR '','' # json_member p) qs) @ CHR ''}'' # rest) (FObject ps None # st, EndValue) =
    scan_bytes rest (json_complete st (JObject (ps @ qs)))"
  using assms
proof (induction qs arbitrary: ps)
  case Nil
  then show ?case by (simp add: end_value_def json_space_def)
next
  case (Cons q qs)
  obtain k v where q: "q = (k, v)" by fastforce
  obtain d r where next': "concat (map (\<lambda>p. CHR '','' # json_member p) qs) @ CHR ''}'' # rest = d # r" "delimiter d"
    by (cases qs) (auto simp: delimiter_def)
  have "scan_bytes (marshal_string k @ CHR '':'' # marshal v @ d # r) (FObject ps None # st, BeginString) =
      scan_bytes (d # r) (FObject (ps @ [(k, v)]) None # st, EndValue)"
    by (rule scan_member) (use Cons.prems(1) [of k v] Cons.prems(2) [of k v] next'(2) in \<open>simp_all add: q del: scan_bytes.simps\<close>)
  then have "scan_bytes (json_member q @ d # r) (FObject ps None # st, BeginString) =
      scan_bytes (d # r) (FObject (ps @ [(k, v)]) None # st, EndValue)"
    by (simp only: q json_member_def fst_conv snd_conv append_assoc append_Cons)
  moreover have "scan_bytes (d # r) (FObject (ps @ [(k, v)]) None # st, EndValue) =
      scan_bytes rest (json_complete st (JObject ((ps @ [(k, v)]) @ qs)))"
    unfolding next'(1) [symmetric]
  proof (rule Cons.IH, goal_cases)
    case (1 l x)
    from 1(1) have "(l, x) \<in> set (q # qs)" by simp
    from Cons.prems(1) [OF this 1(2-4)] show ?case .
  next
    case (2 l x)
    then have "(l, x) \<in> set (q # qs)" by simp
    from Cons.prems(2) [OF this] show ?case .
  qed
  ultimately show ?case
    by (simp only: next'(1) q list.map concat.simps append_assoc append_Cons append_Nil scan_comma)
qed

lemma depth_member: "(k, v) \<in> set ps \<Longrightarrow> json_depth v < json_depth (JObject ps)"
proof -
  assume "(k, v) \<in> set ps"
  then have "json_depth v \<in> set (0 # map (\<lambda>(k, v). json_depth v) ps)" by force
  then show ?thesis using Max_ge by (simp only: json_depth.simps less_Suc_eq_le) blast
qed

lemma depth_element: "v \<in> set vs \<Longrightarrow> json_depth v < json_depth (JArray vs)"
proof -
  assume "v \<in> set vs"
  then have "json_depth v \<in> set (0 # map json_depth vs)" by simp
  then show ?thesis using Max_ge by (simp only: json_depth.simps less_Suc_eq_le) blast
qed

lemma marshal_object_sorted:
  "sorted (map fst ps) \<Longrightarrow> marshal (JObject ps) = ''{'' @ separated (map json_member ps) @ ''}''"
proof -
  assume s: "sorted (map fst ps)"
  let ?f = "\<lambda>(k, v). (k, marshal_string k @ '':'' @ marshal v)"
  have "map fst (map ?f ps) = map fst ps" by (induction ps) auto
  with s have "sorted (map fst (map ?f ps))" by (simp only:)
  then have "sort_key fst (map ?f ps) = map ?f ps" by (rule sort_key_id_if_sorted)
  moreover have "map snd (map ?f ps) = map json_member ps" by (simp add: json_member_def split_def)
  ultimately show ?thesis by (simp only: marshal.simps)
qed

lemma scan_marshal:
  assumes "printable v" "value_pos st" "length st + json_depth v \<le> maxNestingDepth" "delimiter d"
  shows "scan_bytes (marshal v @ d # rest) (st, BeginValue) = scan_bytes (d # rest) (json_complete st v)"
  using assms
proof (induction v arbitrary: st d rest rule: printable.induct)
  case (1 tx)
  then show ?case by (simp add: scan_number)
next
  case (2 s)
  then show ?case by (simp add: scan_string)
next
  case (3 vs)
  have len: "length st < maxNestingDepth" using 3(4) by simp
  show ?case
  proof (cases vs)
    case Nil
    with len show ?thesis by (simp add: begin_value_def scan_push_def end_value_def separated_def json_space_def num_start_def)
  next
    case (Cons w ws)
    have elem: "scan_bytes (marshal x @ e # r) (s, BeginValue) = scan_bytes (e # r) (json_complete s x)"
      if "x \<in> set vs" "value_pos s" "length s + json_depth x \<le> maxNestingDepth" "delimiter e" for x s e r
      using 3(1) [OF that(1)] 3(2) that by (simp add: list_all_iff)
    have deep: "Suc (length st) + json_depth x \<le> maxNestingDepth" if "x \<in> set vs" for x
      using depth_element [OF that] 3(4) by simp
    have w: "printable w" using 3(2) Cons by simp
    let ?tail = "concat (map (\<lambda>v. CHR '','' # marshal v) ws) @ CHR '']'' # d # rest"
    obtain e r where next': "?tail = e # r" "delimiter e" by (cases ws) (auto simp: delimiter_def)
    have "scan_bytes (marshal (JArray vs) @ d # rest) (st, BeginValue) =
        scan_bytes (marshal w @ ?tail) (FArray [] # st, BeginValue)"
      using len begin_or_empty [OF w] by (simp add: Cons separated_def begin_value_def scan_push_def json_space_def comp_def)
    also have "\<dots> = scan_bytes ?tail (FArray [w] # st, EndValue)"
      unfolding next'(1) using elem [of w "FArray [] # st" e r] deep [of w] next'(2) by (simp add: Cons)
    also have "\<dots> = scan_bytes (d # rest) (json_complete st (JArray ([w] @ ws)))"
      by (rule scan_elements) (use elem deep Cons in auto)
    finally show ?thesis by (simp add: Cons)
  qed
next
  case (4 ps)
  have len: "length st < maxNestingDepth" using 4(4) by simp
  from 4(2) have sorted: "sorted (map fst ps)" by simp
  show ?case
  proof (cases ps)
    case Nil
    with len show ?thesis
      by (simp add: begin_value_def scan_push_def end_value_def separated_def json_space_def num_start_def)
  next
    case (Cons q qs)
    obtain k v where q: "q = (k, v)" by fastforce
    have mem: "scan_bytes (marshal x @ e # r) (s, BeginValue) = scan_bytes (e # r) (json_complete s x)"
      if "(l, x) \<in> set ps" "value_pos s" "length s + json_depth x \<le> maxNestingDepth" "delimiter e" for l x s e r
      using 4(1) [OF that(1) refl] 4(2) that by (auto simp: list_all_iff)
    have deep: "ascii l \<and> Suc (length st) + json_depth x \<le> maxNestingDepth" if "(l, x) \<in> set ps" for l x
      using depth_member [OF that] 4(2,4) that by (auto simp: list_all_iff)
    have later: "(l, x) \<in> set ps" if "(l, x) \<in> set qs" for l x using that Cons by simp
    let ?tail = "concat (map (\<lambda>p. CHR '','' # json_member p) qs) @ CHR ''}'' # d # rest"
    obtain e r where next': "?tail = e # r" "delimiter e" by (cases qs) (auto simp: delimiter_def)
    have "scan_bytes (marshal (JObject ps) @ d # rest) (st, BeginValue) =
        scan_bytes (json_member q @ ?tail) (FObject [] None # st, BeginString)"
      unfolding marshal_object_sorted [OF sorted]
      using len begin_string_or_empty
      by (simp add: Cons separated_def begin_value_def scan_push_def json_space_def comp_def json_member_def)
    also have "\<dots> = scan_bytes (marshal_string k @ CHR '':'' # marshal v @ e # r) (FObject [] None # st, BeginString)"
      by (subst next'(1)) (simp only: q json_member_def fst_conv snd_conv append_assoc append_Cons)
    also have "\<dots> = scan_bytes (e # r) (FObject ([] @ [(k, v)]) None # st, EndValue)"
      by (rule scan_member) (use mem [of k v] deep [of k v] next'(2) Cons q in \<open>simp_all del: scan_bytes.simps\<close>)
    also have "\<dots> = scan_bytes ?tail (FObject [(k, v)] None # st, EndValue)"
      by (simp only: next'(1) append_Nil)
    also have "\<dots> = scan_bytes (d # rest) (json_complete st (JObject ([(k, v)] @ qs)))"
      by (rule scan_members, erule mem [OF later], assumption+, erule deep [OF later])
    finally show ?thesis by (simp only: Cons q append_Cons append_Nil)
  qed
qed (simp_all add: begin_value_def json_space_def split: bool.split)

lemma parse_marshal:
  assumes "printable v" "json_depth v \<le> maxNestingDepth"
  shows "parse_json (marshal v) = Inr v"
proof -
  have top: "scan_bytes (marshal v @ [CHR '' '']) ([], BeginValue) = Inr ([], EndTop v)"
    using scan_marshal [of v "[]" "CHR '' ''" "[]"] assms by (simp add: delimiter_def json_space_def)
  then obtain s where s: "scan_bytes (marshal v) ([], BeginValue) = Inr s" "scan_step s (CHR '' '') = Inr ([], EndTop v)"
    by (auto simp: scan_append split: sum.splits)
  show ?thesis
  proof (cases "\<exists>w. snd s = EndTop w")
    case True
    then obtain w where "snd s = EndTop w" by blast
    with s show ?thesis by (cases s) (auto simp: parse_json_def json_space_def)
  next
    case False
    with s show ?thesis by (auto simp: parse_json_def simp del: scan_step.simps split: scan.split)
  qed
qed

lemma fold_put_distinct:
  "distinct (map fst (d @ ps)) \<Longrightarrow> fold (\<lambda>(k, v). dict_put k v) ps d = d @ ps"
proof (induction ps arbitrary: d)
  case (Cons p ps)
  obtain k v where p: "p = (k, v)" by fastforce
  have "dict_put k v d = d @ [(k, v)]" if "k \<notin> fst ` set d" for d
    using that by (induction d) auto
  with Cons p show ?case by auto
qed simp_all

lemma decode_printable: "printable v \<Longrightarrow> decode v = v"
proof (induction v rule: printable.induct)
  case (3 vs)
  then show ?case by (simp add: list_all_iff map_idI)
next
  case (4 ps)
  have "map (\<lambda>(k, v). (k, decode v)) ps = ps"
    using 4 by (intro map_idI) (auto simp: list_all_iff)
  with 4(2) show ?case using fold_put_distinct [of "[]" ps] by simp
qed simp_all

lemma bad_numbers_printable: "printable v \<Longrightarrow> bad_numbers v = []"
  by (induction v rule: printable.induct) (auto simp: list_all_iff)

section \<open>Properties\<close>

text \<open>
  Reading back a printed object gives the object: for an object whose numbers a
  \<open>float64\<close> can hold, whose strings are 7-bit and whose keys are in order, and which is not
  nested deeper than the decoder allows.
\<close>

theorem unmarshal_marshal:
  assumes "printable (JObject d)" and "json_depth (JObject d) \<le> maxNestingDepth"
  shows "json_unmarshal_map (marshal (JObject d)) = Inr (Some d)"
  using parse_marshal [OF assms] decode_printable [OF assms(1)] bad_numbers_printable [OF assms(1)]
  by (simp add: json_unmarshal_map_def del: marshal.simps decode.simps bad_numbers.simps)

definition sample_blob :: "json dict" where
  "sample_blob =
     [(''numberOfInstances'', JNumber ''2''),
      (''postgresql'', JObject [(''parameters'', JObject [(''work_mem'', JString ''<64MB>'')]), (''version'', JString ''16'')]),
      (''users'', JArray [JString (''a'' @ [CHR 0x22, CHR 0x0A]), JNull, JBool True, JNumber ''-1.5e3''])]"

lemma sample_blob_printable:
  "printable (JObject sample_blob)" "json_depth (JObject sample_blob) \<le> maxNestingDepth"
  by (simp_all add: sample_blob_def number_text_def num_start_def num_frac_def is_digit_def ascii_def byte_def
       float_overflows_def float_parts_def read_nat_def digit_val_def less_eq_list_code less_eq_char_simp)

text \<open>
  White space, a member that comes twice, a number that no \<open>float64\<close> can hold, a surrogate pair, and
  what the decoder says of other values and of text that is no JSON.
\<close>

lemmas json_eval = json_unmarshal_map_def parse_json_def begin_value_def begin_string_def end_value_def scan_push_def
  json_space_def num_start_def num_frac_def is_digit_def byte_def float_overflows_def float_parts_def read_nat_def
  digit_val_def fmt_q_def quote_char_def cannot_unmarshal_def invalid_char_def json_quote_char_def latin1_char_def
  hex4_def hex_val_def getu4_def is_hex_def utf8_encode_def u_escape_def unescape_def

lemma unmarshal_examples:
  "json_unmarshal_map (''{'' @ fmt_q ''a'' @ '' : 1 , '' @ fmt_q ''a'' @ '':[] } '') = Inr (Some [(''a'', JArray [])])"
  "json_unmarshal_map ''null'' = Inr None"
  "json_unmarshal_map ''[]'' =
     Inl (errorf ''json: cannot unmarshal array into Go value of type map[string]interface {}'')"
  "json_unmarshal_map (''{'' @ fmt_q ''a'' @ '':1e400}'') =
     Inl (errorf ''json: cannot unmarshal number 1e400 into Go value of type float64'')"
  "json_unmarshal_map ''{a}'' =
     Inl (errorf (''invalid character '' @ [CHR 0x27, CHR ''a'', CHR 0x27] @ '' looking for beginning of object key string''))"
  "json_unmarshal_map ''{'' = Inl (errorf ''unexpected end of JSON input'')"
  "parse_json (CHR 0x22 # u_escape ''d83d'' @ u_escape ''de00'' @ [CHR 0x22]) =
     Inr (JString (map char_of [0xF0, 0x9F, 0x98, 0x80 :: nat]))"
  by (simp_all add: json_eval)

end
