(* ===== verification/Kube.thy ===== *)
theory Kube
  imports Api_Types Json
begin

text \<open>
  The Kubernetes API as the operator sees it. The API servers, client-go and controller-runtime
  are not part of the repository: their operations are the fields of a record \<open>api\<close> over an
  arbitrary world type \<open>'w\<close>, a parameter of every operation of the model. A field takes the
  world and returns the answer and the next world, so an answer may be anything (an error, an
  object changed by somebody else) and may change from call to call.

  The state of the operator process is the world, the trace of the calls made and the events
  recorded so far, and the client cache of the registry. Objects hold the fields the operator
  reads or writes.
\<close>

section \<open>Objects\<close>

text \<open>\<open>unstructured.Unstructured\<close>: the top-level JSON object.\<close>

type_synonym unstructured = "json dict"

record Secret =
  sec_Name :: string
  sec_Namespace :: string
  sec_ResourceVersion :: string
  sec_Labels :: "string dict"
  sec_Type :: string
  sec_Data :: "string dict"

record ServicePort =
  port_Name :: string
  port_Port :: int32
  port_NodePort :: int32
  port_Protocol :: string

record LoadBalancerIngress =
  ing_Hostname :: string
  ing_IP :: string

record Service =
  svc_Name :: string
  svc_Namespace :: string
  svc_ResourceVersion :: string
  svc_Labels :: "string dict"
  svc_Type :: string
  svc_ClusterIP :: string
  svc_ExternalName :: string
  svc_Selector :: "string dict"
  svc_Ports :: "ServicePort list"
  svc_Ingress :: "LoadBalancerIngress list"

record EndpointSubset =
  eps_Addresses :: "string list"
  eps_Ports :: "(string \<times> int32) list"

record Endpoints =
  ep_Name :: string
  ep_Namespace :: string
  ep_ResourceVersion :: string
  ep_Subsets :: "EndpointSubset list"

record Node =
  node_Conditions :: "(string \<times> string) list"
  node_Addresses :: "(string \<times> string) list"

section \<open>Calls\<close>

text \<open>A workload-cluster client is an opaque handle.\<close>

type_synonym client = nat

datatype request =
    GetSecret string string
  | CreateSecret Secret
  | UpdateSecret Secret
  | GetService string string
  | CreateService Service
  | UpdateService Service
  | DeleteService string string
  | GetEndpoints string string
  | CreateEndpoints Endpoints
  | UpdateEndpoints Endpoints
  | ListNodes
  | GetPostgresql string string
  | ApplyPostgresql unstructured
  | MergePatchPostgresql unstructured string
  | DeletePostgresql string string

datatype tech_request =
    TechGetSecret string string
  | GetMC string string
  | UpdateMC PostgresMC
  | PatchMC PostgresMC PostgresMC
  | PatchMCStatus PostgresMC PostgresMC

text \<open>
  One entry of the trace: a call on a workload cluster or on the technical cluster with its
  outcome (\<open>None\<close> for success), or an event recorded for the user (type, reason, message).
  In \<open>PatchMC orig mc\<close> and \<open>PatchMCStatus orig mc\<close> the patch is the difference between the two.
\<close>

datatype event =
    Call client request "err option"
  | TechCall tech_request "err option"
  | Recorded string string string

text \<open>
  The parameter: the API servers of the workload clusters, the API server of the technical
  cluster (where a successful update or patch returns the object as stored, which
  controller-runtime copies into its argument), client construction and the clock.
\<close>

record 'w api =
  api_get_secret :: "client \<Rightarrow> string \<Rightarrow> string \<Rightarrow> 'w \<Rightarrow> (err + Secret) \<times> 'w"
  api_create_secret :: "client \<Rightarrow> Secret \<Rightarrow> 'w \<Rightarrow> (err + unit) \<times> 'w"
  api_update_secret :: "client \<Rightarrow> Secret \<Rightarrow> 'w \<Rightarrow> (err + unit) \<times> 'w"
  api_get_service :: "client \<Rightarrow> string \<Rightarrow> string \<Rightarrow> 'w \<Rightarrow> (err + Service) \<times> 'w"
  api_create_service :: "client \<Rightarrow> Service \<Rightarrow> 'w \<Rightarrow> (err + unit) \<times> 'w"
  api_update_service :: "client \<Rightarrow> Service \<Rightarrow> 'w \<Rightarrow> (err + unit) \<times> 'w"
  api_delete_service :: "client \<Rightarrow> string \<Rightarrow> string \<Rightarrow> 'w \<Rightarrow> (err + unit) \<times> 'w"
  api_get_endpoints :: "client \<Rightarrow> string \<Rightarrow> string \<Rightarrow> 'w \<Rightarrow> (err + Endpoints) \<times> 'w"
  api_create_endpoints :: "client \<Rightarrow> Endpoints \<Rightarrow> 'w \<Rightarrow> (err + unit) \<times> 'w"
  api_update_endpoints :: "client \<Rightarrow> Endpoints \<Rightarrow> 'w \<Rightarrow> (err + unit) \<times> 'w"
  api_list_nodes :: "client \<Rightarrow> 'w \<Rightarrow> (err + Node list) \<times> 'w"
  api_get_postgresql :: "client \<Rightarrow> string \<Rightarrow> string \<Rightarrow> 'w \<Rightarrow> (err + unstructured) \<times> 'w"
  api_apply_postgresql :: "client \<Rightarrow> unstructured \<Rightarrow> 'w \<Rightarrow> (err + unit) \<times> 'w"
  api_merge_patch_postgresql :: "client \<Rightarrow> unstructured \<Rightarrow> string \<Rightarrow> 'w \<Rightarrow> (err + unit) \<times> 'w"
  api_delete_postgresql :: "client \<Rightarrow> string \<Rightarrow> string \<Rightarrow> 'w \<Rightarrow> (err + unit) \<times> 'w"
  tech_get_secret :: "string \<Rightarrow> string \<Rightarrow> 'w \<Rightarrow> (err + Secret) \<times> 'w"
  tech_get_mc :: "string \<Rightarrow> string \<Rightarrow> 'w \<Rightarrow> (err + PostgresMC) \<times> 'w"
  tech_update_mc :: "PostgresMC \<Rightarrow> 'w \<Rightarrow> (err + PostgresMC) \<times> 'w"
  tech_patch_mc :: "PostgresMC \<Rightarrow> PostgresMC \<Rightarrow> 'w \<Rightarrow> (err + PostgresMC) \<times> 'w"
  tech_patch_mc_status :: "PostgresMC \<Rightarrow> PostgresMC \<Rightarrow> 'w \<Rightarrow> (err + PostgresMC) \<times> 'w"
  rest_config_from_kubeconfig :: "string \<Rightarrow> err + string"
  new_client :: "string \<Rightarrow> 'w \<Rightarrow> (err + client) \<times> 'w"
  time_now :: "'w \<Rightarrow> time \<times> 'w"

section \<open>The operator's state and its primitive operations\<close>

record cached_entry =
  ce_client :: client
  ce_builtAt :: time

record 'w op_state =
  op_world :: 'w
  op_trace :: "event list"
  op_cache :: "string \<rightharpoonup> cached_entry"

type_synonym ('w, 'a) op = "('w op_state, 'a) state"

definition workload_call :: "client \<Rightarrow> request \<Rightarrow> ('w \<Rightarrow> (err + 'a) \<times> 'w) \<Rightarrow> ('w, err + 'a) op" where
  "workload_call c rq f = State (\<lambda>s. case f (op_world s) of (r, w') \<Rightarrow>
     (r, s\<lparr>op_world := w', op_trace := op_trace s @ [Call c rq (err_of r)]\<rparr>))"

definition tech_call :: "tech_request \<Rightarrow> ('w \<Rightarrow> (err + 'a) \<times> 'w) \<Rightarrow> ('w, err + 'a) op" where
  "tech_call rq f = State (\<lambda>s. case f (op_world s) of (r, w') \<Rightarrow>
     (r, s\<lparr>op_world := w', op_trace := op_trace s @ [TechCall rq (err_of r)]\<rparr>))"

definition record_event :: "string \<Rightarrow> string \<Rightarrow> string \<Rightarrow> ('w, unit) op" where
  "record_event typ reason msg = State (\<lambda>s. ((), s\<lparr>op_trace := op_trace s @ [Recorded typ reason msg]\<rparr>))"

text \<open>Effects that no API server sees: the clock, client construction.\<close>

definition world_step :: "('w \<Rightarrow> 'a \<times> 'w) \<Rightarrow> ('w, 'a) op" where
  "world_step f = State (\<lambda>s. case f (op_world s) of (r, w') \<Rightarrow> (r, s\<lparr>op_world := w'\<rparr>))"

definition cache_read :: "('w, string \<rightharpoonup> cached_entry) op" where
  "cache_read = State (\<lambda>s. (op_cache s, s))"

definition cache_modify :: "((string \<rightharpoonup> cached_entry) \<Rightarrow> (string \<rightharpoonup> cached_entry)) \<Rightarrow> ('w, unit) op" where
  "cache_modify f = State (\<lambda>s. ((), s\<lparr>op_cache := f (op_cache s)\<rparr>))"

definition clock_now :: "'w api \<Rightarrow> ('w, time) op" where
  "clock_now A = world_step (time_now A)"

lemmas primitive_defs = workload_call_def tech_call_def record_event_def world_step_def
  cache_read_def cache_modify_def clock_now_def

section \<open>Emitted events\<close>

text \<open>
  \<open>emits m Q\<close>: from every state, whatever the servers answer, the operation only appends to the
  trace, and its result and the appended events are related by \<open>Q\<close>. The rules compute \<open>Q\<close>
  backwards through an operation.
\<close>

definition emits :: "('w, 'a) op \<Rightarrow> ('a \<Rightarrow> event list \<Rightarrow> bool) \<Rightarrow> bool" where
  "emits m Q \<longleftrightarrow> (\<forall>s. \<exists>es. op_trace (snd (run_state m s)) = op_trace s @ es \<and> Q (fst (run_state m s)) es)"

lemma emits_mono: "emits m Q \<Longrightarrow> (\<And>a es. Q a es \<Longrightarrow> P a es) \<Longrightarrow> emits m P"
  by (fastforce simp: emits_def)

lemma emits_conj: "emits m Q \<Longrightarrow> emits m R \<Longrightarrow> emits m (\<lambda>a es. Q a es \<and> R a es)"
  unfolding emits_def by (metis same_append_eq)

lemma emits_return [emits_intro]: "Q x [] \<Longrightarrow> emits (ret x) Q"
  by (simp add: emits_def)

lemma emits_bind [emits_intro]:
  assumes "emits m (\<lambda>a es. emits (f a) (\<lambda>b es'. Q b (es @ es')))"
  shows "emits (m \<bind> f) Q"
  unfolding emits_def
proof
  fix s
  obtain a s1 where 1: "run_state m s = (a, s1)" by fastforce
  obtain b s2 where 2: "run_state (f a) s1 = (b, s2)" by fastforce
  from assms 1 obtain es where es: "op_trace s1 = op_trace s @ es"
      "emits (f a) (\<lambda>b es'. Q b (es @ es'))"
    unfolding emits_def [of m] by (metis fst_conv snd_conv)
  from es(2) 2 obtain es' where "op_trace s2 = op_trace s1 @ es'" "Q b (es @ es')"
    unfolding emits_def by (metis fst_conv snd_conv)
  with es(1) 1 2 show "\<exists>es. op_trace (snd (run_state (m \<bind> f) s)) = op_trace s @ es \<and>
      Q (fst (run_state (m \<bind> f) s)) es" by simp
qed

lemma emits_workload_call [emits_intro]:
  "(\<And>r. Q r [Call c rq (err_of r)]) \<Longrightarrow> emits (workload_call c rq f) Q"
  by (auto simp: emits_def workload_call_def split: prod.split)

lemma emits_tech_call [emits_intro]:
  "(\<And>r. Q r [TechCall rq (err_of r)]) \<Longrightarrow> emits (tech_call rq f) Q"
  by (auto simp: emits_def tech_call_def split: prod.split)

text \<open>As above, with the server's answer in the premise, for servers that obey a law.\<close>

lemma emits_tech_call_answer:
  "(\<And>w r w'. f w = (r, w') \<Longrightarrow> Q r [TechCall rq (err_of r)]) \<Longrightarrow> emits (tech_call rq f) Q"
  by (auto simp: emits_def tech_call_def split: prod.split)

lemma emits_workload_call_answer:
  "(\<And>w r w'. f w = (r, w') \<Longrightarrow> Q r [Call c rq (err_of r)]) \<Longrightarrow> emits (workload_call c rq f) Q"
  by (auto simp: emits_def workload_call_def split: prod.split)

lemma emits_record_event [emits_intro]: "Q () [Recorded t r m] \<Longrightarrow> emits (record_event t r m) Q"
  by (simp add: emits_def record_event_def)

lemma emits_world_step [emits_intro]: "(\<And>r. Q r []) \<Longrightarrow> emits (world_step f) Q"
  by (auto simp: emits_def world_step_def split: prod.split)

lemma emits_now [emits_intro]: "(\<And>t. Q t []) \<Longrightarrow> emits (clock_now A) Q"
  unfolding clock_now_def by (rule emits_world_step)

lemma emits_cache_read [emits_intro]: "(\<And>m. Q m []) \<Longrightarrow> emits cache_read Q"
  by (simp add: emits_def cache_read_def)

lemma emits_cache_modify [emits_intro]: "Q () [] \<Longrightarrow> emits (cache_modify f) Q"
  by (simp add: emits_def cache_modify_def)

lemma emits_if [emits_intro]:
  "(b \<Longrightarrow> emits m Q) \<Longrightarrow> (\<not> b \<Longrightarrow> emits n Q) \<Longrightarrow> emits (if b then m else n) Q"
  by simp

lemma emits_case_sum [emits_intro]:
  "(\<And>e. r = Inl e \<Longrightarrow> emits (f e) Q) \<Longrightarrow> (\<And>x. r = Inr x \<Longrightarrow> emits (g x) Q) \<Longrightarrow>
   emits (case r of Inl e \<Rightarrow> f e | Inr x \<Rightarrow> g x) Q"
  by (cases r) simp_all

lemma emits_case_option [emits_intro]:
  "(r = None \<Longrightarrow> emits f Q) \<Longrightarrow> (\<And>x. r = Some x \<Longrightarrow> emits (g x) Q) \<Longrightarrow>
   emits (case r of None \<Rightarrow> f | Some x \<Rightarrow> g x) Q"
  by (cases r) simp_all

lemma emits_case_outcome [emits_intro]:
  "(\<And>x. r = Ok x \<Longrightarrow> emits (f x) Q) \<Longrightarrow> (\<And>e. r = Error e \<Longrightarrow> emits (g e) Q) \<Longrightarrow>
   (r = Panics \<Longrightarrow> emits h Q) \<Longrightarrow>
   emits (case r of Ok x \<Rightarrow> f x | Error e \<Rightarrow> g e | Panics \<Rightarrow> h) Q"
  by (cases r) simp_all

lemma emits_case_prod [emits_intro]:
  "(\<And>a b. p = (a, b) \<Longrightarrow> emits (f a b) Q) \<Longrightarrow> emits (case p of (a, b) \<Rightarrow> f a b) Q"
  by (cases p) simp

lemma emits_let [emits_intro]: "emits (f x) Q \<Longrightarrow> emits (let y = x in f y) Q"
  by simp

lemma emits_result: "emits m (\<lambda>r es. \<exists>s. fst (run_state m s) = r) \<longleftrightarrow> emits m (\<lambda>r es. True)"
  by (auto simp: emits_def)

text \<open>What \<open>emits\<close> says of a run, and the footprint of an operation: a predicate on its events.\<close>

lemma emits_run:
  assumes "emits m Q" "run_state m s = (a, s')"
  obtains es where "op_trace s' = op_trace s @ es" "Q a es"
  using assms unfolding emits_def by (metis fst_conv snd_conv)

lemma emits_trace: "emits m Q \<Longrightarrow> op_trace s = [] \<Longrightarrow> Q (fst (run_state m s)) (op_trace (snd (run_state m s)))"
  by (auto simp: emits_def dest: spec [of _ s])

abbreviation footprint :: "('w, 'a) op \<Rightarrow> (event \<Rightarrow> bool) \<Rightarrow> bool" where
  "footprint m P \<equiv> emits m (\<lambda>_ es. \<forall>e \<in> set es. P e)"

lemma footprint_bind: "footprint m P \<Longrightarrow> (\<And>x. footprint (f x) P) \<Longrightarrow> footprint (m \<bind> f) P"
  by (rule emits_bind, erule emits_mono) (fastforce elim: emits_mono)

lemmas footprint_intro = footprint_bind emits_intro

fun ev_failed :: "event \<Rightarrow> bool" where
  "ev_failed (Call c rq e) = (e \<noteq> None)"
| "ev_failed (TechCall rq e) = (e \<noteq> None)"
| "ev_failed (Recorded t r m) = False"

fun ev_client :: "event \<Rightarrow> client option" where
  "ev_client (Call c rq e) = Some c"
| "ev_client _ = None"

text \<open>A workload call that changes the cluster.\<close>

fun is_write :: "request \<Rightarrow> bool" where
  "is_write (GetSecret _ _) = False"
| "is_write (GetService _ _) = False"
| "is_write (GetEndpoints _ _) = False"
| "is_write ListNodes = False"
| "is_write (GetPostgresql _ _) = False"
| "is_write _ = True"

fun ev_workload_write :: "event \<Rightarrow> bool" where
  "ev_workload_write (Call c rq e) = is_write rq"
| "ev_workload_write _ = False"

section \<open>The contract of an operation on one cluster\<close>

text \<open>
  What the reconciler relies on when it hands a client to a manager: the operation calls this
  client only and makes allowed requests only, and when it reports success every write it made
  was accepted.
\<close>

definition write_accepted :: "event \<Rightarrow> bool" where
  "write_accepted e \<longleftrightarrow> (ev_workload_write e \<longrightarrow> \<not> ev_failed e)"

lemma write_accepted_simps [simp]:
  "write_accepted (Call c rq e) = (is_write rq \<longrightarrow> e = None)"
  "write_accepted (TechCall trq e)"
  "write_accepted (Recorded t r m)"
  by (simp_all add: write_accepted_def)

locale cluster_operation =
  fixes op :: "'w api \<Rightarrow> client \<Rightarrow> 'x \<Rightarrow> ('w, 'r) op"
    and allowed :: "'x \<Rightarrow> request \<Rightarrow> bool"
    and ok :: "'r \<Rightarrow> bool"
  assumes op_emits: "emits (op A c x) (\<lambda>r es.
      (\<forall>e \<in> set es. \<exists>rq res. e = Call c rq res \<and> allowed x rq) \<and>
      (ok r \<longrightarrow> (\<forall>e \<in> set es. write_accepted e)))"
begin

lemma op_rule:
  assumes "\<And>r es. (\<forall>e \<in> set es. \<exists>rq res. e = Call c rq res \<and> allowed x rq) \<Longrightarrow>
      (ok r \<Longrightarrow> \<forall>e \<in> set es. write_accepted e) \<Longrightarrow> Q r es"
  shows "emits (op A c x) Q"
  by (rule emits_mono [OF op_emits]) (use assms in blast)

lemma confined: "footprint (op A c x) (\<lambda>e. ev_client e = Some c)"
  by (rule op_rule) auto

lemma no_tech_call: "footprint (op A c x) (\<lambda>e. \<forall>rq res. e \<noteq> TechCall rq res)"
  by (rule op_rule) auto

lemma only_allowed: "footprint (op A c x) (\<lambda>e. \<exists>rq res. e = Call c rq res \<and> allowed x rq)"
  by (rule op_rule)

lemma success_accepted: "emits (op A c x) (\<lambda>r es. ok r \<longrightarrow> (\<forall>e \<in> set es. write_accepted e))"
  by (rule op_rule) auto

text \<open>Two runs in sequence, the second only after the first succeeded, are accepted as a whole.\<close>

lemma success_sequence:
  "emits (op A c x \<bind> (\<lambda>r. if ok r then op A d y else ret r))
     (\<lambda>r es. ok r \<longrightarrow> (\<forall>e \<in> set es. write_accepted e))"
  by (intro emits_bind op_rule emits_if emits_return) auto

end

end
