(* ===== verification/Status.thy ===== *)
theory Status
  imports Kube
begin

text \<open>
  The package \<open>internal/status\<close>: conditions are upserted into lists that are keyed by the
  condition type (\<open>SetCondition\<close>) or by cluster name and condition type
  (\<open>SetClusterCondition\<close>), and \<open>Aggregate\<close> rolls the clusters' Ready conditions up into a
  phase. The clock reading of \<open>SetCondition\<close> is its last argument.
\<close>

section \<open>Conditions\<close>

definition PhasePending :: string where "PhasePending = ''Pending''"
definition PhaseReady :: string where "PhaseReady = ''Ready''"
definition PhaseDegraded :: string where "PhaseDegraded = ''Degraded''"
definition PhaseFailingOver :: string where "PhaseFailingOver = ''FailingOver''"
definition PhaseFailed :: string where "PhaseFailed = ''Failed''"

lemmas phase_consts [go_simps] =
  PhasePending_def PhaseReady_def PhaseDegraded_def PhaseFailingOver_def PhaseFailed_def

lemma phases_distinct [simp]:
  "PhaseReady \<noteq> PhaseFailed" "PhaseReady \<noteq> PhaseDegraded" "PhaseReady \<noteq> PhasePending" "PhaseReady \<noteq> PhaseFailingOver"
  "PhaseFailed \<noteq> PhaseReady" "PhaseDegraded \<noteq> PhaseReady" "PhasePending \<noteq> PhaseReady" "PhaseFailingOver \<noteq> PhaseReady"
  "PhaseDegraded \<noteq> PhaseFailed" "PhaseFailed \<noteq> PhaseDegraded" "PhasePending \<noteq> PhaseFailed" "PhasePending \<noteq> PhaseDegraded"
  "PhaseFailed \<noteq> PhasePending" "PhaseDegraded \<noteq> PhasePending" "PhaseFailingOver \<noteq> PhaseFailed"
  "PhaseFailingOver \<noteq> PhaseDegraded" "PhaseFailingOver \<noteq> PhasePending" "PhaseFailed \<noteq> PhaseFailingOver"
  "PhaseDegraded \<noteq> PhaseFailingOver" "PhasePending \<noteq> PhaseFailingOver"
  by (simp_all add: phase_consts)

fun SetCondition ::
  "Condition list \<Rightarrow> string \<Rightarrow> ConditionStatus \<Rightarrow> int64 \<Rightarrow> string \<Rightarrow> string \<Rightarrow> time \<Rightarrow> Condition list" where
  "SetCondition [] condType condStatus generation reason message now =
     [\<lparr>cd_Type = condType, cd_Status = condStatus, cd_ObservedGeneration = generation,
       cd_LastTransitionTime = now, cd_Reason = reason, cd_Message = message\<rparr>]"
| "SetCondition (c # cs) condType condStatus generation reason message now =
     (if cd_Type c = condType
      then (let changed = cd_Status c \<noteq> condStatus
            in c\<lparr>cd_Status := condStatus, cd_Reason := reason, cd_Message := message,
                 cd_ObservedGeneration := generation,
                 cd_LastTransitionTime := (if changed then now else cd_LastTransitionTime c)\<rparr> # cs)
      else c # SetCondition cs condType condStatus generation reason message now)"

fun SetClusterCondition ::
  "ClusterStatus list \<Rightarrow> string \<Rightarrow> string \<Rightarrow> ConditionStatus \<Rightarrow> int64 \<Rightarrow> string \<Rightarrow> string \<Rightarrow> time
   \<Rightarrow> ClusterStatus list" where
  "SetClusterCondition [] clusterName condType condStatus generation reason message now =
     [zero_ClusterStatus\<lparr>cs_Name := clusterName,
        cs_Conditions := SetCondition [] condType condStatus generation reason message now\<rparr>]"
| "SetClusterCondition (cs # rest) clusterName condType condStatus generation reason message now =
     (if cs_Name cs = clusterName
      then cs\<lparr>cs_Conditions := SetCondition (cs_Conditions cs) condType condStatus generation reason message now\<rparr> # rest
      else cs # SetClusterCondition rest clusterName condType condStatus generation reason message now)"

section \<open>Aggregation\<close>

fun conditionTrue :: "Condition list \<Rightarrow> string \<Rightarrow> bool" where
  "conditionTrue [] condType = False"
| "conditionTrue (c # cs) condType =
     (if cd_Type c = condType then cd_Status c = ConditionTrue else conditionTrue cs condType)"

definition ready_count :: "ClusterStatus list \<Rightarrow> nat" where
  "ready_count clusterStatuses =
     length (filter (\<lambda>cs. conditionTrue (cs_Conditions cs) ConditionReady) clusterStatuses)"

definition Aggregate :: "ClusterStatus list \<Rightarrow> bool \<Rightarrow> string \<times> Condition list" where
  "Aggregate clusterStatuses failoverInProgress =
     (if failoverInProgress then (PhaseFailingOver, [])
      else if clusterStatuses = [] then (PhasePending, [])
      else let total = length clusterStatuses; ready = ready_count clusterStatuses
           in if ready = total then (PhaseReady, [])
              else if ready = 0 then (PhaseFailed, [])
              else (PhaseDegraded, []))"

section \<open>The contract of an upsert\<close>

text \<open>
  Both setters behave as a store keyed by \<open>'k\<close>: writing a key makes exactly that key read
  the written value. What clients need of a series of writes follows from this one law.
\<close>

locale upsert =
  fixes put :: "'k \<Rightarrow> 'v \<Rightarrow> 's \<Rightarrow> 's" and look :: "'s \<Rightarrow> 'k \<Rightarrow> 'v option"
  assumes look_put: "look (put k v s) k' = (if k' = k then Some v else look s k')"
begin

lemma look_put_same [simp]: "look (put k v s) k = Some v"
  by (simp add: look_put)

lemma look_put_other [simp]: "k' \<noteq> k \<Longrightarrow> look (put k v s) k' = look s k'"
  by (simp add: look_put)

lemma last_write_wins: "look (put k v (put k w s)) = look (put k v s)"
  by (auto simp: look_put)

lemma writes_commute: "k \<noteq> k' \<Longrightarrow> look (put k v (put k' w s)) = look (put k' w (put k v s))"
  by (auto simp: look_put)

lemma look_fold_other:
  "k \<notin> fst ` set kvs \<Longrightarrow> look (fold (\<lambda>(k, v). put k v) kvs s) k = look s k"
  by (induction kvs arbitrary: s) (auto simp: look_put)

lemma look_fold:
  "distinct (map fst kvs) \<Longrightarrow> (k, v) \<in> set kvs \<Longrightarrow> look (fold (\<lambda>(k, v). put k v) kvs s) k = Some v"
proof (induction kvs arbitrary: s)
  case (Cons p kvs)
  then show ?case
    by (cases "p = (k, v)") (force simp: look_fold_other rev_image_eqI split: prod.splits)+
qed simp

end

section \<open>The setters keep the contract\<close>

type_synonym cond_value = "ConditionStatus \<times> int64 \<times> string \<times> string"

abbreviation find_cond :: "Condition list \<Rightarrow> string \<Rightarrow> Condition option" where
  "find_cond cs t \<equiv> find (\<lambda>c. cd_Type c = t) cs"

abbreviation find_cluster :: "ClusterStatus list \<Rightarrow> string \<Rightarrow> ClusterStatus option" where
  "find_cluster cs n \<equiv> find (\<lambda>c. cs_Name c = n) cs"

definition cond_value :: "Condition \<Rightarrow> cond_value" where
  "cond_value c = (cd_Status c, cd_ObservedGeneration c, cd_Reason c, cd_Message c)"

definition cond_look :: "Condition list \<Rightarrow> string \<Rightarrow> cond_value option" where
  "cond_look cs t = map_option cond_value (find_cond cs t)"

definition cond_put :: "time \<Rightarrow> string \<Rightarrow> cond_value \<Rightarrow> Condition list \<Rightarrow> Condition list" where
  "cond_put now t v cs = (case v of (st, g, r, m) \<Rightarrow> SetCondition cs t st g r m now)"

definition cluster_look :: "ClusterStatus list \<Rightarrow> string \<times> string \<Rightarrow> cond_value option" where
  "cluster_look cs k =
     (case find_cluster cs (fst k) of None \<Rightarrow> None | Some c \<Rightarrow> cond_look (cs_Conditions c) (snd k))"

definition cluster_put :: "time \<Rightarrow> string \<times> string \<Rightarrow> cond_value \<Rightarrow> ClusterStatus list \<Rightarrow> ClusterStatus list" where
  "cluster_put now k v cs =
     (case v of (st, g, r, m) \<Rightarrow> SetClusterCondition cs (fst k) (snd k) st g r m now)"

lemma find_SetCondition:
  "find_cond (SetCondition cs t st g r m now) t' =
     (if t' = t
      then Some \<lparr>cd_Type = t, cd_Status = st, cd_ObservedGeneration = g,
                 cd_LastTransitionTime =
                   (case find_cond cs t of
                      Some c \<Rightarrow> if cd_Status c = st then cd_LastTransitionTime c else now
                    | None \<Rightarrow> now),
                 cd_Reason = r, cd_Message = m\<rparr>
      else find_cond cs t')"
  by (induction cs) (auto simp: Let_def)

lemma cond_look_SetCondition [simp]:
  "cond_look (SetCondition cs t st g r m now) t' = (if t' = t then Some (st, g, r, m) else cond_look cs t')"
  by (simp add: cond_look_def find_SetCondition cond_value_def)

lemma cond_look_Nil [simp]: "cond_look [] t = None"
  by (simp add: cond_look_def)

lemma find_SetClusterCondition:
  "find_cluster (SetClusterCondition cs n t st g r m now) n' =
     (if n' = n
      then (case find_cluster cs n of
              None \<Rightarrow> Some (zero_ClusterStatus\<lparr>cs_Name := n, cs_Conditions := SetCondition [] t st g r m now\<rparr>)
            | Some c \<Rightarrow> Some (c\<lparr>cs_Conditions := SetCondition (cs_Conditions c) t st g r m now\<rparr>))
      else find_cluster cs n')"
  by (induction cs) (auto simp: zero_ClusterStatus_def)

interpretation cond_store: upsert "cond_put now" cond_look for now
  by unfold_locales (auto simp: cond_put_def split: prod.split)

interpretation cluster_store: upsert "cluster_put now" cluster_look for now
  by unfold_locales
     (auto simp: cluster_put_def cluster_look_def find_SetClusterCondition
       simp del: SetCondition.simps split: prod.splits option.splits)

section \<open>Well-formed statuses\<close>

text \<open>No condition type occurs twice, and no cluster name does.\<close>

definition wf_conditions :: "Condition list \<Rightarrow> bool" where
  "wf_conditions cs \<longleftrightarrow> distinct (map cd_Type cs)"

definition wf_clusters :: "ClusterStatus list \<Rightarrow> bool" where
  "wf_clusters cs \<longleftrightarrow> distinct (map cs_Name cs) \<and> (\<forall>c \<in> set cs. wf_conditions (cs_Conditions c))"

lemma types_SetCondition:
  "map cd_Type (SetCondition cs t st g r m now) =
     (if t \<in> cd_Type ` set cs then map cd_Type cs else map cd_Type cs @ [t])"
  by (induction cs) (auto simp: Let_def)

lemma wf_SetCondition [simp]: "wf_conditions cs \<Longrightarrow> wf_conditions (SetCondition cs t st g r m now)"
  by (auto simp: wf_conditions_def types_SetCondition)

lemma names_SetClusterCondition:
  "map cs_Name (SetClusterCondition cs n t st g r m now) =
     (if n \<in> cs_Name ` set cs then map cs_Name cs else map cs_Name cs @ [n])"
  by (induction cs) (auto simp: zero_ClusterStatus_def)

lemma set_SetClusterCondition:
  "c \<in> set (SetClusterCondition cs n t st g r m now) \<Longrightarrow>
   c \<in> set cs \<or>
   (\<exists>c0. (c0 \<in> set cs \<or> c0 = zero_ClusterStatus\<lparr>cs_Name := n\<rparr>) \<and>
         c = c0\<lparr>cs_Conditions := SetCondition (cs_Conditions c0) t st g r m now\<rparr>)"
  by (induction cs) (force simp: zero_ClusterStatus_def split: if_splits)+

lemma wf_SetClusterCondition [simp]:
  assumes "wf_clusters cs"
  shows "wf_clusters (SetClusterCondition cs n t st g r m now)"
proof -
  have "wf_conditions (cs_Conditions zero_ClusterStatus)"
    by (simp add: wf_conditions_def zero_ClusterStatus_def)
  with assms show ?thesis
    by (auto simp: wf_clusters_def names_SetClusterCondition dest!: set_SetClusterCondition)
qed

text \<open>A condition update of a cluster that has an entry keeps names, roles and endpoints.\<close>

lemma keep_SetClusterCondition:
  assumes "n \<in> cs_Name ` set cs"
  shows "map (\<lambda>c. (cs_Name c, cs_Role c, cs_Endpoint c)) (SetClusterCondition cs n t st g r m now) =
         map (\<lambda>c. (cs_Name c, cs_Role c, cs_Endpoint c)) cs"
  using assms by (induction cs) auto

lemma conditionTrue_find:
  "conditionTrue cs t = (case find_cond cs t of None \<Rightarrow> False | Some c \<Rightarrow> cd_Status c = ConditionTrue)"
  by (induction cs) auto

lemma conditionTrue_look:
  "conditionTrue cs t \<longleftrightarrow> (\<exists>g r m. cond_look cs t = Some (ConditionTrue, g, r, m))"
  by (auto simp: conditionTrue_find cond_look_def cond_value_def split: option.splits)

definition cluster_ready :: "ClusterStatus \<Rightarrow> bool" where
  "cluster_ready c \<longleftrightarrow> conditionTrue (cs_Conditions c) ConditionReady"

lemma ready_count_all: "ready_count cs = length cs \<longleftrightarrow> (\<forall>c \<in> set cs. cluster_ready c)"
  using length_filter_less [of _ cs cluster_ready]
  by (fastforce simp: ready_count_def cluster_ready_def cong: filter_cong)

lemma ready_count_none: "ready_count cs = 0 \<longleftrightarrow> (\<forall>c \<in> set cs. \<not> cluster_ready c)"
  by (auto simp: ready_count_def cluster_ready_def filter_empty_conv)

section \<open>Properties\<close>



text \<open>
  Setting a cluster's condition changes what is read for that cluster and that type only,
  never duplicates a cluster, and leaves name, role and endpoint of every entry that was there.
\<close>

theorem SetClusterCondition_correct:
  assumes "wf_clusters cs" and "n \<in> cs_Name ` set cs"
  shows "wf_clusters (SetClusterCondition cs n t st g r m now) \<and>
    cluster_look (SetClusterCondition cs n t st g r m now) = (cluster_look cs)((n, t) \<mapsto> (st, g, r, m)) \<and>
    map (\<lambda>c. (cs_Name c, cs_Role c, cs_Endpoint c)) (SetClusterCondition cs n t st g r m now) =
    map (\<lambda>c. (cs_Name c, cs_Role c, cs_Endpoint c)) cs"
proof -
  have "cluster_look (cluster_put now (n, t) (st, g, r, m) cs) = (cluster_look cs)((n, t) \<mapsto> (st, g, r, m))"
    by (rule ext) (simp add: cluster_store.look_put)
  then show ?thesis
    using assms by (simp add: cluster_put_def keep_SetClusterCondition)
qed

lemma SetClusterCondition_correct_witness:
  defines "cs \<equiv> [zero_ClusterStatus\<lparr>cs_Name := ''eu'', cs_Role := ClusterRolePrimary\<rparr>]"
  shows "cluster_look (SetClusterCondition cs ''eu'' ConditionReady ConditionTrue 1 [] [] 7) (''eu'', ConditionReady) =
    Some (ConditionTrue, 1, [], [])"
proof -
  have "wf_clusters cs" "''eu'' \<in> cs_Name ` set cs"
    by (simp_all add: cs_def wf_clusters_def wf_conditions_def zero_ClusterStatus_def)
  from SetClusterCondition_correct [OF this] show ?thesis by simp
qed

text \<open>
  The aggregated phase is Ready exactly when there is a cluster and every one is ready,
  Failed exactly when there is one and none is ready, Degraded exactly when some but not all
  are ready, Pending exactly when there is no cluster; a failover in progress overrides all.
\<close>

theorem Aggregate_correct:
  "fst (Aggregate cs True) = PhaseFailingOver \<and>
   (fst (Aggregate cs False) = PhaseReady \<longleftrightarrow> cs \<noteq> [] \<and> list_all cluster_ready cs) \<and>
   (fst (Aggregate cs False) = PhaseFailed \<longleftrightarrow> cs \<noteq> [] \<and> \<not> list_ex cluster_ready cs) \<and>
   (fst (Aggregate cs False) = PhaseDegraded \<longleftrightarrow> list_ex cluster_ready cs \<and> \<not> list_all cluster_ready cs) \<and>
   (fst (Aggregate cs False) = PhasePending \<longleftrightarrow> cs = [])"
proof (cases "cs = []")
  case False
  then show ?thesis
    using ready_count_all [of cs] ready_count_none [of cs]
    by (auto simp: Aggregate_def Let_def list_all_iff list_ex_iff)
qed (simp add: Aggregate_def)

end
