(* ===== verification/Mem_Api.thy ===== *)
theory Mem_Api
  imports Kube
begin

text \<open>
  One concrete instance of the parameter \<open>api\<close>, an in-memory API server per cluster, and the
  documented behaviour of an API server as a predicate on the parameter (\<open>store_laws\<close>). The
  theorems of the development quantify over the parameter; the instance only serves the
  witnesses, which run the operator's definitions on it.
\<close>

section \<open>The world of the instance\<close>

record mem_world =
  mw_secrets :: "client \<times> string \<times> string \<Rightarrow> Secret option"
  mw_services :: "client \<times> string \<times> string \<Rightarrow> Service option"
  mw_endpoints :: "client \<times> string \<times> string \<Rightarrow> Endpoints option"
  mw_postgresqls :: "client \<times> string \<times> string \<Rightarrow> unstructured option"
  mw_nodes :: "client \<Rightarrow> Node list"
  mw_down :: "client \<Rightarrow> bool"
  mw_tech_secrets :: "string \<times> string \<Rightarrow> Secret option"
  mw_mcs :: "string \<times> string \<Rightarrow> PostgresMC option"
  mw_clock :: time

text \<open>An object is stored under its own namespace and name.\<close>

definition keyed ::
  "('o \<Rightarrow> string \<times> string) \<Rightarrow> (client \<times> string \<times> string \<Rightarrow> 'o option) \<Rightarrow> client \<times> string \<times> string \<Rightarrow> 'o option" where
  "keyed key v = (\<lambda>k. case v k of None \<Rightarrow> None | Some x \<Rightarrow> if key x = snd k then Some x else None)"

abbreviation secret_key :: "Secret \<Rightarrow> string \<times> string" where
  "secret_key x \<equiv> (sec_Namespace x, sec_Name x)"

abbreviation service_key :: "Service \<Rightarrow> string \<times> string" where
  "service_key x \<equiv> (svc_Namespace x, svc_Name x)"

abbreviation endpoints_key :: "Endpoints \<Rightarrow> string \<times> string" where
  "endpoints_key x \<equiv> (ep_Namespace x, ep_Name x)"

definition view_secrets :: "mem_world \<Rightarrow> client \<times> string \<times> string \<Rightarrow> Secret option" where
  "view_secrets w = keyed secret_key (mw_secrets w)"

definition view_services :: "mem_world \<Rightarrow> client \<times> string \<times> string \<Rightarrow> Service option" where
  "view_services w = keyed service_key (mw_services w)"

definition complete_service :: "Service \<Rightarrow> Service" where
  "complete_service x = x\<lparr>svc_Type := (if svc_Type x = [] then ''ClusterIP'' else svc_Type x)\<rparr>"

definition view_endpoints :: "mem_world \<Rightarrow> client \<times> string \<times> string \<Rightarrow> Endpoints option" where
  "view_endpoints w = keyed endpoints_key (mw_endpoints w)"

definition not_found :: err where "not_found = Err ''not found'' True"
definition already_exists :: err where "already_exists = Err ''already exists'' False"
definition timeout_err :: err where "timeout_err = Err ''i/o timeout'' False"

definition mem_get ::
  "(mem_world \<Rightarrow> client \<times> string \<times> string \<Rightarrow> 'o option) \<Rightarrow> client \<Rightarrow> string \<Rightarrow> string \<Rightarrow> mem_world \<Rightarrow>
   (err + 'o) \<times> mem_world" where
  "mem_get view c ns n w =
     (if mw_down w c then (Inl timeout_err, w)
      else case view w (c, ns, n) of None \<Rightarrow> (Inl not_found, w) | Some x \<Rightarrow> (Inr x, w))"

definition mem_create ::
  "(mem_world \<Rightarrow> client \<times> string \<times> string \<Rightarrow> 'o option) \<Rightarrow>
   ((client \<times> string \<times> string \<Rightarrow> 'o option) \<Rightarrow> mem_world \<Rightarrow> mem_world) \<Rightarrow>
   ('o \<Rightarrow> string \<times> string) \<Rightarrow> ('o \<Rightarrow> 'o) \<Rightarrow> client \<Rightarrow> 'o \<Rightarrow> mem_world \<Rightarrow> (err + unit) \<times> mem_world" where
  "mem_create view upd key complete c x w =
     (if mw_down w c then (Inl timeout_err, w)
      else case view w (c, key x) of
             Some y \<Rightarrow> (Inl already_exists, w)
           | None \<Rightarrow> (Inr (), upd ((view w)((c, key x) := Some (complete x))) w))"

definition mem_update ::
  "(mem_world \<Rightarrow> client \<times> string \<times> string \<Rightarrow> 'o option) \<Rightarrow>
   ((client \<times> string \<times> string \<Rightarrow> 'o option) \<Rightarrow> mem_world \<Rightarrow> mem_world) \<Rightarrow>
   ('o \<Rightarrow> string \<times> string) \<Rightarrow> ('o \<Rightarrow> 'o) \<Rightarrow> client \<Rightarrow> 'o \<Rightarrow> mem_world \<Rightarrow> (err + unit) \<times> mem_world" where
  "mem_update view upd key complete c x w =
     (if mw_down w c then (Inl timeout_err, w)
      else case view w (c, key x) of
             None \<Rightarrow> (Inl not_found, w)
           | Some y \<Rightarrow> (Inr (), upd ((view w)((c, key x) := Some (complete x))) w))"

definition mem_delete ::
  "(mem_world \<Rightarrow> client \<times> string \<times> string \<Rightarrow> 'o option) \<Rightarrow>
   ((client \<times> string \<times> string \<Rightarrow> 'o option) \<Rightarrow> mem_world \<Rightarrow> mem_world) \<Rightarrow>
   client \<Rightarrow> string \<Rightarrow> string \<Rightarrow> mem_world \<Rightarrow> (err + unit) \<times> mem_world" where
  "mem_delete view upd c ns n w =
     (if mw_down w c then (Inl timeout_err, w)
      else case view w (c, ns, n) of
             None \<Rightarrow> (Inl not_found, w)
           | Some y \<Rightarrow> (Inr (), upd ((view w)((c, ns, n) := None)) w))"

fun json_string :: "json option \<Rightarrow> string" where
  "json_string (Some (JString s)) = s"
| "json_string _ = []"

definition pg_key :: "unstructured \<Rightarrow> string \<times> string" where
  "pg_key obj = (let m = json_fields (dict_get obj ''metadata'')
                 in (json_string (dict_get m ''namespace''), json_string (dict_get m ''name'')))"

definition mem_apply :: "client \<Rightarrow> unstructured \<Rightarrow> mem_world \<Rightarrow> (err + unit) \<times> mem_world" where
  "mem_apply c obj w =
     (if mw_down w c then (Inl timeout_err, w)
      else (Inr (), w\<lparr>mw_postgresqls := (mw_postgresqls w)((c, pg_key obj) := Some obj)\<rparr>))"

definition mem_merge_patch :: "client \<Rightarrow> unstructured \<Rightarrow> string \<Rightarrow> mem_world \<Rightarrow> (err + unit) \<times> mem_world" where
  "mem_merge_patch c obj patch w =
     (if mw_down w c then (Inl timeout_err, w)
      else case mw_postgresqls w (c, pg_key obj) of
             None \<Rightarrow> (Inl not_found, w)
           | Some old \<Rightarrow>
               (case parse_json patch of
                  Inl e \<Rightarrow> (Inl (errorf e), w)
                | Inr p \<Rightarrow>
                    (Inr (), w\<lparr>mw_postgresqls := (mw_postgresqls w)((c, pg_key obj) :=
                       Some (json_fields (Some (merge_patch (Some (JObject old)) (decode p)))))\<rparr>)))"

definition mem_tech_get :: "string \<Rightarrow> string \<Rightarrow> mem_world \<Rightarrow> (err + Secret) \<times> mem_world" where
  "mem_tech_get ns n w =
     (case mw_tech_secrets w (ns, n) of None \<Rightarrow> (Inl not_found, w) | Some x \<Rightarrow> (Inr x, w))"

definition mem_get_mc :: "string \<Rightarrow> string \<Rightarrow> mem_world \<Rightarrow> (err + PostgresMC) \<times> mem_world" where
  "mem_get_mc ns n w = (case mw_mcs w (ns, n) of None \<Rightarrow> (Inl not_found, w) | Some x \<Rightarrow> (Inr x, w))"

text \<open>Writes to the main resource leave the status, writes to the status leave the rest.\<close>

definition mem_write_mc ::
  "(PostgresMC \<Rightarrow> PostgresMC) \<Rightarrow> PostgresMC \<Rightarrow> mem_world \<Rightarrow> (err + PostgresMC) \<times> mem_world" where
  "mem_write_mc f mc w =
     (case mw_mcs w (mc_Namespace mc, mc_Name mc) of
        None \<Rightarrow> (Inl not_found, w)
      | Some old \<Rightarrow>
          (Inr (f old), w\<lparr>mw_mcs := (mw_mcs w)((mc_Namespace mc, mc_Name mc) := Some (f old))\<rparr>))"

definition mem_new_client :: "string \<Rightarrow> mem_world \<Rightarrow> (err + client) \<times> mem_world" where
  "mem_new_client cfg w =
     (case atoi cfg of Some i \<Rightarrow> (Inr (nat i), w) | None \<Rightarrow> (Inl (errorf ''no server''), w))"

definition mem_api :: "mem_world api" where
  "mem_api = \<lparr>
     api_get_secret = mem_get view_secrets,
     api_create_secret = mem_create view_secrets (\<lambda>v. mw_secrets_update (\<lambda>_. v)) secret_key id,
     api_update_secret = mem_update view_secrets (\<lambda>v. mw_secrets_update (\<lambda>_. v)) secret_key id,
     api_get_service = mem_get view_services,
     api_create_service = mem_create view_services (\<lambda>v. mw_services_update (\<lambda>_. v)) service_key complete_service,
     api_update_service = mem_update view_services (\<lambda>v. mw_services_update (\<lambda>_. v)) service_key complete_service,
     api_delete_service = mem_delete view_services (\<lambda>v. mw_services_update (\<lambda>_. v)),
     api_get_endpoints = mem_get view_endpoints,
     api_create_endpoints = mem_create view_endpoints (\<lambda>v. mw_endpoints_update (\<lambda>_. v)) endpoints_key id,
     api_update_endpoints = mem_update view_endpoints (\<lambda>v. mw_endpoints_update (\<lambda>_. v)) endpoints_key id,
     api_list_nodes = (\<lambda>c w. if mw_down w c then (Inl timeout_err, w) else (Inr (mw_nodes w c), w)),
     api_get_postgresql = mem_get mw_postgresqls,
     api_apply_postgresql = mem_apply,
     api_merge_patch_postgresql = mem_merge_patch,
     api_delete_postgresql = mem_delete mw_postgresqls (\<lambda>v. mw_postgresqls_update (\<lambda>_. v)),
     tech_get_secret = mem_tech_get,
     tech_get_mc = mem_get_mc,
     tech_update_mc = (\<lambda>mc. mem_write_mc (\<lambda>old. mc\<lparr>mc_Status := mc_Status old\<rparr>) mc),
     tech_patch_mc = (\<lambda>orig mc. mem_write_mc (\<lambda>old. mc\<lparr>mc_Status := mc_Status old\<rparr>) mc),
     tech_patch_mc_status = (\<lambda>orig mc. mem_write_mc (\<lambda>old. old\<lparr>mc_Status := mc_Status mc\<rparr>) mc),
     rest_config_from_kubeconfig = Inr,
     new_client = mem_new_client,
     time_now = (\<lambda>w. (mw_clock w, w\<lparr>mw_clock := mw_clock w + 1\<rparr>))\<rparr>"

definition empty_world :: mem_world where
  "empty_world = \<lparr>mw_secrets = (\<lambda>_. None), mw_services = (\<lambda>_. None), mw_endpoints = (\<lambda>_. None),
     mw_postgresqls = (\<lambda>_. None), mw_nodes = (\<lambda>_. []), mw_down = (\<lambda>_. False),
     mw_tech_secrets = (\<lambda>_. None), mw_mcs = (\<lambda>_. None), mw_clock = 100\<rparr>"

definition mem_state :: "mem_world \<Rightarrow> mem_world op_state" where
  "mem_state w = \<lparr>op_world = w, op_trace = [], op_cache = Map.empty\<rparr>"

lemma mem_state_trace: "op_trace (mem_state w) = []"
  by (simp add: mem_state_def)

lemmas mem_defs = mem_api_def mem_get_def mem_create_def mem_update_def mem_delete_def mem_apply_def
  mem_merge_patch_def mem_tech_get_def mem_get_mc_def mem_write_mc_def
  mem_new_client_def complete_service_def keyed_def view_secrets_def view_services_def view_endpoints_def empty_world_def mem_state_def pg_key_def
  not_found_def already_exists_def timeout_err_def

section \<open>What an API server promises\<close>

text \<open>
  The documented behaviour of reads, creates and updates of one kind of object while nobody
  else writes: \<open>view\<close> is the stored content. A read returns what is stored and changes
  nothing, and says not-found only when nothing is stored; a create that succeeds stores the
  object under a key that was free; an update that succeeds replaces the stored object; both
  may set the server-assigned fields, which \<open>same\<close> ignores; a call that fails changes nothing.
\<close>

definition get_law ::
  "(client \<Rightarrow> string \<Rightarrow> string \<Rightarrow> 'w \<Rightarrow> (err + 'o) \<times> 'w) \<Rightarrow> ('o \<Rightarrow> string \<times> string) \<Rightarrow>
   ('w \<Rightarrow> client \<times> string \<times> string \<Rightarrow> 'o option) \<Rightarrow> bool" where
  "get_law get key view \<longleftrightarrow>
     (\<forall>c ns n w. view (snd (get c ns n w)) = view w \<and>
        (case fst (get c ns n w) of
           Inl e \<Rightarrow> IsNotFound e \<longrightarrow> view w (c, ns, n) = None
         | Inr x \<Rightarrow> view w (c, ns, n) = Some x \<and> key x = (ns, n)))"

definition create_law ::
  "(client \<Rightarrow> 'o \<Rightarrow> 'w \<Rightarrow> (err + unit) \<times> 'w) \<Rightarrow> ('o \<Rightarrow> string \<times> string) \<Rightarrow> ('o \<Rightarrow> 'o \<Rightarrow> bool) \<Rightarrow>
   ('w \<Rightarrow> client \<times> string \<times> string \<Rightarrow> 'o option) \<Rightarrow> bool" where
  "create_law create key same view \<longleftrightarrow>
     (\<forall>c x w. case fst (create c x w) of
        Inl e \<Rightarrow> view (snd (create c x w)) = view w
      | Inr _ \<Rightarrow> view w (c, key x) = None \<and>
          (\<exists>y. same x y \<and> view (snd (create c x w)) = (view w)((c, key x) \<mapsto> y)))"

definition update_law ::
  "(client \<Rightarrow> 'o \<Rightarrow> 'w \<Rightarrow> (err + unit) \<times> 'w) \<Rightarrow> ('o \<Rightarrow> string \<times> string) \<Rightarrow> ('o \<Rightarrow> 'o \<Rightarrow> bool) \<Rightarrow>
   ('w \<Rightarrow> client \<times> string \<times> string \<Rightarrow> 'o option) \<Rightarrow> bool" where
  "update_law upd key same view \<longleftrightarrow>
     (\<forall>c x w. case fst (upd c x w) of
        Inl e \<Rightarrow> view (snd (upd c x w)) = view w
      | Inr _ \<Rightarrow> (\<exists>y. same x y \<and> view (snd (upd c x w)) = (view w)((c, key x) \<mapsto> y)))"

definition delete_law ::
  "(client \<Rightarrow> string \<Rightarrow> string \<Rightarrow> 'w \<Rightarrow> (err + unit) \<times> 'w) \<Rightarrow>
   ('w \<Rightarrow> client \<times> string \<times> string \<Rightarrow> 'o option) \<Rightarrow> bool" where
  "delete_law del view \<longleftrightarrow>
     (\<forall>c ns n w. view (snd (del c ns n w)) =
        (case fst (del c ns n w) of Inl e \<Rightarrow> view w | Inr _ \<Rightarrow> (view w)((c, ns, n) := None)))"

definition store_laws ::
  "(client \<Rightarrow> string \<Rightarrow> string \<Rightarrow> 'w \<Rightarrow> (err + 'o) \<times> 'w) \<Rightarrow>
   (client \<Rightarrow> 'o \<Rightarrow> 'w \<Rightarrow> (err + unit) \<times> 'w) \<Rightarrow>
   (client \<Rightarrow> 'o \<Rightarrow> 'w \<Rightarrow> (err + unit) \<times> 'w) \<Rightarrow>
   ('o \<Rightarrow> string \<times> string) \<Rightarrow> ('o \<Rightarrow> 'o \<Rightarrow> bool) \<Rightarrow>
   ('w \<Rightarrow> client \<times> string \<times> string \<Rightarrow> 'o option) \<Rightarrow> bool" where
  "store_laws get create upd key same view \<longleftrightarrow>
     get_law get key view \<and> create_law create key same view \<and> update_law upd key same view"

lemma get_law_view: "get_law get key view \<Longrightarrow> get c ns n w = (r, w') \<Longrightarrow> view w' = view w"
  unfolding get_law_def by (metis snd_conv)

lemma get_law_Inr:
  "get_law get key view \<Longrightarrow> get c ns n w = (Inr x, w') \<Longrightarrow> view w (c, ns, n) = Some x \<and> key x = (ns, n)"
  unfolding get_law_def by (drule spec [of _ c], drule spec [of _ ns], drule spec [of _ n], drule spec [of _ w]) simp

lemma get_law_not_found:
  "get_law get key view \<Longrightarrow> get c ns n w = (Inl e, w') \<Longrightarrow> IsNotFound e \<Longrightarrow> view w (c, ns, n) = None"
  unfolding get_law_def by (drule spec [of _ c], drule spec [of _ ns], drule spec [of _ n], drule spec [of _ w]) simp

lemma create_law_Inr:
  assumes "create_law create key same view" "create c x w = (Inr u, w')"
  obtains y where "same x y" "view w' = (view w)((c, key x) \<mapsto> y)" "view w (c, key x) = None"
  using assms(1) [unfolded create_law_def, rule_format, of c x w] assms(2) by auto

lemma update_law_Inr:
  assumes "update_law upd key same view" "upd c x w = (Inr u, w')"
  obtains y where "same x y" "view w' = (view w)((c, key x) \<mapsto> y)"
  using assms(1) [unfolded update_law_def, rule_format, of c x w] assms(2) by auto

lemma update_law_Inl:
  "update_law upd key same view \<Longrightarrow> upd c x w = (Inl e, w') \<Longrightarrow> view w' = view w"
  unfolding update_law_def by (drule spec [of _ c], drule spec [of _ x], drule spec [of _ w]) simp

lemma delete_law_Inr:
  "delete_law del view \<Longrightarrow> del c ns n w = (Inr u, w') \<Longrightarrow> view w' = (view w)((c, ns, n) := None)"
  unfolding delete_law_def by (drule spec [of _ c], drule spec [of _ ns], drule spec [of _ n], drule spec [of _ w]) simp

definition same_secret :: "Secret \<Rightarrow> Secret \<Rightarrow> bool" where
  "same_secret x y \<longleftrightarrow> (\<exists>rv. y = x\<lparr>sec_ResourceVersion := rv\<rparr>)"

text \<open>
  The server completes a Service: it defaults an empty type and allocates an empty cluster IP
  and node ports. What was given it keeps.
\<close>

definition same_service :: "Service \<Rightarrow> Service \<Rightarrow> bool" where
  "same_service x y \<longleftrightarrow>
     svc_Name y = svc_Name x \<and> svc_Namespace y = svc_Namespace x \<and> svc_Labels y = svc_Labels x \<and>
     svc_ExternalName y = svc_ExternalName x \<and> svc_Selector y = svc_Selector x \<and>
     svc_Type y = (if svc_Type x = [] then ''ClusterIP'' else svc_Type x) \<and>
     (svc_ClusterIP x \<noteq> [] \<longrightarrow> svc_ClusterIP y = svc_ClusterIP x) \<and>
     map port_Port (svc_Ports y) = map port_Port (svc_Ports x)"

definition same_endpoints :: "Endpoints \<Rightarrow> Endpoints \<Rightarrow> bool" where
  "same_endpoints x y \<longleftrightarrow> (\<exists>rv. y = x\<lparr>ep_ResourceVersion := rv\<rparr>)"

definition secret_server :: "'w api \<Rightarrow> ('w \<Rightarrow> client \<times> string \<times> string \<Rightarrow> Secret option) \<Rightarrow> bool" where
  "secret_server A view \<longleftrightarrow>
     store_laws (api_get_secret A) (api_create_secret A) (api_update_secret A)
       secret_key same_secret view"

definition service_server :: "'w api \<Rightarrow> ('w \<Rightarrow> client \<times> string \<times> string \<Rightarrow> Service option) \<Rightarrow> bool" where
  "service_server A view \<longleftrightarrow>
     store_laws (api_get_service A) (api_create_service A) (api_update_service A)
       service_key same_service view"

definition endpoints_server :: "'w api \<Rightarrow> ('w \<Rightarrow> client \<times> string \<times> string \<Rightarrow> Endpoints option) \<Rightarrow> bool" where
  "endpoints_server A view \<longleftrightarrow>
     store_laws (api_get_endpoints A) (api_create_endpoints A) (api_update_endpoints A)
       endpoints_key same_endpoints view"

text \<open>The instance keeps the promise.\<close>

lemma mem_get_law: "get_law (mem_get (\<lambda>w. keyed key (v w))) key (\<lambda>w. keyed key (v w))"
  by (auto simp: get_law_def mem_get_def keyed_def not_found_def timeout_err_def
      split: option.splits if_splits)

lemma keyed_store:
  "key y = key x \<Longrightarrow> keyed key ((keyed key m)((c, key x) \<mapsto> y)) = (keyed key m)((c, key x) \<mapsto> y)"
  by (auto simp: keyed_def fun_eq_iff split: option.splits)

lemma mem_create_law:
  assumes "\<And>m w. v (upd m w) = m" and "\<And>x. same x (complete x)" and "\<And>x. key (complete x) = key x"
  shows "create_law (mem_create (\<lambda>w. keyed key (v w)) upd key complete) key same (\<lambda>w. keyed key (v w))"
proof -
  have "\<exists>y. same x y \<and> m(k \<mapsto> complete x) = m(k \<mapsto> y)" for x k and m :: "client \<times> string \<times> string \<Rightarrow> 'a option"
    using assms(2) by blast
  then show ?thesis
    by (auto simp: create_law_def mem_create_def assms keyed_store split: option.splits)
qed

lemma mem_update_law:
  assumes "\<And>m w. v (upd m w) = m" and "\<And>x. same x (complete x)" and "\<And>x. key (complete x) = key x"
  shows "update_law (mem_update (\<lambda>w. keyed key (v w)) upd key complete) key same (\<lambda>w. keyed key (v w))"
proof -
  have "\<exists>y. same x y \<and> m(k \<mapsto> complete x) = m(k \<mapsto> y)" for x k and m :: "client \<times> string \<times> string \<Rightarrow> 'a option"
    using assms(2) by blast
  then show ?thesis
    by (auto simp: update_law_def mem_update_def assms keyed_store split: option.splits)
qed

lemma same_refl [simp]: "same_secret x x" "same_endpoints z z"
  unfolding same_secret_def same_endpoints_def
  by (metis Secret.surjective Secret.update_convs(3) Endpoints.surjective Endpoints.update_convs(3))+

lemma same_complete [simp]: "same_service x (complete_service x)" "service_key (complete_service x) = service_key x"
  by (simp_all add: same_service_def complete_service_def)

lemma mem_secret_server: "secret_server mem_api view_secrets"
proof -
  have e: "(\<lambda>w. keyed secret_key (mw_secrets w)) = view_secrets"
    by (simp add: view_secrets_def fun_eq_iff)
  show ?thesis
    using mem_get_law [of secret_key mw_secrets]
      mem_create_law [of mw_secrets "\<lambda>v. mw_secrets_update (\<lambda>_. v)" same_secret id secret_key]
      mem_update_law [of mw_secrets "\<lambda>v. mw_secrets_update (\<lambda>_. v)" same_secret id secret_key]
    unfolding e by (simp add: secret_server_def store_laws_def mem_api_def)
qed

lemma mem_service_server: "service_server mem_api view_services"
proof -
  have e: "(\<lambda>w. keyed service_key (mw_services w)) = view_services"
    by (simp add: view_services_def fun_eq_iff)
  show ?thesis
    using mem_get_law [of service_key mw_services]
      mem_create_law [of mw_services "\<lambda>v. mw_services_update (\<lambda>_. v)" same_service complete_service service_key]
      mem_update_law [of mw_services "\<lambda>v. mw_services_update (\<lambda>_. v)" same_service complete_service service_key]
    unfolding e by (simp add: service_server_def store_laws_def mem_api_def)
qed

lemma mem_endpoints_server: "endpoints_server mem_api view_endpoints"
proof -
  have e: "(\<lambda>w. keyed endpoints_key (mw_endpoints w)) = view_endpoints"
    by (simp add: view_endpoints_def fun_eq_iff)
  show ?thesis
    using mem_get_law [of endpoints_key mw_endpoints]
      mem_create_law [of mw_endpoints "\<lambda>v. mw_endpoints_update (\<lambda>_. v)" same_endpoints id endpoints_key]
      mem_update_law [of mw_endpoints "\<lambda>v. mw_endpoints_update (\<lambda>_. v)" same_endpoints id endpoints_key]
    unfolding e by (simp add: endpoints_server_def store_laws_def mem_api_def)
qed

lemma mem_service_delete_law: "delete_law (api_delete_service mem_api) view_services"
proof -
  have "keyed key ((keyed key m)(k := None)) = (keyed key m)(k := None)"
    for key :: "Service \<Rightarrow> string \<times> string" and m k
    by (auto simp: keyed_def fun_eq_iff split: option.splits)
  then show ?thesis
    by (auto simp: delete_law_def mem_api_def mem_delete_def view_services_def split: option.splits)
qed

section \<open>A sample resource\<close>

text \<open>Two workload clusters, the first one primary; their kubeconfig Secrets name the servers 1 and 2.\<close>

definition sample_eu :: ClusterTarget where
  "sample_eu = \<lparr>ct_Name = ''eu'', ct_ClusterRef = ''kc-eu'', ct_SecretNamespace = [], ct_Namespace = ''pg'',
     ct_Role = ClusterRolePrimary, ct_ExternalHost = [], ct_ExternalPort = 0\<rparr>"

definition sample_us :: ClusterTarget where
  "sample_us = \<lparr>ct_Name = ''us'', ct_ClusterRef = ''kc-us'', ct_SecretNamespace = [], ct_Namespace = ''pg'',
     ct_Role = ClusterRoleStandby, ct_ExternalHost = [], ct_ExternalPort = 0\<rparr>"

definition sample_raw :: string where
  "sample_raw = ''{'' @ fmt_q ''numberOfInstances'' @ '':2}''"

lemma sample_raw_decodes [simp]:
  "json_unmarshal_map sample_raw = Inr (Some [(''numberOfInstances'', JNumber ''2'')])"
  "json_unmarshal_map ''null'' = Inr None" "sample_raw \<noteq> []"
  by (simp_all add: sample_raw_def json_eval)

definition sample_mc :: PostgresMC where
  "sample_mc = \<lparr>mc_Name = ''db'', mc_Namespace = ''sys'', mc_Generation = 1, mc_DeletionTimestamp = None,
     mc_Finalizers = [''pgmc.aurelops.com/finalizer''],
     mc_Spec = \<lparr>sp_TeamID = ''app'', sp_Clusters = [sample_eu, sample_us],
       sp_PostgresqlSpec = sample_raw, sp_Replication = \<lparr>rs_Mode = ''async''\<rparr>,
       sp_ReplicationService = \<lparr>rsc_Type = ServiceTypeNodePort, rsc_NodePort = 32432\<rparr>,
       sp_AutoFailover = \<lparr>af_Enabled = False, af_PrimaryUnreachableThreshold = 3\<rparr>\<rparr>,
     mc_Status = \<lparr>st_Phase = [], st_ObservedGeneration = 0, st_CurrentPrimary = [], st_Conditions = [],
       st_Clusters = [], st_PrimaryFailureCount = 0\<rparr>\<rparr>"

definition kubeconfig_secret :: "string \<Rightarrow> string \<Rightarrow> Secret" where
  "kubeconfig_secret name server = \<lparr>sec_Name = name, sec_Namespace = ''sys'', sec_ResourceVersion = ''1'',
     sec_Labels = [], sec_Type = ''Opaque'', sec_Data = [(''kubeconfig'', server)]\<rparr>"

definition sample_world :: mem_world where
  "sample_world = empty_world\<lparr>
     mw_tech_secrets := (\<lambda>k. if k = (''sys'', ''kc-eu'') then Some (kubeconfig_secret ''kc-eu'' ''1'')
                            else if k = (''sys'', ''kc-us'') then Some (kubeconfig_secret ''kc-us'' ''2'')
                            else None)\<rparr>"

lemmas sample_defs = sample_eu_def sample_us_def sample_mc_def kubeconfig_secret_def sample_world_def

end
