(* ===== verification/Zalando.thy ===== *)
theory Zalando
  imports Status Mem_Api
begin

text \<open>
  The package \<open>internal/zalando\<close>: the postgresql object built from the user's JSON blob for a
  primary (without a standby section) or for a standby (with one). The contract that the
  reconciler and the failover orchestrator rely on is the locale \<open>zalando_builder\<close>.
\<close>

section \<open>Building\<close>

definition ClusterName :: "string \<Rightarrow> string \<Rightarrow> string" where
  "ClusterName teamID targetName = teamID @ ''-'' @ targetName"

text \<open>
  A blob that is the JSON literal \<open>null\<close> decodes to the nil map, and the assignment of the key
  \<open>teamId\<close> to a nil map panics.
\<close>

definition zalandoAPIVersion :: string where [simp]: "zalandoAPIVersion = ''acid.zalan.do/v1''"
definition zalandoKind :: string where [simp]: "zalandoKind = ''postgresql''"

definition buildPostgresql ::
  "PostgresMC \<Rightarrow> ClusterTarget \<Rightarrow> json dict option \<Rightarrow> unstructured outcome" where
  "buildPostgresql mc target standby =
     (let raw = sp_PostgresqlSpec (mc_Spec mc);
          teamID = sp_TeamID (mc_Spec mc)
      in case (if 0 < length raw then json_unmarshal_map raw else Inr (Some [])) of
           Inl e \<Rightarrow> Error (errorf_wrap ''parsing postgresqlSpec'' e)
         | Inr None \<Rightarrow> Panics
         | Inr (Some parsed) \<Rightarrow>
             let withTeam = dict_put ''teamId'' (JString teamID) parsed;
                 specMap = (case standby of
                              Some sb \<Rightarrow> dict_put ''standby'' (JObject sb) withTeam
                            | None \<Rightarrow> dict_delete ''standby'' withTeam)
             in Ok [(''apiVersion'', JString zalandoAPIVersion),
                    (''kind'', JString zalandoKind),
                    (''metadata'', JObject
                       [(''name'', JString (ClusterName teamID (ct_Name target))),
                        (''namespace'', JString (ct_Namespace target)),
                        (''labels'', JObject
                           [(''pgmc.aurelops.com/managed-by'', JString ''postgres-mc-operator''),
                            (''pgmc.aurelops.com/postgresmc'', JString (mc_Name mc)),
                            (''pgmc.aurelops.com/cluster'', JString (ct_Name target))])]),
                    (''spec'', JObject specMap)])"

definition BuildPrimary :: "PostgresMC \<Rightarrow> ClusterTarget \<Rightarrow> unstructured outcome" where
  "BuildPrimary mc target = buildPostgresql mc target None"

definition BuildStandby ::
  "PostgresMC \<Rightarrow> ClusterTarget \<Rightarrow> string \<Rightarrow> int32 \<Rightarrow> unstructured outcome" where
  "BuildStandby mc target primaryHost primaryPort =
     buildPostgresql mc target
       (Some [(''standby_host'', JString primaryHost), (''standby_port'', JString (fmt_d primaryPort))])"

section \<open>Reading an object\<close>

definition obj_spec :: "unstructured \<Rightarrow> json dict" where
  "obj_spec obj = json_fields (dict_get obj ''spec'')"

definition obj_standby :: "unstructured \<Rightarrow> json option" where
  "obj_standby obj = dict_get (obj_spec obj) ''standby''"

text \<open>The object's identity on the API server: its namespace and its name.\<close>

definition obj_key :: "unstructured \<Rightarrow> json option \<times> json option" where
  "obj_key obj = (let m = json_fields (dict_get obj ''metadata'')
                  in (dict_get m ''namespace'', dict_get m ''name''))"

definition standby_section :: "string \<Rightarrow> int32 \<Rightarrow> json" where
  "standby_section host port =
     JObject [(''standby_host'', JString host), (''standby_port'', JString (fmt_d port))]"

section \<open>The builder's contract\<close>

locale zalando_builder =
  fixes build_primary :: "PostgresMC \<Rightarrow> ClusterTarget \<Rightarrow> unstructured outcome"
    and build_standby :: "PostgresMC \<Rightarrow> ClusterTarget \<Rightarrow> string \<Rightarrow> int32 \<Rightarrow> unstructured outcome"
  assumes primary_no_standby: "build_primary mc t = Ok obj \<Longrightarrow> obj_standby obj = None"
    and standby_points: "build_standby mc t h p = Ok obj \<Longrightarrow> obj_standby obj = Some (standby_section h p)"
    and primary_key: "build_primary mc t = Ok obj \<Longrightarrow>
      obj_key obj = (Some (JString (ct_Namespace t)), Some (JString (ClusterName (sp_TeamID (mc_Spec mc)) (ct_Name t))))"
    and standby_key: "build_standby mc t h p = Ok obj \<Longrightarrow>
      obj_key obj = (Some (JString (ct_Namespace t)), Some (JString (ClusterName (sp_TeamID (mc_Spec mc)) (ct_Name t))))"
    and same_verdict: "(\<exists>obj. build_primary mc t = Ok obj) \<longleftrightarrow> (\<exists>obj. build_standby mc t' h p = Ok obj)"
begin

text \<open>No object is both a primary and a standby, and a standby object names its upstream.\<close>

lemma never_both: "build_primary mc t = Ok obj \<Longrightarrow> build_standby mc' t' h p \<noteq> Ok obj"
  using primary_no_standby standby_points by fastforce

lemma standby_upstream_unique:
  "build_standby mc t h p = Ok obj \<Longrightarrow> build_standby mc' t' h' p' = Ok obj \<Longrightarrow> h = h' \<and> fmt_d p = fmt_d p'"
  by (drule standby_points)+ (simp add: standby_section_def)

text \<open>
  Promotion and demotion write the same object of a cluster, and whether the user's blob can be
  built does not depend on the target: if one cluster can be built, all can, in both roles.
\<close>

lemma same_object: "build_primary mc t = Ok obj \<Longrightarrow> build_standby mc t h p = Ok obj' \<Longrightarrow> obj_key obj = obj_key obj'"
  by (simp add: primary_key standby_key)

lemma buildable_everywhere:
  assumes "build_standby mc t h p = Ok obj"
  shows "(\<exists>obj. build_primary mc t' = Ok obj) \<and> (\<exists>obj. build_standby mc t'' h' p' = Ok obj)"
  using assms same_verdict by metis

end

lemma buildPostgresql_Ok_cases:
  assumes "buildPostgresql mc target standby = Ok obj"
  obtains parsed where
    "(if 0 < length (sp_PostgresqlSpec (mc_Spec mc)) then json_unmarshal_map (sp_PostgresqlSpec (mc_Spec mc))
      else Inr (Some [])) = Inr (Some parsed)"
    "obj_spec obj = (case standby of
       Some sb \<Rightarrow> dict_put ''standby'' (JObject sb) (dict_put ''teamId'' (JString (sp_TeamID (mc_Spec mc))) parsed)
     | None \<Rightarrow> dict_delete ''standby'' (dict_put ''teamId'' (JString (sp_TeamID (mc_Spec mc))) parsed))"
    "obj_key obj = (Some (JString (ct_Namespace target)),
                    Some (JString (ClusterName (sp_TeamID (mc_Spec mc)) (ct_Name target))))"
  using assms
  by (auto simp: buildPostgresql_def Let_def obj_spec_def obj_key_def split: sum.splits option.splits)

interpretation zalando: zalando_builder BuildPrimary BuildStandby
proof unfold_locales
  fix mc t obj assume "BuildPrimary mc t = Ok obj"
  then show "obj_standby obj = None"
    and "obj_key obj = (Some (JString (ct_Namespace t)), Some (JString (ClusterName (sp_TeamID (mc_Spec mc)) (ct_Name t))))"
    by (auto simp: BuildPrimary_def obj_standby_def elim!: buildPostgresql_Ok_cases)
next
  fix mc t h p obj assume "BuildStandby mc t h p = Ok obj"
  then show "obj_standby obj = Some (standby_section h p)"
    and "obj_key obj = (Some (JString (ct_Namespace t)), Some (JString (ClusterName (sp_TeamID (mc_Spec mc)) (ct_Name t))))"
    by (auto simp: BuildStandby_def obj_standby_def standby_section_def elim!: buildPostgresql_Ok_cases)
next
  fix mc t t' h p
  show "(\<exists>obj. BuildPrimary mc t = Ok obj) \<longleftrightarrow> (\<exists>obj. BuildStandby mc t' h p = Ok obj)"
    by (auto simp: BuildPrimary_def BuildStandby_def buildPostgresql_def Let_def split: sum.splits option.splits)
qed

section \<open>Properties\<close>

text \<open>
  Both builders keep every field of the user's spec except \<open>teamId\<close>, which is overwritten
  with the spec's team, and \<open>standby\<close>, which a primary never has (even if the blob brings one)
  and which a standby always has, pointing at the given host and port.
\<close>

theorem builder_spec_merge:
  assumes "json_unmarshal_map (sp_PostgresqlSpec (mc_Spec mc)) = Inr (Some parsed)"
    and "sp_PostgresqlSpec (mc_Spec mc) \<noteq> []"
  shows "\<exists>prim stby. BuildPrimary mc t = Ok prim \<and> BuildStandby mc t h p = Ok stby \<and>
    dict_get (obj_spec prim) =
      (dict_get parsed)(''teamId'' \<mapsto> JString (sp_TeamID (mc_Spec mc)), ''standby'' := None) \<and>
    dict_get (obj_spec stby) =
      (dict_get parsed)(''teamId'' \<mapsto> JString (sp_TeamID (mc_Spec mc)), ''standby'' \<mapsto> standby_section h p)"
  using assms
  by (auto simp: BuildPrimary_def BuildStandby_def buildPostgresql_def Let_def obj_spec_def
      standby_section_def fun_eq_iff)

lemma builder_spec_merge_witness:
  "\<exists>prim stby. BuildPrimary sample_mc sample_us = Ok prim \<and>
     BuildStandby sample_mc sample_us ''h'' 5432 = Ok stby \<and>
     dict_get (obj_spec prim) ''standby'' = None \<and>
     dict_get (obj_spec stby) ''numberOfInstances'' = Some (JNumber ''2'')"
proof -
  have "json_unmarshal_map (sp_PostgresqlSpec (mc_Spec sample_mc)) =
      Inr (Some [(''numberOfInstances'', JNumber ''2'')])"
    and "sp_PostgresqlSpec (mc_Spec sample_mc) \<noteq> []"
    by (simp_all add: sample_mc_def)
  from builder_spec_merge [OF this, of sample_us "''h''" 5432] show ?thesis by auto
qed



text \<open>
  A blob that decodes to the nil map (the JSON literal \<open>null\<close>) makes both builders panic
  instead of returning an error.
\<close>

theorem builder_null_spec_panics:
  assumes "json_unmarshal_map (sp_PostgresqlSpec (mc_Spec mc)) = Inr None"
    and "sp_PostgresqlSpec (mc_Spec mc) \<noteq> []"
  shows "BuildPrimary mc t = Panics \<and> BuildStandby mc t h p = Panics"
  using assms by (simp add: BuildPrimary_def BuildStandby_def buildPostgresql_def Let_def)

definition null_spec_mc :: PostgresMC where
  "null_spec_mc = sample_mc\<lparr>mc_Spec := (mc_Spec sample_mc)\<lparr>sp_PostgresqlSpec := ''null''\<rparr>\<rparr>"

lemma builder_null_spec_panics_witness: "BuildPrimary null_spec_mc sample_eu = Panics"
proof -
  have "json_unmarshal_map (sp_PostgresqlSpec (mc_Spec null_spec_mc)) = Inr None"
    and "sp_PostgresqlSpec (mc_Spec null_spec_mc) \<noteq> []"
    by (simp_all add: null_spec_mc_def)
  from builder_null_spec_panics [OF this] show ?thesis by simp
qed

end
