(* ===== verification/Registry.thy ===== *)
theory Registry
  imports Zalando
begin

text \<open>
  The package \<open>internal/clusters\<close>: clients of workload clusters, built from kubeconfig Secrets
  of the technical cluster and cached under \<open>ns/name@resourceVersion\<close>. The cache lives in the
  operator's state; \<open>GetClient\<close> and \<open>Invalidate\<close> are its only users.
\<close>

section \<open>The cache\<close>

definition cache_key :: "string \<Rightarrow> string \<Rightarrow> string \<Rightarrow> string" where
  "cache_key ns name rv = ns @ ''/'' @ name @ ''@'' @ rv"

definition cache_hit :: "time \<Rightarrow> time \<Rightarrow> string \<Rightarrow> (string \<rightharpoonup> cached_entry) \<Rightarrow> client option" where
  "cache_hit ttl t key m =
     (case m key of
        None \<Rightarrow> None
      | Some entry \<Rightarrow> if t - ce_builtAt entry < ttl then Some (ce_client entry) else None)"

definition cache_store :: "string \<Rightarrow> client \<Rightarrow> time \<Rightarrow> (string \<rightharpoonup> cached_entry) \<Rightarrow> (string \<rightharpoonup> cached_entry)" where
  "cache_store key c t m = m(key \<mapsto> \<lparr>ce_client = c, ce_builtAt = t\<rparr>)"

definition cache_drop :: "(string \<Rightarrow> bool) \<Rightarrow> (string \<rightharpoonup> cached_entry) \<Rightarrow> (string \<rightharpoonup> cached_entry)" where
  "cache_drop P m = (\<lambda>k. if P k then None else m k)"

section \<open>Operations\<close>

definition GetClient :: "'w api \<Rightarrow> time \<Rightarrow> ClusterTarget \<Rightarrow> string \<Rightarrow> ('w, err + client) op" where
  "GetClient A ttl target mcNamespace =
     (let secretNS = (if ct_SecretNamespace target = [] then mcNamespace else ct_SecretNamespace target);
          ref = ct_ClusterRef target;
          path = secretNS @ ''/'' @ ref
      in do {
        r \<leftarrow> tech_call (TechGetSecret secretNS ref) (tech_get_secret A secretNS ref);
        case r of
          Inl e \<Rightarrow> ret (Inl (errorf_wrap (''getting kubeconfig secret '' @ path) e))
        | Inr secret \<Rightarrow> do {
            let key = cache_key secretNS ref (sec_ResourceVersion secret);
            cache \<leftarrow> cache_read;
            hit \<leftarrow> (case cache key of
                      None \<Rightarrow> ret None
                    | Some entry \<Rightarrow> do {
                        t \<leftarrow> clock_now A;
                        ret (cache_hit ttl t key cache)
                      });
            case hit of
              Some c \<Rightarrow> ret (Inr c)
            | None \<Rightarrow>
                (case dict_get (sec_Data secret) ''kubeconfig'' of
                   None \<Rightarrow> ret (Inl (errorf (''secret '' @ path @ '' missing key 'kubeconfig'')))
                 | Some kubeconfigData \<Rightarrow>
                     (case rest_config_from_kubeconfig A kubeconfigData of
                        Inl e \<Rightarrow> ret (Inl (errorf_wrap (''parsing kubeconfig from secret '' @ path) e))
                      | Inr cfg \<Rightarrow> do {
                          rc \<leftarrow> world_step (new_client A cfg);
                          case rc of
                            Inl e \<Rightarrow> ret (Inl (errorf_wrap (''building client for cluster '' @ ct_Name target) e))
                          | Inr c \<Rightarrow> do {
                              t \<leftarrow> clock_now A;
                              _ \<leftarrow> cache_modify (cache_store key c t);
                              ret (Inr c)
                            }
                        }))
          }
      })"

definition Invalidate :: "string \<Rightarrow> string \<Rightarrow> ('w, unit) op" where
  "Invalidate ns name = cache_modify (cache_drop (has_prefix (ns @ ''/'' @ name @ ''@'')))"

section \<open>The contract of the cache\<close>

text \<open>
  What \<open>GetClient\<close> needs of a cache with a time to live: a stored client is found until it is
  \<open>ttl\<close> old, other keys are not touched, and dropped keys are not found.
\<close>

locale client_cache =
  fixes hit :: "time \<Rightarrow> 'k \<Rightarrow> 'm \<Rightarrow> client option"
    and store :: "'k \<Rightarrow> client \<Rightarrow> time \<Rightarrow> 'm \<Rightarrow> 'm"
    and drop :: "('k \<Rightarrow> bool) \<Rightarrow> 'm \<Rightarrow> 'm"
    and ttl :: time
  assumes hit_store: "hit t k (store k' c b m) =
      (if k = k' then (if t - b < ttl then Some c else None) else hit t k m)"
    and hit_drop: "hit t k (drop P m) = (if P k then None else hit t k m)"
begin

lemma hit_fresh [simp]: "t - b < ttl \<Longrightarrow> hit t k (store k c b m) = Some c"
  by (simp add: hit_store)

lemma hit_expired [simp]: "ttl \<le> t - b \<Longrightarrow> hit t k (store k c b m) = None"
  by (simp add: hit_store)

lemma drop_all_misses: "hit t k (drop (\<lambda>_. True) m) = None"
  by (simp add: hit_drop)

lemma store_after_drop: "P k \<Longrightarrow> hit t k (store k c b (drop P m)) = hit t k (store k c b m)"
  by (simp add: hit_store)

lemma hit_after_others:
  "k \<notin> fst ` set kcs \<Longrightarrow> hit t k (fold (\<lambda>(k', c). store k' c b) kcs m) = hit t k m"
  by (induction kcs arbitrary: m) (auto simp: hit_store)

end

interpretation registry_cache: client_cache "cache_hit ttl" cache_store cache_drop ttl for ttl
  by unfold_locales (auto simp: cache_hit_def cache_store_def cache_drop_def)

section \<open>Lemmas\<close>

lemma GetClient_emits:
  "emits (GetClient A ttl target ns) (\<lambda>r es. \<exists>e.
     es = [TechCall (TechGetSecret (if ct_SecretNamespace target = [] then ns else ct_SecretNamespace target)
                                   (ct_ClusterRef target)) e] \<and>
     (e \<noteq> None \<longrightarrow> (\<exists>e'. r = Inl e')))"
  unfolding GetClient_def Let_def by (intro emits_intro) auto

text \<open>The read of a kubeconfig Secret on the technical cluster, the only call of \<open>GetClient\<close>.\<close>

fun kubeconfig_read :: "event \<Rightarrow> bool" where
  "kubeconfig_read (TechCall (TechGetSecret ns n) res) = True"
| "kubeconfig_read _ = False"

lemma kubeconfig_read_iff: "kubeconfig_read e \<longleftrightarrow> (\<exists>ns n res. e = TechCall (TechGetSecret ns n) res)"
  by (cases e rule: kubeconfig_read.cases) auto

lemma kubeconfig_read_client: "kubeconfig_read e \<Longrightarrow> ev_client e = None"
  by (auto simp: kubeconfig_read_iff)

lemma GetClient_no_workload [emits_intro]:
  assumes "\<And>r es. \<forall>e \<in> set es. ev_client e = None \<Longrightarrow> Q r es"
  shows "emits (GetClient A ttl target ns) Q"
  by (rule emits_mono [OF GetClient_emits]) (auto intro: assms)

lemma cache_key_prefix:
  assumes "CHR ''/'' \<notin> set ns" "CHR ''/'' \<notin> set ns'" "CHR ''@'' \<notin> set n" "CHR ''@'' \<notin> set n'"
  shows "has_prefix (ns @ ''/'' @ n @ ''@'') (cache_key ns' n' rv) \<longleftrightarrow> ns = ns' \<and> n = n'"
  using assms by (auto simp: has_prefix_iff cache_key_def split_at_sep eq_commute)

text \<open>The Secret that holds the kubeconfig of a target.\<close>

definition secret_namespace :: "ClusterTarget \<Rightarrow> string \<Rightarrow> string" where
  "secret_namespace target ns = (if ct_SecretNamespace target = [] then ns else ct_SecretNamespace target)"

abbreviation target_key :: "ClusterTarget \<Rightarrow> string \<Rightarrow> Secret \<Rightarrow> string" where
  "target_key target ns secret \<equiv>
     cache_key (secret_namespace target ns) (ct_ClusterRef target) (sec_ResourceVersion secret)"

lemma GetClient_hit:
  assumes "tech_get_secret A (secret_namespace target ns) (ct_ClusterRef target) (op_world s) = (Inr secret, w1)"
    and "op_cache s (target_key target ns secret) = Some entry"
    and "time_now A w1 = (t, w2)" and "t - ce_builtAt entry < ttl"
  shows "run_state (GetClient A ttl target ns) s =
    (Inr (ce_client entry), s\<lparr>op_world := w2, op_trace := op_trace s @
       [TechCall (TechGetSecret (secret_namespace target ns) (ct_ClusterRef target)) None]\<rparr>)"
  using assms by (simp add: GetClient_def Let_def primitive_defs secret_namespace_def cache_hit_def)

lemma GetClient_success_cached:
  assumes "tech_get_secret A (secret_namespace target ns) (ct_ClusterRef target) (op_world s) = (Inr secret, w1)"
    and "run_state (GetClient A ttl target ns) s = (Inr c, s1)"
  shows "\<exists>b. op_cache s1 (target_key target ns secret) = Some \<lparr>ce_client = c, ce_builtAt = b\<rparr>"
proof -
  have "\<exists>e. op_cache s1 (target_key target ns secret) = Some e \<and> ce_client e = c"
    using assms
    by (auto simp: GetClient_def Let_def primitive_defs secret_namespace_def cache_hit_def cache_store_def
        split: option.splits sum.splits prod.splits if_splits)
  then show ?thesis by (metis cached_entry.surjective old.unit.exhaust)
qed

section \<open>Properties\<close>

text \<open>
  Reuse: after \<open>GetClient\<close> has returned a client, a second call that reads the same version
  of the kubeconfig Secret before the entry is older than the time to live returns the same
  client, builds none and leaves the cache as it is.
\<close>

theorem GetClient_reuses_client:
  assumes "tech_get_secret A (secret_namespace target ns) (ct_ClusterRef target) (op_world s) = (Inr secret, w1)"
    and "run_state (GetClient A ttl target ns) s = (Inr c, s1)"
    and "tech_get_secret A (secret_namespace target ns) (ct_ClusterRef target) (op_world s1) = (Inr secret', w2)"
    and "sec_ResourceVersion secret' = sec_ResourceVersion secret"
    and "time_now A w2 = (t, w3)"
    and "t - ce_builtAt (the (op_cache s1 (target_key target ns secret))) < ttl"
  shows "run_state (GetClient A ttl target ns) s1 =
    (Inr c, s1\<lparr>op_world := w3, op_trace := op_trace s1 @
       [TechCall (TechGetSecret (secret_namespace target ns) (ct_ClusterRef target)) None]\<rparr>)"
proof -
  from GetClient_success_cached [OF assms(1,2)] obtain b where
    "op_cache s1 (target_key target ns secret') = Some \<lparr>ce_client = c, ce_builtAt = b\<rparr>"
    using assms(4) by auto
  from GetClient_hit [OF assms(3) this assms(5)] assms(4,6) this show ?thesis by simp
qed

lemma GetClient_reuses_client_witness:
  "fst (run_state (GetClient mem_api 1000 sample_us ''sys'')
     (snd (run_state (GetClient mem_api 1000 sample_us ''sys'') (mem_state sample_world)))) = Inr 2"
proof -
  define s1 where "s1 = snd (run_state (GetClient mem_api 1000 sample_us ''sys'') (mem_state sample_world))"
  have s1: "run_state (GetClient mem_api 1000 sample_us ''sys'') (mem_state sample_world) = (Inr 2, s1)"
    "op_world s1 = sample_world\<lparr>mw_clock := 101\<rparr>"
    "op_cache s1 (cache_key ''sys'' ''kc-us'' ''1'') = Some \<lparr>ce_client = 2, ce_builtAt = 100\<rparr>"
    by (simp_all add: s1_def GetClient_def Let_def primitive_defs mem_defs sample_defs atoi_def
        is_digit_def read_nat_def digit_val_def cache_store_def)
  note tech = mem_api_def mem_tech_get_def sample_defs empty_world_def secret_namespace_def
  have "run_state (GetClient mem_api 1000 sample_us ''sys'') s1 =
      (Inr 2, s1\<lparr>op_world := sample_world\<lparr>mw_clock := 102\<rparr>, op_trace := op_trace s1 @
         [TechCall (TechGetSecret (secret_namespace sample_us ''sys'') (ct_ClusterRef sample_us)) None]\<rparr>)"
    by (rule GetClient_reuses_client [OF _ s1(1), of "kubeconfig_secret ''kc-us'' ''2''" sample_world
          "kubeconfig_secret ''kc-us'' ''2''" "sample_world\<lparr>mw_clock := 101\<rparr>" 101])
       (simp_all add: mem_state_def s1(2) tech, simp add: s1(3) [simplified cache_key_def, simplified] cache_key_def)
  then show ?thesis by (simp add: s1_def [symmetric])
qed

text \<open>
  Rotation: when the version of the kubeconfig Secret is not in the cache, the client is
  built from the kubeconfig just read, whatever other versions the cache holds, and is cached
  under that version only.
\<close>

theorem GetClient_rotation:
  assumes "tech_get_secret A (secret_namespace target ns) (ct_ClusterRef target) (op_world s) = (Inr secret, w1)"
    and "op_cache s (target_key target ns secret) = None"
    and "dict_get (sec_Data secret) ''kubeconfig'' = Some kubeconfig"
    and "rest_config_from_kubeconfig A kubeconfig = Inr cfg"
    and "new_client A cfg w1 = (Inr c, w2)" and "time_now A w2 = (t, w3)"
  shows "fst (run_state (GetClient A ttl target ns) s) = Inr c \<and>
    op_cache (snd (run_state (GetClient A ttl target ns) s)) =
      (op_cache s)(target_key target ns secret \<mapsto> \<lparr>ce_client = c, ce_builtAt = t\<rparr>)"
  using assms
  by (simp add: GetClient_def Let_def primitive_defs secret_namespace_def cache_store_def)

lemma GetClient_rotation_witness:
  "fst (run_state (GetClient mem_api 1000 sample_us ''sys'') (mem_state sample_world)) = Inr 2"
proof -
  have "fst (run_state (GetClient mem_api 1000 sample_us ''sys'') (mem_state sample_world)) = Inr 2 \<and>
    op_cache (snd (run_state (GetClient mem_api 1000 sample_us ''sys'') (mem_state sample_world))) =
      (op_cache (mem_state sample_world))(target_key sample_us ''sys'' (kubeconfig_secret ''kc-us'' ''2'') \<mapsto>
         \<lparr>ce_client = 2, ce_builtAt = 100\<rparr>)"
    by (rule GetClient_rotation [where kubeconfig = "''2''" and cfg = "''2''" and ?w1.0 = sample_world
          and ?w2.0 = sample_world and ?w3.0 = "sample_world\<lparr>mw_clock := 101\<rparr>"])
       (simp_all add: mem_defs sample_defs secret_namespace_def atoi_def is_digit_def read_nat_def digit_val_def)
  then show ?thesis ..
qed

text \<open>
  \<open>Invalidate\<close> drops exactly the entries of the given Secret, in all its versions: with
  Kubernetes names (no \<open>/\<close> and no \<open>@\<close>) a lookup for any other Secret is unaffected.
\<close>

theorem Invalidate_exact:
  assumes "CHR ''/'' \<notin> set ns" "CHR ''/'' \<notin> set ns'" "CHR ''@'' \<notin> set n" "CHR ''@'' \<notin> set n'"
  shows "cache_hit ttl t (cache_key ns' n' rv) (op_cache (snd (run_state (Invalidate ns n) s))) =
    (if ns' = ns \<and> n' = n then None else cache_hit ttl t (cache_key ns' n' rv) (op_cache s))"
  using cache_key_prefix [OF assms]
  by (auto simp: Invalidate_def cache_modify_def registry_cache.hit_drop)

lemma Invalidate_exact_witness:
  "cache_hit 10 5 (cache_key ''sys'' ''kc-us'' ''1'')
     (op_cache (snd (run_state (Invalidate ''sys'' ''kc-eu'')
       ((mem_state sample_world)\<lparr>op_cache := [cache_key ''sys'' ''kc-us'' ''1'' \<mapsto> \<lparr>ce_client = 2, ce_builtAt = 0\<rparr>]\<rparr>)))) =
   Some 2"
proof -
  have "CHR ''/'' \<notin> set ''sys''" "CHR ''@'' \<notin> set ''kc-eu''" "CHR ''@'' \<notin> set ''kc-us''" by simp_all
  from Invalidate_exact [OF this(1) this(1) this(2,3), of 10 5 "''1''"
      "(mem_state sample_world)\<lparr>op_cache := [cache_key ''sys'' ''kc-us'' ''1'' \<mapsto> \<lparr>ce_client = 2, ce_builtAt = 0\<rparr>]\<rparr>"]
  show ?thesis by (simp add: cache_hit_def)
qed

end
