(* ===== verification/Credentials.thy ===== *)
theory Credentials
  imports Registry
begin

text \<open>
  The package \<open>internal/credentials\<close>: the Zalando credential Secrets are read from the primary
  cluster and upserted on every standby under the standby's own cluster name.
\<close>

section \<open>Names\<close>

definition SecretName :: "string \<Rightarrow> string \<Rightarrow> string" where
  "SecretName role clusterName = role @ ''.'' @ clusterName @ ''.credentials.postgresql.acid.zalan.do''"

definition CredentialRoles :: "string list" where
  "CredentialRoles = [''postgres'', ''standby'']"

section \<open>Plans and results\<close>

record StandbyTarget =
  stb_ClusterName :: string
  stb_Client :: client
  stb_Namespace :: string

record SyncPlan =
  pl_PostgresMCName :: string
  pl_ClusterName :: string
  pl_PrimaryClient :: client
  pl_PrimaryNS :: string
  pl_Standbys :: "StandbyTarget list"

record SyncResult =
  sr_PerCluster :: "err option dict"

definition HasErrors :: "SyncResult \<Rightarrow> bool" where
  "HasErrors r \<longleftrightarrow> list_ex (\<lambda>(name, e). e \<noteq> None) (sr_PerCluster r)"

section \<open>Operations\<close>

primrec fetchCredentials_loop ::
  "'w api \<Rightarrow> client \<Rightarrow> string \<Rightarrow> string \<Rightarrow> string list \<Rightarrow> Secret list \<Rightarrow> ('w, err + Secret list) op" where
  "fetchCredentials_loop A c ns clusterName [] out = ret (Inr out)"
| "fetchCredentials_loop A c ns clusterName (role # roles) out =
     (let name = SecretName role clusterName
      in do {
        r \<leftarrow> workload_call c (GetSecret ns name) (api_get_secret A c ns name);
        case r of
          Inl e \<Rightarrow>
            if IsNotFound e then fetchCredentials_loop A c ns clusterName roles out
            else ret (Inl (errorf_wrap (''getting secret '' @ ns @ ''/'' @ name) e))
        | Inr secret \<Rightarrow> fetchCredentials_loop A c ns clusterName roles (out @ [secret])
      })"

definition fetchCredentials :: "'w api \<Rightarrow> client \<Rightarrow> string \<Rightarrow> string \<Rightarrow> ('w, err + Secret list) op" where
  "fetchCredentials A c ns clusterName = fetchCredentials_loop A c ns clusterName CredentialRoles []"

primrec rewriteClusterName_loop :: "string \<Rightarrow> string \<Rightarrow> string list \<Rightarrow> string" where
  "rewriteClusterName_loop secretName newClusterName [] = secretName"
| "rewriteClusterName_loop secretName newClusterName (role # roles) =
     (let suffix = ''.credentials.postgresql.acid.zalan.do''; prefix = role @ ''.''
      in if length prefix < length secretName \<and> take (length prefix) secretName = prefix
         then prefix @ newClusterName @ suffix
         else rewriteClusterName_loop secretName newClusterName roles)"

definition rewriteClusterName :: "string \<Rightarrow> string \<Rightarrow> string" where
  "rewriteClusterName secretName newClusterName =
     rewriteClusterName_loop secretName newClusterName CredentialRoles"

definition buildTargetSecret :: "Secret \<Rightarrow> string \<Rightarrow> string \<Rightarrow> string \<Rightarrow> string \<Rightarrow> Secret" where
  "buildTargetSecret src name namespace pgmcName clusterName =
     \<lparr>sec_Name = name, sec_Namespace = namespace, sec_ResourceVersion = [],
      sec_Labels = [(''application'', ''spilo''), (''cluster-name'', clusterName),
                    (''pgmc.aurelops.com/managed'', ''true''), (''pgmc.aurelops.com/postgresmc'', pgmcName)],
      sec_Type = ''Opaque'', sec_Data = sec_Data src\<rparr>"

definition secretDataEqual :: "string dict \<Rightarrow> string dict \<Rightarrow> bool" where
  "secretDataEqual a b =
     (if length a \<noteq> length b then False
      else list_all (\<lambda>(k, va). case dict_get b k of None \<Rightarrow> False | Some vb \<Rightarrow> va = vb) a)"

definition applySecret :: "'w api \<Rightarrow> client \<Rightarrow> Secret \<Rightarrow> ('w, err option) op" where
  "applySecret A c secret = do {
     r \<leftarrow> workload_call c (GetSecret (sec_Namespace secret) (sec_Name secret))
            (api_get_secret A c (sec_Namespace secret) (sec_Name secret));
     case r of
       Inl e \<Rightarrow>
         if IsNotFound e then do {
           w \<leftarrow> workload_call c (CreateSecret secret) (api_create_secret A c secret);
           ret (err_of w)
         }
         else ret (Some e)
     | Inr existing \<Rightarrow>
         if secretDataEqual (sec_Data existing) (sec_Data secret) then ret None
         else (let updated = existing\<lparr>sec_Data := sec_Data secret, sec_Labels := sec_Labels secret\<rparr>
               in do {
                 w \<leftarrow> workload_call c (UpdateSecret updated) (api_update_secret A c updated);
                 ret (err_of w)
               })
   }"

primrec syncToStandby ::
  "'w api \<Rightarrow> Secret list \<Rightarrow> string \<Rightarrow> StandbyTarget \<Rightarrow> ('w, err option) op" where
  "syncToStandby A [] pgmcName standby = ret None"
| "syncToStandby A (src # sources) pgmcName standby =
     (let targetName = rewriteClusterName (sec_Name src) (stb_ClusterName standby);
          target = buildTargetSecret src targetName (stb_Namespace standby) pgmcName (stb_ClusterName standby)
      in do {
        r \<leftarrow> applySecret A (stb_Client standby) target;
        case r of
          None \<Rightarrow> syncToStandby A sources pgmcName standby
        | Some e \<Rightarrow> ret (Some (errorf_wrap (''applying secret '' @ stb_Namespace standby @ ''/'' @ targetName @
                                 '' on standby '' @ stb_ClusterName standby) e))
      })"

primrec SyncFromPrimary_loop ::
  "'w api \<Rightarrow> Secret list \<Rightarrow> string \<Rightarrow> StandbyTarget list \<Rightarrow> SyncResult \<Rightarrow> ('w, SyncResult) op" where
  "SyncFromPrimary_loop A secrets pgmcName [] result = ret result"
| "SyncFromPrimary_loop A secrets pgmcName (standby # standbys) result = do {
     e \<leftarrow> syncToStandby A secrets pgmcName standby;
     SyncFromPrimary_loop A secrets pgmcName standbys
       (result\<lparr>sr_PerCluster := dict_put (stb_ClusterName standby) e (sr_PerCluster result)\<rparr>)
   }"

definition SyncFromPrimary :: "'w api \<Rightarrow> SyncPlan \<Rightarrow> ('w, err + SyncResult) op" where
  "SyncFromPrimary A plan = do {
     r \<leftarrow> fetchCredentials A (pl_PrimaryClient plan) (pl_PrimaryNS plan) (pl_ClusterName plan);
     case r of
       Inl e \<Rightarrow> ret (Inl (errorf_wrap ''fetching credentials from primary'' e))
     | Inr secrets \<Rightarrow> do {
         result \<leftarrow> SyncFromPrimary_loop A secrets (pl_PostgresMCName plan) (pl_Standbys plan) \<lparr>sr_PerCluster = []\<rparr>;
         ret (Inr result)
       }
   }"

section \<open>Lemmas\<close>

lemma secretDataEqual_iff:
  assumes a: "wf_dict a" and b: "wf_dict b"
  shows "secretDataEqual a b \<longleftrightarrow> dict_get a = dict_get b"
proof
  assume eq: "dict_get a = dict_get b"
  then have "length a = length b" using a b by (simp add: wf_dict_card)
  moreover have "dict_get b k = Some v" if "(k, v) \<in> set a" for k v
    using that a eq by (metis map_of_is_SomeI wf_dict_def)
  ultimately show "secretDataEqual a b"
    by (auto simp: secretDataEqual_def list_all_iff)
next
  assume *: "secretDataEqual a b"
  then have sub: "dict_get a \<subseteq>\<^sub>m dict_get b"
    by (fastforce simp: secretDataEqual_def list_all_iff map_le_def dest: map_of_SomeD
        split: if_splits option.splits)
  from * have "card (dom (dict_get a)) = card (dom (dict_get b))"
    using wf_dict_card [OF a] wf_dict_card [OF b] by (simp add: secretDataEqual_def split: if_splits)
  with sub have "dom (dict_get a) = dom (dict_get b)"
    by (simp add: card_subset_eq finite_dom_map_of map_le_implies_dom_le)
  with sub show "dict_get a = dict_get b"
    by (simp add: map_le_antisym map_le_def)
qed

fun secret_request :: "request \<Rightarrow> bool" where
  "secret_request (GetSecret _ _) = True"
| "secret_request (CreateSecret _) = True"
| "secret_request (UpdateSecret _) = True"
| "secret_request _ = False"

fun secret_upsert :: "Secret \<Rightarrow> request \<Rightarrow> bool" where
  "secret_upsert secret (GetSecret ns n) = (ns = sec_Namespace secret \<and> n = sec_Name secret)"
| "secret_upsert secret (CreateSecret x) = (x = secret)"
| "secret_upsert secret (UpdateSecret x) = (sec_Data x = sec_Data secret \<and> sec_Labels x = sec_Labels secret)"
| "secret_upsert secret _ = False"

interpretation apply_secret: cluster_operation applySecret secret_upsert "\<lambda>r. r = None"
  by unfold_locales (unfold applySecret_def Let_def, intro emits_intro, auto)

lemma secret_upsert_request: "secret_upsert secret rq \<Longrightarrow> secret_request rq"
  by (cases rq) auto

lemma applySecret_emits:
  "emits (applySecret A c secret) (\<lambda>r es.
     (\<forall>e \<in> set es. \<exists>rq res. e = Call c rq res \<and> secret_request rq) \<and>
     (r = None \<longrightarrow> (\<forall>e \<in> set es. write_accepted e)) \<and> es \<noteq> [])"
proof -
  have "emits (applySecret A c secret) (\<lambda>r es. es \<noteq> [])"
    unfolding applySecret_def Let_def by (intro emits_intro) auto
  with apply_secret.op_emits show ?thesis
    by (rule emits_mono [OF emits_conj]) (blast dest: secret_upsert_request)
qed

lemma syncToStandby_emits:
  "emits (syncToStandby A sources pgmcName standby) (\<lambda>r es.
     (\<forall>e \<in> set es. \<exists>rq res. e = Call (stb_Client standby) rq res \<and> secret_request rq) \<and>
     (r = None \<longrightarrow> (\<forall>e \<in> set es. write_accepted e)) \<and> (sources \<noteq> [] \<longrightarrow> es \<noteq> []))"
proof (induction sources)
  case Nil
  then show ?case by (auto intro: emits_intro)
next
  case (Cons src sources)
  show ?case
    unfolding syncToStandby.simps Let_def
    by (rule emits_bind, rule emits_mono [OF applySecret_emits], intro emits_intro emits_mono [OF Cons.IH]) auto
qed

lemma fetchCredentials_loop_emits:
  "emits (fetchCredentials_loop A c ns clusterName roles out) (\<lambda>r es.
     \<forall>e \<in> set es. \<exists>role \<in> set roles. \<exists>res. e = Call c (GetSecret ns (SecretName role clusterName)) res)"
proof (induction roles arbitrary: out)
  case Nil
  then show ?case by (auto intro: emits_intro)
next
  case (Cons role roles)
  show ?case
    unfolding fetchCredentials_loop.simps Let_def
    by (intro emits_intro emits_mono [OF Cons.IH]) auto
qed

lemma SyncFromPrimary_loop_emits:
  "emits (SyncFromPrimary_loop A secrets pgmcName standbys result) (\<lambda>r es.
     (\<forall>e \<in> set es. \<exists>standby \<in> set standbys. \<exists>rq res. e = Call (stb_Client standby) rq res \<and> secret_request rq) \<and>
     (secrets \<noteq> [] \<longrightarrow> (\<forall>standby \<in> set standbys. \<exists>rq res. Call (stb_Client standby) rq res \<in> set es)))"
proof (induction standbys arbitrary: result)
  case Nil
  then show ?case by (auto intro: emits_intro)
next
  case (Cons standby standbys)
  show ?case
    unfolding SyncFromPrimary_loop.simps
    apply (rule emits_bind, rule emits_mono [OF syncToStandby_emits], rule emits_mono [OF Cons.IH])
    apply (fastforce simp: neq_Nil_conv)
    done
qed

lemma HasErrors_look: "dict_get (sr_PerCluster r) n = Some (Some e) \<Longrightarrow> HasErrors r"
  by (drule map_of_SomeD) (force simp: HasErrors_def list_ex_iff)

lemma SyncFromPrimary_loop_accepted:
  "distinct (map stb_ClusterName standbys) \<Longrightarrow>
   emits (SyncFromPrimary_loop A secrets pgmcName standbys result) (\<lambda>r es.
     (\<not> HasErrors r \<longrightarrow> (\<forall>e \<in> set es. write_accepted e)) \<and>
     (\<forall>n. n \<notin> stb_ClusterName ` set standbys \<longrightarrow>
        dict_get (sr_PerCluster r) n = dict_get (sr_PerCluster result) n))"
proof (induction standbys arbitrary: result)
  case Nil
  then show ?case by (auto intro: emits_intro)
next
  case (Cons standby standbys)
  then have IH: "emits (SyncFromPrimary_loop A secrets pgmcName standbys res) (\<lambda>r es.
     (\<not> HasErrors r \<longrightarrow> (\<forall>e \<in> set es. write_accepted e)) \<and>
     (\<forall>n. n \<notin> stb_ClusterName ` set standbys \<longrightarrow>
        dict_get (sr_PerCluster r) n = dict_get (sr_PerCluster res) n))" for res
    by auto
  from Cons.prems have new: "stb_ClusterName standby \<notin> stb_ClusterName ` set standbys" by auto
  show ?case
    unfolding SyncFromPrimary_loop.simps
  proof (rule emits_bind, rule emits_mono [OF syncToStandby_emits], rule emits_mono [OF IH], elim conjE, intro conjI)
    fix e es r es'
    assume 1: "e = None \<longrightarrow> (\<forall>ev \<in> set es. write_accepted ev)"
      and 2: "\<not> HasErrors r \<longrightarrow> (\<forall>ev \<in> set es'. write_accepted ev)"
      and 3: "\<forall>n. n \<notin> stb_ClusterName ` set standbys \<longrightarrow> dict_get (sr_PerCluster r) n =
        dict_get (sr_PerCluster (result\<lparr>sr_PerCluster := dict_put (stb_ClusterName standby) e (sr_PerCluster result)\<rparr>)) n"
    have "dict_get (sr_PerCluster r) (stb_ClusterName standby) = Some e" using 3 new by simp
    then have "e = None" if "\<not> HasErrors r" using that HasErrors_look by (cases e) auto
    with 1 2 show "\<not> HasErrors r \<longrightarrow> (\<forall>ev \<in> set (es @ es'). write_accepted ev)" by auto
    from 3 show "\<forall>n. n \<notin> stb_ClusterName ` set (standby # standbys) \<longrightarrow>
        dict_get (sr_PerCluster r) n = dict_get (sr_PerCluster result) n" by simp
  qed
qed

lemma SyncFromPrimary_loop_names:
  "emits (SyncFromPrimary_loop A secrets pgmcName standbys result) (\<lambda>r es.
     fst ` set (sr_PerCluster r) = fst ` set (sr_PerCluster result) \<union> stb_ClusterName ` set standbys)"
proof (induction standbys arbitrary: result)
  case Nil
  then show ?case by (auto intro: emits_intro)
next
  case (Cons standby standbys)
  show ?case
    unfolding SyncFromPrimary_loop.simps
    by (rule emits_bind, rule emits_mono [OF syncToStandby_emits], rule emits_mono [OF Cons.IH])
       (auto simp: dom_update)
qed

text \<open>The calls that a sync may make: reads on the primary, Secret upserts on the standbys.\<close>

definition sync_event :: "SyncPlan \<Rightarrow> event \<Rightarrow> bool" where
  "sync_event plan e \<longleftrightarrow>
     (\<exists>role res. role \<in> set CredentialRoles \<and>
        e = Call (pl_PrimaryClient plan) (GetSecret (pl_PrimaryNS plan) (SecretName role (pl_ClusterName plan))) res) \<or>
     (\<exists>standby rq res. standby \<in> set (pl_Standbys plan) \<and>
        e = Call (stb_Client standby) rq res \<and> secret_request rq)"

lemma SyncFromPrimary_footprint: "footprint (SyncFromPrimary A plan) (sync_event plan)"
  unfolding SyncFromPrimary_def fetchCredentials_def
  apply (rule emits_bind, rule emits_mono [OF fetchCredentials_loop_emits], intro emits_intro)
   apply (fastforce simp: sync_event_def)
  apply (rule emits_mono [OF SyncFromPrimary_loop_emits], rule emits_return)
  apply (fastforce simp: sync_event_def)
  done

lemma SyncFromPrimary_accepted:
  assumes "distinct (map stb_ClusterName (pl_Standbys plan))"
  shows "emits (SyncFromPrimary A plan) (\<lambda>r es. case r of
     Inl e \<Rightarrow> True
   | Inr res \<Rightarrow> fst ` set (sr_PerCluster res) = stb_ClusterName ` set (pl_Standbys plan) \<and>
       (HasErrors res \<or> list_all write_accepted es))"
  unfolding SyncFromPrimary_def fetchCredentials_def
  apply (rule emits_bind, rule emits_mono [OF fetchCredentials_loop_emits], intro emits_intro)
   apply simp
  apply (rule emits_mono [OF emits_conj [OF SyncFromPrimary_loop_accepted [OF assms] SyncFromPrimary_loop_names]],
      rule emits_return)
  apply (fastforce simp: list_all_iff)
  done

section \<open>Properties\<close>

text \<open>
  Rewriting the name of a credential Secret of one cluster for another cluster gives
  exactly the name that the other cluster's operator expects, for every role.
\<close>

lemma rewriteClusterName_SecretName:
  "map (\<lambda>role. rewriteClusterName (SecretName role clusterName) newClusterName) CredentialRoles =
   map (\<lambda>role. SecretName role newClusterName) CredentialRoles"
  by (simp add: rewriteClusterName_def SecretName_def CredentialRoles_def Let_def)

text \<open>
  C31. \<open>applySecret\<close> is correct on a server that keeps its promise: when it reports success, the
  stored Secret has exactly the wanted data (whether it was created, updated or skipped), and
  no other Secret of any cluster has changed.
\<close>

theorem applySecret_stores_data:
  assumes server: "secret_server A view"
    and run: "run_state (applySecret A c secret) s = (None, s')"
    and wf: "wf_dict (sec_Data secret)" "\<And>k x. view (op_world s) k = Some x \<Longrightarrow> wf_dict (sec_Data x)"
  shows "\<exists>x. view (op_world s') = (view (op_world s))((c, sec_Namespace secret, sec_Name secret) \<mapsto> x) \<and>
    dict_get (sec_Data x) = dict_get (sec_Data secret)"
proof -
  let ?key = "(c, sec_Namespace secret, sec_Name secret)"
  note laws = server [unfolded secret_server_def store_laws_def]
  obtain r w1 where get: "api_get_secret A c (sec_Namespace secret) (sec_Name secret) (op_world s) = (r, w1)"
    by fastforce
  note view1 = get_law_view [OF conjunct1 [OF laws] get]
  show ?thesis
  proof (cases r)
    case (Inl e)
    with run get obtain w2 where nf: "IsNotFound e"
      and create: "api_create_secret A c secret w1 = (Inr (), op_world s')"
      by (auto simp: applySecret_def workload_call_def split: if_splits prod.splits)
    from create_law_Inr [OF conjunct1 [OF conjunct2 [OF laws]] create] obtain y
      where "same_secret secret y" "view (op_world s') = (view w1)(?key \<mapsto> y)" by auto
    with view1 show ?thesis by (auto simp: same_secret_def)
  next
    case (Inr existing)
    note got = get_law_Inr [OF conjunct1 [OF laws] get [unfolded Inr]]
    show ?thesis
    proof (cases "secretDataEqual (sec_Data existing) (sec_Data secret)")
      case True
      with run get Inr have "op_world s' = w1"
        by (auto simp: applySecret_def workload_call_def)
      moreover have "dict_get (sec_Data existing) = dict_get (sec_Data secret)"
        using True wf got secretDataEqual_iff by blast
      ultimately show ?thesis using got view1
        by (intro exI [of _ existing]) (simp add: fun_upd_idem)
    next
      case False
      let ?upd = "existing\<lparr>sec_Data := sec_Data secret, sec_Labels := sec_Labels secret\<rparr>"
      from False run get Inr have upd: "api_update_secret A c ?upd w1 = (Inr (), op_world s')"
        by (auto simp: applySecret_def workload_call_def Let_def split: prod.splits)
      from update_law_Inr [OF conjunct2 [OF conjunct2 [OF laws]] upd] obtain y
        where "same_secret ?upd y" "view (op_world s') = (view w1)(?key \<mapsto> y)" using got by auto
      with view1 show ?thesis by (auto simp: same_secret_def)
    qed
  qed
qed

definition sample_cred :: Secret where
  "sample_cred = \<lparr>sec_Name = SecretName ''standby'' ''app-us'', sec_Namespace = ''pg'', sec_ResourceVersion = [],
     sec_Labels = [], sec_Type = ''Opaque'', sec_Data = [(''password'', ''x'')]\<rparr>"

lemma applySecret_stores_data_witness:
  "\<exists>x. view_secrets (op_world (snd (run_state (applySecret mem_api 2 sample_cred) (mem_state empty_world))))
      (2, ''pg'', SecretName ''standby'' ''app-us'') = Some x \<and> dict_get (sec_Data x) ''password'' = Some ''x''"
proof -
  define s' where "s' = snd (run_state (applySecret mem_api 2 sample_cred) (mem_state empty_world))"
  have run: "run_state (applySecret mem_api 2 sample_cred) (mem_state empty_world) = (None, s')"
    unfolding s'_def by (simp add: applySecret_def workload_call_def mem_defs sample_cred_def)
  have "wf_dict (sec_Data sample_cred)" by (simp add: sample_cred_def wf_dict_def)
  moreover have "wf_dict (sec_Data x)" if "view_secrets (op_world (mem_state empty_world)) k = Some x" for k x
    using that by (simp add: mem_defs)
  ultimately show ?thesis
    using applySecret_stores_data [OF mem_secret_server run]
    unfolding s'_def [symmetric] by (auto simp: sample_cred_def)
qed

text \<open>
  Idempotence: when the stored Secret already has the wanted data, \<open>applySecret\<close> reports
  success after a single read and writes nothing (no update, so no new resource version).
\<close>

theorem applySecret_skips_equal:
  assumes "api_get_secret A c (sec_Namespace secret) (sec_Name secret) (op_world s) = (Inr existing, w')"
    and "wf_dict (sec_Data existing)" "wf_dict (sec_Data secret)"
    and "dict_get (sec_Data existing) = dict_get (sec_Data secret)"
  shows "run_state (applySecret A c secret) s =
    (None, s\<lparr>op_world := w',
             op_trace := op_trace s @ [Call c (GetSecret (sec_Namespace secret) (sec_Name secret)) None]\<rparr>)"
  using assms by (simp add: applySecret_def workload_call_def secretDataEqual_iff)

lemma applySecret_skips_equal_witness:
  defines "w \<equiv> empty_world\<lparr>mw_secrets := [(2, ''pg'', SecretName ''standby'' ''app-us'') \<mapsto> sample_cred]\<rparr>"
  shows "fst (run_state (applySecret mem_api 2 sample_cred) (mem_state w)) = None"
proof -
  have "api_get_secret mem_api 2 (sec_Namespace sample_cred) (sec_Name sample_cred) (op_world (mem_state w)) =
      (Inr sample_cred, w)"
    by (simp add: mem_defs sample_cred_def w_def)
  moreover have "wf_dict (sec_Data sample_cred)" by (simp add: sample_cred_def wf_dict_def)
  ultimately show ?thesis using applySecret_skips_equal by (metis fst_conv)
qed

text \<open>
  C30. The credential sync only reads the credential Secrets of the primary, only reads, creates
  and updates Secrets on the standbys, and deletes nothing; it reports one entry per standby,
  and when no entry is an error every write it made was accepted.
\<close>

theorem SyncFromPrimary_contract:
  assumes "distinct (map stb_ClusterName (pl_Standbys plan))"
  shows "emits (SyncFromPrimary A plan) (\<lambda>r es. list_all (sync_event plan) es \<and>
    (case r of
       Inl e \<Rightarrow> True
     | Inr res \<Rightarrow> fst ` set (sr_PerCluster res) = stb_ClusterName ` set (pl_Standbys plan) \<and>
         (HasErrors res \<or> list_all write_accepted es)))"
  by (rule emits_mono [OF emits_conj [OF SyncFromPrimary_footprint SyncFromPrimary_accepted [OF assms]]])
     (simp add: list_all_iff)

definition sample_sync :: SyncPlan where
  "sample_sync = \<lparr>pl_PostgresMCName = ''db'', pl_ClusterName = ''app-eu'', pl_PrimaryClient = 1, pl_PrimaryNS = ''pg'',
     pl_Standbys = [\<lparr>stb_ClusterName = ''app-us'', stb_Client = 2, stb_Namespace = ''pg''\<rparr>]\<rparr>"

definition primary_creds_world :: mem_world where
  "primary_creds_world = empty_world\<lparr>mw_secrets :=
     [(1, ''pg'', SecretName ''standby'' ''app-eu'') \<mapsto> sample_cred\<lparr>sec_Name := SecretName ''standby'' ''app-eu''\<rparr>]\<rparr>"

lemma SyncFromPrimary_contract_witness:
  "list_all (sync_event sample_sync)
     (op_trace (snd (run_state (SyncFromPrimary mem_api sample_sync) (mem_state primary_creds_world))))"
proof -
  have "distinct (map stb_ClusterName (pl_Standbys sample_sync))" by (simp add: sample_sync_def)
  from SyncFromPrimary_contract [OF this, of mem_api] show ?thesis
    unfolding emits_def by (auto dest: spec [of _ "mem_state primary_creds_world"] simp: mem_state_def)
qed

end
