(* ===== verification/ReplicationService.thy ===== *)
theory ReplicationService
  imports Registry
begin

text \<open>
  The package \<open>internal/replicationservice\<close>: the Service that exposes PostgreSQL on every
  workload cluster, and the discovery of the address under which other clusters reach it.
\<close>

section \<open>The Service objects\<close>

definition ServiceName :: "string \<Rightarrow> string" where
  "ServiceName pgmcName = pgmcName @ ''-replication''"

definition buildNodePortService :: "string \<Rightarrow> string \<Rightarrow> string \<Rightarrow> int32 \<Rightarrow> Service" where
  "buildNodePortService pgmcName namespace zalandoClusterName nodePort =
     \<lparr>svc_Name = ServiceName pgmcName, svc_Namespace = namespace, svc_ResourceVersion = [],
      svc_Labels = [(''pgmc.aurelops.com/managed'', ''true''), (''pgmc.aurelops.com/postgresmc'', pgmcName)],
      svc_Type = ''NodePort'', svc_ClusterIP = [], svc_ExternalName = [],
      svc_Selector = [(''cluster-name'', zalandoClusterName), (''spilo-role'', ''master'')],
      svc_Ports = [\<lparr>port_Name = ''postgresql'', port_Port = 5432, port_NodePort = nodePort, port_Protocol = ''TCP''\<rparr>],
      svc_Ingress = []\<rparr>"

definition buildLoadBalancerService :: "string \<Rightarrow> string \<Rightarrow> string \<Rightarrow> Service" where
  "buildLoadBalancerService pgmcName namespace zalandoClusterName =
     \<lparr>svc_Name = ServiceName pgmcName, svc_Namespace = namespace, svc_ResourceVersion = [],
      svc_Labels = [(''pgmc.aurelops.com/managed'', ''true''), (''pgmc.aurelops.com/postgresmc'', pgmcName)],
      svc_Type = ''LoadBalancer'', svc_ClusterIP = [], svc_ExternalName = [],
      svc_Selector = [(''cluster-name'', zalandoClusterName), (''spilo-role'', ''master'')],
      svc_Ports = [\<lparr>port_Name = ''postgresql'', port_Port = 5432, port_NodePort = 0, port_Protocol = ''TCP''\<rparr>],
      svc_Ingress = []\<rparr>"

text \<open>The object that \<open>applyService\<close> writes over an existing one.\<close>

definition merge_service :: "Service \<Rightarrow> Service \<Rightarrow> Service" where
  "merge_service existing desired =
     (let updated = existing\<lparr>svc_Selector := svc_Selector desired\<rparr>
      in if 0 < length (svc_Ports existing) \<and> 0 < length (svc_Ports desired)
         then (if port_NodePort (svc_Ports desired ! 0) \<noteq> 0 then updated\<lparr>svc_Ports := svc_Ports desired\<rparr>
               else updated)
         else updated)"

definition applyService :: "'w api \<Rightarrow> client \<Rightarrow> Service \<Rightarrow> ('w, err option) op" where
  "applyService A c desired = do {
     r \<leftarrow> workload_call c (GetService (svc_Namespace desired) (svc_Name desired))
            (api_get_service A c (svc_Namespace desired) (svc_Name desired));
     case r of
       Inl e \<Rightarrow>
         if IsNotFound e then do {
           w \<leftarrow> workload_call c (CreateService desired) (api_create_service A c desired);
           ret (err_of w)
         }
         else ret (Some e)
     | Inr existing \<Rightarrow>
         (let updated = merge_service existing desired
          in do {
            w \<leftarrow> workload_call c (UpdateService updated) (api_update_service A c updated);
            ret (err_of w)
          })
   }"

section \<open>Discovery\<close>

fun isNodeReady_loop :: "(string \<times> string) list \<Rightarrow> bool" where
  "isNodeReady_loop [] = False"
| "isNodeReady_loop ((typ, status) # rest) =
     (if typ = ''Ready'' then status = ''True'' else isNodeReady_loop rest)"

definition isNodeReady :: "Node \<Rightarrow> bool" where
  "isNodeReady node = isNodeReady_loop (node_Conditions node)"

fun internal_address :: "(string \<times> string) list \<Rightarrow> string option" where
  "internal_address [] = None"
| "internal_address ((typ, address) # rest) =
     (if typ = ''InternalIP'' \<and> address \<noteq> [] then Some address else internal_address rest)"

fun node_ip :: "Node list \<Rightarrow> string option" where
  "node_ip [] = None"
| "node_ip (node # nodes) =
     (if \<not> isNodeReady node then node_ip nodes
      else case internal_address (node_Addresses node) of
             Some address \<Rightarrow> Some address
           | None \<Rightarrow> node_ip nodes)"

definition discoverNodeIP :: "'w api \<Rightarrow> client \<Rightarrow> ('w, err + string) op" where
  "discoverNodeIP A c = do {
     r \<leftarrow> workload_call c ListNodes (api_list_nodes A c);
     case r of
       Inl e \<Rightarrow> ret (Inl (errorf_wrap ''listing nodes'' e))
     | Inr nodes \<Rightarrow>
         (case node_ip nodes of
            Some address \<Rightarrow> ret (Inr address)
          | None \<Rightarrow> ret (Inl (errorf ''no ready node with InternalIP found'')))
   }"

definition ingress_host :: "LoadBalancerIngress list \<Rightarrow> err + string" where
  "ingress_host ingress =
     (case ingress of
        [] \<Rightarrow> Inl (errorf ''LoadBalancer not yet provisioned (ingress empty)'')
      | i # _ \<Rightarrow>
          if ing_Hostname i \<noteq> [] then Inr (ing_Hostname i)
          else if ing_IP i \<noteq> [] then Inr (ing_IP i)
          else Inl (errorf ''LoadBalancer ingress has neither hostname nor IP''))"

definition discoverLoadBalancerHost :: "'w api \<Rightarrow> client \<Rightarrow> string \<Rightarrow> string \<Rightarrow> ('w, err + string) op" where
  "discoverLoadBalancerHost A c namespace name = do {
     r \<leftarrow> workload_call c (GetService namespace name) (api_get_service A c namespace name);
     case r of
       Inl e \<Rightarrow> ret (Inl e)
     | Inr svc \<Rightarrow> ret (ingress_host (svc_Ingress svc))
   }"

section \<open>Operations\<close>

definition ensureNodePort :: "'w api \<Rightarrow> client \<Rightarrow> PostgresMC \<Rightarrow> ClusterTarget \<Rightarrow> ('w, err + string \<times> int32) op" where
  "ensureNodePort A c mc target =
     (let configured = rsc_NodePort (sp_ReplicationService (mc_Spec mc));
          nodePort = (if configured = 0 then 32432 else configured);
          desired = buildNodePortService (mc_Name mc) (ct_Namespace target)
                      (ClusterName (sp_TeamID (mc_Spec mc)) (ct_Name target)) nodePort
      in do {
        e \<leftarrow> applyService A c desired;
        case e of
          Some e \<Rightarrow> ret (Inl (errorf_wrap (''applying NodePort replication service on '' @ ct_Name target) e))
        | None \<Rightarrow>
            if ct_ExternalHost target \<noteq> [] then ret (Inr (ct_ExternalHost target, nodePort))
            else do {
              r \<leftarrow> discoverNodeIP A c;
              case r of
                Inl e \<Rightarrow> ret (Inl (errorf_wrap (''discovering node IP for cluster '' @ ct_Name target) e))
              | Inr host \<Rightarrow> ret (Inr (host, nodePort))
            }
      })"

definition ensureLoadBalancer :: "'w api \<Rightarrow> client \<Rightarrow> PostgresMC \<Rightarrow> ClusterTarget \<Rightarrow> ('w, err + string \<times> int32) op" where
  "ensureLoadBalancer A c mc target =
     (let desired = buildLoadBalancerService (mc_Name mc) (ct_Namespace target)
                      (ClusterName (sp_TeamID (mc_Spec mc)) (ct_Name target))
      in do {
        e \<leftarrow> applyService A c desired;
        case e of
          Some e \<Rightarrow> ret (Inl (errorf_wrap (''applying LoadBalancer replication service on '' @ ct_Name target) e))
        | None \<Rightarrow>
            if ct_ExternalHost target \<noteq> [] then ret (Inr (ct_ExternalHost target, 5432))
            else do {
              r \<leftarrow> discoverLoadBalancerHost A c (ct_Namespace target) (ServiceName (mc_Name mc));
              case r of
                Inl e \<Rightarrow> ret (Inl (errorf_wrap (''LoadBalancer not ready on cluster '' @ ct_Name target) e))
              | Inr host \<Rightarrow> ret (Inr (host, 5432))
            }
      })"

definition Ensure :: "'w api \<Rightarrow> client \<Rightarrow> PostgresMC \<Rightarrow> ClusterTarget \<Rightarrow> ('w, err + string \<times> int32) op" where
  "Ensure A c mc target =
     (let configured = rsc_Type (sp_ReplicationService (mc_Spec mc));
          svcType = (if configured = [] then ServiceTypeNodePort else configured)
      in if svcType = ServiceTypeNodePort then ensureNodePort A c mc target
         else if svcType = ServiceTypeLoadBalancer then ensureLoadBalancer A c mc target
         else ret (Inl (errorf (''unsupported replicationService.type: '' @ fmt_q svcType))))"

definition Delete :: "'w api \<Rightarrow> client \<Rightarrow> PostgresMC \<Rightarrow> ClusterTarget \<Rightarrow> ('w, err option) op" where
  "Delete A c mc target = do {
     r \<leftarrow> workload_call c (GetService (ct_Namespace target) (ServiceName (mc_Name mc)))
            (api_get_service A c (ct_Namespace target) (ServiceName (mc_Name mc)));
     case r of
       Inl e \<Rightarrow> if IsNotFound e then ret None else ret (Some e)
     | Inr svc \<Rightarrow> do {
         w \<leftarrow> workload_call c (DeleteService (svc_Namespace svc) (svc_Name svc))
                (api_delete_service A c (svc_Namespace svc) (svc_Name svc));
         ret (err_of w)
       }
   }"

section \<open>The manager's contract\<close>

fun replication_request :: "PostgresMC \<times> ClusterTarget \<Rightarrow> request \<Rightarrow> bool" where
  "replication_request (mc, target) (GetService ns n) = (ns = ct_Namespace target \<and> n = ServiceName (mc_Name mc))"
| "replication_request (mc, target) (CreateService svc) =
     (svc_Namespace svc = ct_Namespace target \<and> svc_Name svc = ServiceName (mc_Name mc))"
| "replication_request (mc, target) (UpdateService svc) =
     (svc_Selector svc = [(''cluster-name'', ClusterName (sp_TeamID (mc_Spec mc)) (ct_Name target)), (''spilo-role'', ''master'')])"
| "replication_request _ ListNodes = True"
| "replication_request _ _ = False"

lemmas Ensure_defs = Ensure_def ensureNodePort_def ensureLoadBalancer_def applyService_def discoverNodeIP_def
  discoverLoadBalancerHost_def

lemma merge_service_fields [simp]:
  "svc_Selector (merge_service existing desired) = svc_Selector desired"
  "svc_Type (merge_service existing desired) = svc_Type existing"
  "svc_Name (merge_service existing desired) = svc_Name existing"
  "svc_Namespace (merge_service existing desired) = svc_Namespace existing"
  "svc_Labels (merge_service existing desired) = svc_Labels existing"
  by (simp_all add: merge_service_def Let_def)

lemma built_service_fields [simp]:
  "svc_Namespace (buildNodePortService n ns z p) = ns" "svc_Name (buildNodePortService n ns z p) = ServiceName n"
  "svc_Namespace (buildLoadBalancerService n ns z) = ns" "svc_Name (buildLoadBalancerService n ns z) = ServiceName n"
  "svc_Selector (buildNodePortService n ns z p) = [(''cluster-name'', z), (''spilo-role'', ''master'')]"
  "svc_Selector (buildLoadBalancerService n ns z) = [(''cluster-name'', z), (''spilo-role'', ''master'')]"
  "svc_Type (buildNodePortService n ns z p) = ''NodePort''"
  "svc_Type (buildLoadBalancerService n ns z) = ''LoadBalancer''"
  by (simp_all add: buildNodePortService_def buildLoadBalancerService_def)

interpretation replication_manager: cluster_operation "\<lambda>A c (mc, target). Ensure A c mc target"
    replication_request "\<lambda>r. \<exists>x. r = Inr x"
  by unfold_locales (clarsimp, unfold Ensure_defs Let_def, intro emits_intro, auto)

fun replication_delete_request :: "PostgresMC \<times> ClusterTarget \<Rightarrow> request \<Rightarrow> bool" where
  "replication_delete_request (mc, target) (GetService ns n) =
     (ns = ct_Namespace target \<and> n = ServiceName (mc_Name mc))"
| "replication_delete_request _ (DeleteService _ _) = True"
| "replication_delete_request _ _ = False"

interpretation replication_deleter: cluster_operation "\<lambda>A c (mc, target). Delete A c mc target"
    replication_delete_request "\<lambda>r. r = None"
  by unfold_locales (clarsimp, unfold Delete_def Let_def, intro emits_intro, auto)

section \<open>Discovery lemmas\<close>

lemma internal_address_nonempty: "internal_address as = Some a \<Longrightarrow> a \<noteq> []"
  by (induction "as" rule: internal_address.induct) (auto split: if_splits)

lemma node_ip_nonempty: "node_ip nodes = Some a \<Longrightarrow> a \<noteq> []"
  by (induction nodes) (auto split: if_splits option.splits dest: internal_address_nonempty)

lemma ingress_host_nonempty: "ingress_host ingress = Inr h \<Longrightarrow> h \<noteq> []"
  by (auto simp: ingress_host_def split: list.splits if_splits)

text \<open>The port under which a cluster is reached.\<close>

definition replication_port :: "PostgresMC \<Rightarrow> int32" where
  "replication_port mc =
     (let cfg = sp_ReplicationService (mc_Spec mc)
      in if rsc_Type cfg = ServiceTypeLoadBalancer then 5432
         else if rsc_NodePort cfg = 0 then 32432 else rsc_NodePort cfg)"

section \<open>Properties\<close>

text \<open>
  An endpoint that \<open>Ensure\<close> returns has a non-empty host, which is the target's
  \<open>externalHost\<close> when that is set, and the port 5432 for a LoadBalancer or the configured
  node port (32432 by default) for a NodePort Service.
\<close>

theorem Ensure_endpoint:
  "emits (Ensure A c mc target) (\<lambda>r es. case r of
     Inl e \<Rightarrow> True
   | Inr (host, port) \<Rightarrow> host \<noteq> [] \<and> port = replication_port mc \<and>
       (ct_ExternalHost target = [] \<or> host = ct_ExternalHost target))"
  unfolding Ensure_defs Let_def
  by (intro emits_intro)
     (auto simp: replication_port_def Let_def dest: node_ip_nonempty ingress_host_nonempty
       split: sum.split if_splits)

text \<open>
  The endpoint of a cluster does not depend on its \<open>externalPort\<close>: overriding the port in
  the spec has no effect on the service nor on the advertised endpoint.
\<close>

lemma Ensure_ignores_externalPort:
  "Ensure A c mc (target\<lparr>ct_ExternalPort := p\<rparr>) = Ensure A c mc target"
  by (simp add: Ensure_defs cong: if_cong)

text \<open>
  The node whose address is advertised is the first one in the list that is Ready and has
  a non-empty InternalIP.
\<close>

lemma node_ip_first_ready:
  "node_ip nodes =
     (case find (\<lambda>n. isNodeReady n \<and> internal_address (node_Addresses n) \<noteq> None) nodes of
        None \<Rightarrow> None | Some n \<Rightarrow> internal_address (node_Addresses n))"
  by (induction nodes) (auto split: option.splits)

text \<open>
  On a server that keeps its promise a successful \<open>applyService\<close> creates the wanted Service
  when there is none; over an existing one it sets the selector and keeps type and labels, so a
  switch of \<open>replicationService.type\<close> never reaches a Service that already exists.
\<close>

theorem applyService_stores:
  assumes server: "service_server A view"
    and run: "run_state (applyService A c desired) s = (None, s')"
    and typed: "svc_Type desired \<noteq> []"
  shows "\<exists>x. view (op_world s') = (view (op_world s))((c, service_key desired) \<mapsto> x) \<and>
    svc_Selector x = svc_Selector desired \<and>
    (case view (op_world s) (c, service_key desired) of
       None \<Rightarrow> svc_Type x = svc_Type desired \<and> svc_Labels x = svc_Labels desired
     | Some old \<Rightarrow> svc_Labels x = svc_Labels old \<and> (svc_Type old = [] \<or> svc_Type x = svc_Type old))"
proof -
  note laws = server [unfolded service_server_def store_laws_def]
  obtain r w1 where get: "api_get_service A c (svc_Namespace desired) (svc_Name desired) (op_world s) = (r, w1)"
    by fastforce
  note view1 = get_law_view [OF conjunct1 [OF laws] get]
  show ?thesis
  proof (cases r)
    case (Inl e)
    with run get have create: "api_create_service A c desired w1 = (Inr (), op_world s')"
      by (auto simp: applyService_def workload_call_def split: if_splits prod.splits)
    from create_law_Inr [OF conjunct1 [OF conjunct2 [OF laws]] create] obtain y where
      "same_service desired y" "view (op_world s') = (view w1)((c, service_key desired) \<mapsto> y)"
      "view w1 (c, service_key desired) = None" by blast
    with view1 typed show ?thesis by (auto simp: same_service_def)
  next
    case (Inr existing)
    note got = get_law_Inr [OF conjunct1 [OF laws] get [unfolded Inr]]
    from run get Inr have upd: "api_update_service A c (merge_service existing desired) w1 = (Inr (), op_world s')"
      by (auto simp: applyService_def workload_call_def Let_def split: prod.splits)
    from update_law_Inr [OF conjunct2 [OF conjunct2 [OF laws]] upd] got obtain y where
      "same_service (merge_service existing desired) y"
      "view (op_world s') = (view w1)((c, service_key desired) \<mapsto> y)" by auto
    with got view1 show ?thesis
      by (intro exI [of _ y]) (simp add: same_service_def)
  qed
qed

text \<open>A NodePort Service is in place and the resource now asks for a LoadBalancer.\<close>

definition nodeport_world :: mem_world where
  "nodeport_world = empty_world\<lparr>mw_services :=
     [(2, ''pg'', ''db-replication'') \<mapsto> buildNodePortService ''db'' ''pg'' ''app-us'' 32432]\<rparr>"

lemma applyService_stores_witness:
  "map_option svc_Type (view_services (op_world (snd (run_state
     (applyService mem_api 2 (buildLoadBalancerService ''db'' ''pg'' ''app-us'')) (mem_state nodeport_world))))
     (2, ''pg'', ''db-replication'')) = Some ''NodePort''"
proof -
  let ?d = "buildLoadBalancerService ''db'' ''pg'' ''app-us''"
  let ?old = "buildNodePortService ''db'' ''pg'' ''app-us'' 32432"
  have old: "view_services (op_world (mem_state nodeport_world)) (2, service_key ?d) = Some ?old"
    by (simp add: mem_defs nodeport_world_def ServiceName_def)
  have run: "run_state (applyService mem_api 2 ?d) (mem_state nodeport_world) =
      (None, snd (run_state (applyService mem_api 2 ?d) (mem_state nodeport_world)))"
    by (simp add: applyService_def Let_def workload_call_def mem_defs nodeport_world_def ServiceName_def)
  have "svc_Type ?d \<noteq> []" by simp
  from applyService_stores [OF mem_service_server run this] old show ?thesis
    by (auto simp: ServiceName_def)
qed

end
