(* ===== verification/CrossCluster.thy ===== *)
theory CrossCluster
  imports Registry
begin

text \<open>
  The package \<open>internal/crosscluster\<close>: the alias Service on a standby cluster that resolves to
  the primary, an ExternalName Service for a DNS host and a headless Service with Endpoints for
  an IP address.
\<close>

section \<open>Names\<close>

definition PrimaryAliasName :: "string \<Rightarrow> string" where
  "PrimaryAliasName pgmcName = pgmcName @ ''-primary''"

definition PrimaryAliasFQDN :: "string \<Rightarrow> string \<Rightarrow> string" where
  "PrimaryAliasFQDN pgmcName namespace =
     PrimaryAliasName pgmcName @ ''.'' @ namespace @ ''.svc.cluster.local''"

section \<open>Operations\<close>

record AliasPlan =
  al_PostgresMCName :: string
  al_StandbyClient :: client
  al_StandbyNS :: string
  al_PrimaryHost :: string
  al_PrimaryPort :: int32

definition alias_labels :: "string \<Rightarrow> string dict" where
  "alias_labels pgmcName =
     [(''pgmc.aurelops.com/managed'', ''true''), (''pgmc.aurelops.com/postgresmc'', pgmcName)]"

definition externalname_service :: "AliasPlan \<Rightarrow> string \<Rightarrow> Service" where
  "externalname_service plan aliasName =
     \<lparr>svc_Name = aliasName, svc_Namespace = al_StandbyNS plan, svc_ResourceVersion = [],
      svc_Labels = alias_labels (al_PostgresMCName plan), svc_Type = ''ExternalName'', svc_ClusterIP = [],
      svc_ExternalName = al_PrimaryHost plan, svc_Selector = [],
      svc_Ports = [\<lparr>port_Name = ''postgresql'', port_Port = al_PrimaryPort plan, port_NodePort = 0, port_Protocol = []\<rparr>],
      svc_Ingress = []\<rparr>"

definition ensureExternalName :: "'w api \<Rightarrow> AliasPlan \<Rightarrow> string \<Rightarrow> ('w, err option) op" where
  "ensureExternalName A plan aliasName =
     (let desired = externalname_service plan aliasName; c = al_StandbyClient plan; ns = al_StandbyNS plan
      in do {
        r \<leftarrow> workload_call c (GetService ns aliasName) (api_get_service A c ns aliasName);
        case r of
          Inl e \<Rightarrow>
            if IsNotFound e then do {
              w \<leftarrow> workload_call c (CreateService desired) (api_create_service A c desired);
              ret (err_of w)
            }
            else ret (Some (errorf_wrap (''getting alias service '' @ ns @ ''/'' @ aliasName) e))
        | Inr existing \<Rightarrow>
            if svc_ExternalName existing = al_PrimaryHost plan then ret None
            else (let updated = existing\<lparr>svc_ExternalName := al_PrimaryHost plan, svc_Ports := svc_Ports desired\<rparr>
                  in do {
                    w \<leftarrow> workload_call c (UpdateService updated) (api_update_service A c updated);
                    ret (err_of w)
                  })
      })"

definition headless_service :: "AliasPlan \<Rightarrow> string \<Rightarrow> Service" where
  "headless_service plan aliasName =
     \<lparr>svc_Name = aliasName, svc_Namespace = al_StandbyNS plan, svc_ResourceVersion = [],
      svc_Labels = alias_labels (al_PostgresMCName plan), svc_Type = [], svc_ClusterIP = ''None'',
      svc_ExternalName = [], svc_Selector = [],
      svc_Ports = [\<lparr>port_Name = ''postgresql'', port_Port = al_PrimaryPort plan, port_NodePort = 0, port_Protocol = []\<rparr>],
      svc_Ingress = []\<rparr>"

definition alias_endpoints :: "AliasPlan \<Rightarrow> string \<Rightarrow> Endpoints" where
  "alias_endpoints plan aliasName =
     \<lparr>ep_Name = aliasName, ep_Namespace = al_StandbyNS plan, ep_ResourceVersion = [],
      ep_Subsets = [\<lparr>eps_Addresses = [al_PrimaryHost plan], eps_Ports = [(''postgresql'', al_PrimaryPort plan)]\<rparr>]\<rparr>"

definition ensureEndpoints :: "'w api \<Rightarrow> AliasPlan \<Rightarrow> string \<Rightarrow> ('w, err option) op" where
  "ensureEndpoints A plan aliasName =
     (let endpoints = alias_endpoints plan aliasName; c = al_StandbyClient plan; ns = al_StandbyNS plan
      in do {
        r \<leftarrow> workload_call c (GetEndpoints ns aliasName) (api_get_endpoints A c ns aliasName);
        case r of
          Inl e \<Rightarrow>
            if IsNotFound e then do {
              w \<leftarrow> workload_call c (CreateEndpoints endpoints) (api_create_endpoints A c endpoints);
              ret (err_of w)
            }
            else ret (Some e)
        | Inr existingEp \<Rightarrow>
            (let updated = existingEp\<lparr>ep_Subsets := ep_Subsets endpoints\<rparr>
             in do {
               w \<leftarrow> workload_call c (UpdateEndpoints updated) (api_update_endpoints A c updated);
               ret (err_of w)
             })
      })"

text \<open>The first half of \<open>ensureHeadlessWithEndpoints\<close>, up to the error return of the Service.\<close>

definition ensureHeadlessService :: "'w api \<Rightarrow> AliasPlan \<Rightarrow> string \<Rightarrow> ('w, err option) op" where
  "ensureHeadlessService A plan aliasName =
     (let svc = headless_service plan aliasName; c = al_StandbyClient plan; ns = al_StandbyNS plan
      in do {
        r \<leftarrow> workload_call c (GetService ns aliasName) (api_get_service A c ns aliasName);
        case r of
          Inl e \<Rightarrow>
            if IsNotFound e then do {
              w \<leftarrow> workload_call c (CreateService svc) (api_create_service A c svc);
              ret (err_of w)
            }
            else ret (Some (errorf_wrap (''getting headless service '' @ ns @ ''/'' @ aliasName) e))
        | Inr existing \<Rightarrow> ret None
      })"

definition ensureHeadlessWithEndpoints :: "'w api \<Rightarrow> AliasPlan \<Rightarrow> string \<Rightarrow> ('w, err option) op" where
  "ensureHeadlessWithEndpoints A plan aliasName = do {
     e \<leftarrow> ensureHeadlessService A plan aliasName;
     case e of
       Some e \<Rightarrow> ret (Some e)
     | None \<Rightarrow> ensureEndpoints A plan aliasName
   }"

definition EnsurePrimaryAlias :: "'w api \<Rightarrow> AliasPlan \<Rightarrow> ('w, err option) op" where
  "EnsurePrimaryAlias A plan =
     (let aliasName = PrimaryAliasName (al_PostgresMCName plan)
      in if is_ip (al_PrimaryHost plan) then ensureHeadlessWithEndpoints A plan aliasName
         else ensureExternalName A plan aliasName)"

definition DeleteAlias :: "'w api \<Rightarrow> client \<Rightarrow> string \<Rightarrow> string \<Rightarrow> ('w, err option) op" where
  "DeleteAlias A c ns pgmcName =
     (let aliasName = PrimaryAliasName pgmcName
      in do {
        r \<leftarrow> workload_call c (GetService ns aliasName) (api_get_service A c ns aliasName);
        case r of
          Inl e \<Rightarrow> if IsNotFound e then ret None else ret (Some e)
        | Inr svc \<Rightarrow> do {
            w \<leftarrow> workload_call c (DeleteService (svc_Namespace svc) (svc_Name svc))
                   (api_delete_service A c (svc_Namespace svc) (svc_Name svc));
            ret (err_of w)
          }
      })"

section \<open>The managers' contract\<close>

text \<open>The requests of the alias manager: the Service and the Endpoints in the standby's namespace.\<close>

fun alias_request :: "AliasPlan \<Rightarrow> request \<Rightarrow> bool" where
  "alias_request plan (GetService ns n) =
     (ns = al_StandbyNS plan \<and> n = PrimaryAliasName (al_PostgresMCName plan))"
| "alias_request plan (CreateService svc) =
     (svc_Namespace svc = al_StandbyNS plan \<and> svc_Name svc = PrimaryAliasName (al_PostgresMCName plan))"
| "alias_request plan (UpdateService svc) = (svc_ExternalName svc = al_PrimaryHost plan)"
| "alias_request plan (GetEndpoints ns n) =
     (ns = al_StandbyNS plan \<and> n = PrimaryAliasName (al_PostgresMCName plan))"
| "alias_request plan (CreateEndpoints ep) =
     (ep = alias_endpoints plan (PrimaryAliasName (al_PostgresMCName plan)))"
| "alias_request plan (UpdateEndpoints ep) =
     (ep_Subsets ep = ep_Subsets (alias_endpoints plan (PrimaryAliasName (al_PostgresMCName plan))))"
| "alias_request plan _ = False"

definition EnsurePrimaryAlias_on :: "'w api \<Rightarrow> client \<Rightarrow> AliasPlan \<Rightarrow> ('w, err option) op" where
  "EnsurePrimaryAlias_on A c plan = EnsurePrimaryAlias A (plan\<lparr>al_StandbyClient := c\<rparr>)"

lemma EnsurePrimaryAlias_on_self: "EnsurePrimaryAlias A plan = EnsurePrimaryAlias_on A (al_StandbyClient plan) plan"
  by (simp add: EnsurePrimaryAlias_on_def)

lemmas alias_op_defs = EnsurePrimaryAlias_def ensureExternalName_def ensureHeadlessWithEndpoints_def
  ensureHeadlessService_def ensureEndpoints_def

interpretation alias_manager: cluster_operation EnsurePrimaryAlias_on alias_request "\<lambda>r. r = None"
  by unfold_locales
     (unfold EnsurePrimaryAlias_on_def alias_op_defs Let_def, intro emits_intro,
      auto simp: externalname_service_def headless_service_def alias_endpoints_def)

fun alias_delete_request :: "string \<times> string \<Rightarrow> request \<Rightarrow> bool" where
  "alias_delete_request (ns, pgmcName) (GetService ns' n) = (ns' = ns \<and> n = PrimaryAliasName pgmcName)"
| "alias_delete_request _ (DeleteService _ _) = True"
| "alias_delete_request _ _ = False"

interpretation alias_deleter: cluster_operation "\<lambda>A c (ns, pgmcName). DeleteAlias A c ns pgmcName"
    alias_delete_request "\<lambda>r. r = None"
  by unfold_locales (clarsimp, unfold DeleteAlias_def Let_def, intro emits_intro, auto)

section \<open>What the alias resolves to\<close>

text \<open>
  How cluster DNS resolves a Service: an ExternalName Service is a CNAME for its external name,
  a headless one has the addresses of its Endpoints.
\<close>

definition alias_resolves :: "Service option \<Rightarrow> Endpoints option \<Rightarrow> string \<Rightarrow> bool" where
  "alias_resolves svc eps host =
     (case svc of
        None \<Rightarrow> False
      | Some s \<Rightarrow>
          if svc_Type s = ''ExternalName'' then svc_ExternalName s = host
          else svc_ClusterIP s = ''None'' \<and>
               (case eps of None \<Rightarrow> False
                | Some e \<Rightarrow> list_ex (\<lambda>sub. host \<in> set (eps_Addresses sub)) (ep_Subsets e)))"

text \<open>Writing Endpoints does not change Services.\<close>

definition endpoints_keep_services :: "'w api \<Rightarrow> ('w \<Rightarrow> client \<times> string \<times> string \<Rightarrow> Service option) \<Rightarrow> bool" where
  "endpoints_keep_services A view \<longleftrightarrow>
     (\<forall>c ns n w. view (snd (api_get_endpoints A c ns n w)) = view w) \<and>
     (\<forall>c x w. view (snd (api_create_endpoints A c x w)) = view w) \<and>
     (\<forall>c x w. view (snd (api_update_endpoints A c x w)) = view w)"

text \<open>An existing alias of the kind that the host needs.\<close>

definition alias_kind_fits :: "string \<Rightarrow> Service \<Rightarrow> bool" where
  "alias_kind_fits host svc =
     (if is_ip host then svc_Type svc \<noteq> ''ExternalName'' \<and> svc_ClusterIP svc = ''None''
      else svc_Type svc = ''ExternalName'')"

abbreviation alias_key :: "AliasPlan \<Rightarrow> client \<times> string \<times> string" where
  "alias_key plan \<equiv> (al_StandbyClient plan, al_StandbyNS plan, PrimaryAliasName (al_PostgresMCName plan))"

lemma ensureExternalName_stores:
  assumes server: "service_server A view"
    and run: "run_state (ensureExternalName A plan (PrimaryAliasName (al_PostgresMCName plan))) s = (None, s')"
  shows "\<exists>x. view (op_world s') (alias_key plan) = Some x \<and> svc_ExternalName x = al_PrimaryHost plan \<and>
    (case view (op_world s) (alias_key plan) of
       None \<Rightarrow> svc_Type x = ''ExternalName''
     | Some old \<Rightarrow> svc_Type old \<noteq> [] \<longrightarrow> svc_Type x = svc_Type old)"
proof -
  let ?n = "PrimaryAliasName (al_PostgresMCName plan)"
  note laws = server [unfolded service_server_def store_laws_def]
  obtain r w1 where get: "api_get_service A (al_StandbyClient plan) (al_StandbyNS plan) ?n (op_world s) = (r, w1)"
    by fastforce
  note view1 = get_law_view [OF conjunct1 [OF laws] get]
  show ?thesis
  proof (cases r)
    case (Inl e)
    with run get have nf: "IsNotFound e"
      and create: "api_create_service A (al_StandbyClient plan) (externalname_service plan ?n) w1 = (Inr (), op_world s')"
      by (auto simp: ensureExternalName_def workload_call_def Let_def split: if_splits prod.splits)
    from create_law_Inr [OF conjunct1 [OF conjunct2 [OF laws]] create] obtain y where
      "same_service (externalname_service plan ?n) y"
      "view (op_world s') = (view w1)(alias_key plan \<mapsto> y)" "view w1 (alias_key plan) = None"
      by (auto simp: externalname_service_def)
    with view1 show ?thesis by (auto simp: same_service_def externalname_service_def)
  next
    case (Inr existing)
    note got = get_law_Inr [OF conjunct1 [OF laws] get [unfolded Inr]]
    let ?upd = "existing\<lparr>svc_ExternalName := al_PrimaryHost plan, svc_Ports := svc_Ports (externalname_service plan ?n)\<rparr>"
    show ?thesis
    proof (cases "svc_ExternalName existing = al_PrimaryHost plan")
      case True
      with run get Inr have "op_world s' = w1"
        by (auto simp: ensureExternalName_def workload_call_def Let_def)
      with True got view1 show ?thesis by auto
    next
      case False
      with run get Inr have upd: "api_update_service A (al_StandbyClient plan) ?upd w1 = (Inr (), op_world s')"
        by (auto simp: ensureExternalName_def workload_call_def Let_def split: prod.splits)
      from update_law_Inr [OF conjunct2 [OF conjunct2 [OF laws]] upd] got obtain y where
        "same_service ?upd y" "view (op_world s') = (view w1)(alias_key plan \<mapsto> y)" by auto
      with got view1 show ?thesis by (auto simp: same_service_def)
    qed
  qed
qed

lemma ensureHeadlessService_stores:
  assumes server: "service_server A view"
    and run: "run_state (ensureHeadlessService A plan (PrimaryAliasName (al_PostgresMCName plan))) s = (None, s')"
  shows "case view (op_world s) (alias_key plan) of
     None \<Rightarrow> \<exists>x. view (op_world s') (alias_key plan) = Some x \<and> svc_Type x = ''ClusterIP'' \<and> svc_ClusterIP x = ''None''
   | Some old \<Rightarrow> view (op_world s') = view (op_world s)"
proof -
  let ?n = "PrimaryAliasName (al_PostgresMCName plan)"
  note laws = server [unfolded service_server_def store_laws_def]
  obtain r w1 where get: "api_get_service A (al_StandbyClient plan) (al_StandbyNS plan) ?n (op_world s) = (r, w1)"
    by fastforce
  note view1 = get_law_view [OF conjunct1 [OF laws] get]
  show ?thesis
  proof (cases r)
    case (Inl e)
    with run get have nf: "IsNotFound e"
      and create: "api_create_service A (al_StandbyClient plan) (headless_service plan ?n) w1 = (Inr (), op_world s')"
      by (auto simp: ensureHeadlessService_def workload_call_def Let_def split: if_splits prod.splits)
    from create_law_Inr [OF conjunct1 [OF conjunct2 [OF laws]] create] obtain y where
      "same_service (headless_service plan ?n) y"
      "view (op_world s') = (view w1)(alias_key plan \<mapsto> y)" "view w1 (alias_key plan) = None"
      by (auto simp: headless_service_def)
    with view1 show ?thesis by (auto simp: same_service_def headless_service_def)
  next
    case (Inr existing)
    note got = get_law_Inr [OF conjunct1 [OF laws] get [unfolded Inr]]
    from run get Inr have "op_world s' = w1"
      by (auto simp: ensureHeadlessService_def workload_call_def Let_def)
    with got view1 show ?thesis by auto
  qed
qed

lemma ensureEndpoints_stores:
  assumes server: "endpoints_server A view"
    and run: "run_state (ensureEndpoints A plan (PrimaryAliasName (al_PostgresMCName plan))) s = (None, s')"
  shows "\<exists>e. view (op_world s') (alias_key plan) = Some e \<and>
    ep_Subsets e = ep_Subsets (alias_endpoints plan (PrimaryAliasName (al_PostgresMCName plan)))"
proof -
  let ?n = "PrimaryAliasName (al_PostgresMCName plan)"
  note laws = server [unfolded endpoints_server_def store_laws_def]
  obtain r w1 where get: "api_get_endpoints A (al_StandbyClient plan) (al_StandbyNS plan) ?n (op_world s) = (r, w1)"
    by fastforce
  show ?thesis
  proof (cases r)
    case (Inl e)
    with run get have
      create: "api_create_endpoints A (al_StandbyClient plan) (alias_endpoints plan ?n) w1 = (Inr (), op_world s')"
      by (auto simp: ensureEndpoints_def workload_call_def Let_def split: if_splits prod.splits)
    from create_law_Inr [OF conjunct1 [OF conjunct2 [OF laws]] create] obtain y where
      "same_endpoints (alias_endpoints plan ?n) y" "view (op_world s') = (view w1)(alias_key plan \<mapsto> y)"
      by (auto simp: alias_endpoints_def)
    then show ?thesis by (auto simp: same_endpoints_def)
  next
    case (Inr existing)
    note got = get_law_Inr [OF conjunct1 [OF laws] get [unfolded Inr]]
    let ?upd = "existing\<lparr>ep_Subsets := ep_Subsets (alias_endpoints plan ?n)\<rparr>"
    from run get Inr have upd: "api_update_endpoints A (al_StandbyClient plan) ?upd w1 = (Inr (), op_world s')"
      by (auto simp: ensureEndpoints_def workload_call_def Let_def split: prod.splits)
    from update_law_Inr [OF conjunct2 [OF conjunct2 [OF laws]] upd] got obtain y where
      "same_endpoints ?upd y" "view (op_world s') = (view w1)(alias_key plan \<mapsto> y)" by auto
    then show ?thesis by (auto simp: same_endpoints_def)
  qed
qed

lemma ensureEndpoints_keeps_services:
  assumes keep: "endpoints_keep_services A view" and run: "run_state (ensureEndpoints A plan n) s = (r, s')"
  shows "view (op_world s') = view (op_world s)"
proof -
  let ?c = "al_StandbyClient plan"
  obtain g w1 where get: "api_get_endpoints A ?c (al_StandbyNS plan) n (op_world s) = (g, w1)" by fastforce
  have w1: "view w1 = view (op_world s)"
    using keep get unfolding endpoints_keep_services_def by (metis snd_conv)
  have create: "view (snd (api_create_endpoints A ?c x w)) = view w"
    and upd: "view (snd (api_update_endpoints A ?c x w)) = view w" for x w
    using keep unfolding endpoints_keep_services_def by auto
  show ?thesis
  proof (cases g)
    case (Inl e)
    show ?thesis
      using run get w1 Inl create [of "alias_endpoints plan n" w1]
      by (auto simp: ensureEndpoints_def workload_call_def Let_def split: prod.splits if_splits)
  next
    case (Inr x)
    show ?thesis
      using run get w1 Inr upd [of "x\<lparr>ep_Subsets := ep_Subsets (alias_endpoints plan n)\<rparr>" w1]
      by (auto simp: ensureEndpoints_def workload_call_def Let_def split: prod.splits)
  qed
qed

lemma ensureHeadlessWithEndpoints_split:
  assumes "run_state (ensureHeadlessWithEndpoints A plan n) s = (None, s')"
  obtains s1 where "run_state (ensureHeadlessService A plan n) s = (None, s1)"
    "run_state (ensureEndpoints A plan n) s1 = (None, s')"
  using assms by (auto simp: ensureHeadlessWithEndpoints_def split: prod.splits option.splits)

section \<open>Properties\<close>

text \<open>
  C32. When \<open>EnsurePrimaryAlias\<close> reports success, the alias on the standby cluster resolves to
  the primary's host, provided that no alias existed before or the existing one is of the kind
  (ExternalName for a DNS name, headless for an IP address) that the host needs.
\<close>

theorem EnsurePrimaryAlias_resolves:
  assumes servers: "service_server A sview" "endpoints_server A eview" "endpoints_keep_services A sview"
    and before: "case sview (op_world s) (alias_key plan) of
        None \<Rightarrow> True | Some old \<Rightarrow> alias_kind_fits (al_PrimaryHost plan) old"
    and run: "run_state (EnsurePrimaryAlias A plan) s = (None, s')"
  shows "alias_resolves (sview (op_world s') (alias_key plan)) (eview (op_world s') (alias_key plan))
           (al_PrimaryHost plan)"
proof (cases "is_ip (al_PrimaryHost plan)")
  case True
  let ?n = "PrimaryAliasName (al_PostgresMCName plan)"
  from True run obtain s1 where 1: "run_state (ensureHeadlessService A plan ?n) s = (None, s1)"
    and 2: "run_state (ensureEndpoints A plan ?n) s1 = (None, s')"
    by (auto simp: EnsurePrimaryAlias_def elim: ensureHeadlessWithEndpoints_split)
  have "\<exists>x. sview (op_world s1) (alias_key plan) = Some x \<and> svc_Type x \<noteq> ''ExternalName'' \<and> svc_ClusterIP x = ''None''"
    using ensureHeadlessService_stores [OF servers(1) 1] before True
    by (auto simp: alias_kind_fits_def split: option.splits)
  moreover note ensureEndpoints_keeps_services [OF servers(3) 2]
  moreover note ensureEndpoints_stores [OF servers(2) 2]
  ultimately show ?thesis by (auto simp: alias_resolves_def alias_endpoints_def)
next
  case False
  then have "run_state (ensureExternalName A plan (PrimaryAliasName (al_PostgresMCName plan))) s = (None, s')"
    using run by (simp add: EnsurePrimaryAlias_def Let_def)
  from ensureExternalName_stores [OF servers(1) this] before False show ?thesis
    by (auto simp: alias_resolves_def alias_kind_fits_def split: option.splits)
qed


definition sample_alias :: "string \<Rightarrow> AliasPlan" where
  "sample_alias host = \<lparr>al_PostgresMCName = ''db'', al_StandbyClient = 2, al_StandbyNS = ''pg'',
     al_PrimaryHost = host, al_PrimaryPort = 5432\<rparr>"

lemma mem_endpoints_keep_services: "endpoints_keep_services mem_api view_services"
  by (auto simp: endpoints_keep_services_def mem_api_def mem_get_def mem_create_def mem_update_def
      view_services_def split: option.splits)

lemma EnsurePrimaryAlias_resolves_witness:
  "alias_resolves
     (view_services (op_world (snd (run_state (EnsurePrimaryAlias mem_api (sample_alias ''10.0.0.1''))
        (mem_state empty_world)))) (alias_key (sample_alias ''10.0.0.1'')))
     (view_endpoints (op_world (snd (run_state (EnsurePrimaryAlias mem_api (sample_alias ''10.0.0.1''))
        (mem_state empty_world)))) (alias_key (sample_alias ''10.0.0.1''))) ''10.0.0.1''"
proof -
  let ?p = "sample_alias ''10.0.0.1''"
  have run: "run_state (EnsurePrimaryAlias mem_api ?p) (mem_state empty_world) =
      (None, snd (run_state (EnsurePrimaryAlias mem_api ?p) (mem_state empty_world)))"
    by (simp add: alias_op_defs Let_def workload_call_def mem_defs sample_alias_def headless_service_def
        alias_endpoints_def)
  have "view_services (op_world (mem_state empty_world)) (alias_key ?p) = None"
    by (simp add: mem_defs)
  then show ?thesis
    using EnsurePrimaryAlias_resolves [OF mem_service_server mem_endpoints_server mem_endpoints_keep_services _ run]
    by (simp add: sample_alias_def)
qed

text \<open>A standby whose alias points at the DNS name \<open>a.example\<close>.\<close>

definition stale_alias_world :: mem_world where
  "stale_alias_world = empty_world\<lparr>mw_services :=
     [(2, ''pg'', ''db-primary'') \<mapsto> externalname_service (sample_alias ''a.example'') ''db-primary'']\<rparr>"


end
