(* ===== verification/Failover.thy ===== *)
theory Failover
  imports CrossCluster
begin

text \<open>
  The package \<open>internal/failover\<close>: demote the old primary, promote the new one, repoint the
  remaining standbys, update the alias on all standbys, in this order, stopping at the first
  error. A client is an option here: the zero \<open>ResolvedCluster\<close> has a nil client, and a call
  on it panics.
\<close>

section \<open>Plans\<close>

record ResolvedCluster =
  frc_Target :: ClusterTarget
  frc_Client :: "client option"
  frc_Host :: string
  frc_Port :: int32

definition zero_ResolvedCluster :: ResolvedCluster where
  "zero_ResolvedCluster = \<lparr>frc_Target = zero_ClusterTarget, frc_Client = None, frc_Host = [], frc_Port = 0\<rparr>"

record Plan =
  pn_PostgresMC :: PostgresMC
  pn_OldPrimary :: ResolvedCluster
  pn_NewPrimary :: ResolvedCluster
  pn_OtherStandbys :: "ResolvedCluster list"

record FailoverResult =
  fr_NewPrimaryName :: string

section \<open>Steps\<close>

fun outcome_of :: "err + 'a \<Rightarrow> 'a outcome" where
  "outcome_of (Inl e) = Error e"
| "outcome_of (Inr x) = Ok x"

definition applyUnstructured :: "'w api \<Rightarrow> client option \<Rightarrow> unstructured \<Rightarrow> ('w, unit outcome) op" where
  "applyUnstructured A c obj =
     (case c of
        None \<Rightarrow> ret Panics
      | Some c \<Rightarrow> do {
          r \<leftarrow> workload_call c (ApplyPostgresql obj) (api_apply_postgresql A c obj);
          ret (outcome_of r)
        })"

definition demoteCluster ::
  "'w api \<Rightarrow> PostgresMC \<Rightarrow> ResolvedCluster \<Rightarrow> string \<Rightarrow> int32 \<Rightarrow> ('w, unit outcome) op" where
  "demoteCluster A mc target newPrimaryHost newPrimaryPort =
     (case BuildStandby mc (frc_Target target) newPrimaryHost newPrimaryPort of
        Error e \<Rightarrow> ret (Error e)
      | Panics \<Rightarrow> ret Panics
      | Ok obj \<Rightarrow> applyUnstructured A (frc_Client target) obj)"

text \<open>\<open>json.Marshal\<close> of the patch \<open>{"spec":{"standby":null}}\<close>.\<close>

definition remove_standby_patch :: string where
  "remove_standby_patch = marshal (JObject [(''spec'', JObject [(''standby'', JNull)])])"

definition promoteCluster :: "'w api \<Rightarrow> PostgresMC \<Rightarrow> ResolvedCluster \<Rightarrow> ('w, unit outcome) op" where
  "promoteCluster A mc target =
     (case BuildPrimary mc (frc_Target target) of
        Error e \<Rightarrow> ret (Error e)
      | Panics \<Rightarrow> ret Panics
      | Ok obj \<Rightarrow>
          (case frc_Client target of
             None \<Rightarrow> ret Panics
           | Some c \<Rightarrow>
               let ns = ct_Namespace (frc_Target target);
                   name = ClusterName (sp_TeamID (mc_Spec mc)) (ct_Name (frc_Target target))
               in do {
                 r \<leftarrow> workload_call c (GetPostgresql ns name) (api_get_postgresql A c ns name);
                 case r of
                   Inl e \<Rightarrow> applyUnstructured A (Some c) obj
                 | Inr existing \<Rightarrow> do {
                     w \<leftarrow> workload_call c (MergePatchPostgresql existing remove_standby_patch)
                            (api_merge_patch_postgresql A c existing remove_standby_patch);
                     ret (outcome_of w)
                   }
               }))"

definition repoint ::
  "'w api \<Rightarrow> PostgresMC \<Rightarrow> ResolvedCluster \<Rightarrow> string \<Rightarrow> int32 \<Rightarrow> ('w, unit outcome) op" where
  "repoint A mc standby newPrimaryAlias newPrimaryPort =
     (case BuildStandby mc (frc_Target standby) newPrimaryAlias newPrimaryPort of
        Error e \<Rightarrow> ret (Error e)
      | Panics \<Rightarrow> ret Panics
      | Ok obj \<Rightarrow> applyUnstructured A (frc_Client standby) obj)"

primrec repoint_loop ::
  "'w api \<Rightarrow> PostgresMC \<Rightarrow> string \<Rightarrow> int32 \<Rightarrow> ResolvedCluster list \<Rightarrow> ('w, unit outcome) op" where
  "repoint_loop A mc newPrimaryAlias newPrimaryPort [] = ret (Ok ())"
| "repoint_loop A mc newPrimaryAlias newPrimaryPort (standby # standbys) = do {
     r \<leftarrow> repoint A mc standby newPrimaryAlias newPrimaryPort;
     case r of
       Ok _ \<Rightarrow> repoint_loop A mc newPrimaryAlias newPrimaryPort standbys
     | Error e \<Rightarrow> ret (Error (errorf_wrap (''repointing standby '' @ ct_Name (frc_Target standby)) e))
     | Panics \<Rightarrow> ret Panics
   }"

primrec alias_loop ::
  "'w api \<Rightarrow> PostgresMC \<Rightarrow> string \<Rightarrow> int32 \<Rightarrow> ResolvedCluster list \<Rightarrow> ('w, unit outcome) op" where
  "alias_loop A mc newPrimaryHost newPrimaryPort [] = ret (Ok ())"
| "alias_loop A mc newPrimaryHost newPrimaryPort (standby # standbys) =
     (case frc_Client standby of
        None \<Rightarrow> ret Panics
      | Some c \<Rightarrow> do {
          e \<leftarrow> EnsurePrimaryAlias A
                 \<lparr>al_PostgresMCName = mc_Name mc, al_StandbyClient = c,
                  al_StandbyNS = ct_Namespace (frc_Target standby),
                  al_PrimaryHost = newPrimaryHost, al_PrimaryPort = newPrimaryPort\<rparr>;
          case e of
            None \<Rightarrow> alias_loop A mc newPrimaryHost newPrimaryPort standbys
          | Some e \<Rightarrow> ret (Error (errorf_wrap (''updating alias on '' @ ct_Name (frc_Target standby)) e))
        })"

section \<open>The orchestrator\<close>

definition Run :: "'w api \<Rightarrow> Plan \<Rightarrow> ('w, FailoverResult outcome) op" where
  "Run A plan =
     (let mc = pn_PostgresMC plan;
          oldPrimary = pn_OldPrimary plan;
          newPrimary = pn_NewPrimary plan;
          newPrimaryHost = frc_Host newPrimary;
          newPrimaryPort = (if frc_Port newPrimary = 0 then 5432 else frc_Port newPrimary)
      in if newPrimaryHost = [] then
           ret (Error (errorf (''new primary cluster '' @ fmt_q (ct_Name (frc_Target newPrimary)) @
             '' has no resolvable host; set spec.clusters[].externalHost or wait for replication service endpoint discovery'')))
         else do {
           d \<leftarrow> demoteCluster A mc oldPrimary newPrimaryHost newPrimaryPort;
           case d of
             Error e \<Rightarrow> ret (Error (errorf_wrap (''demoting old primary '' @ ct_Name (frc_Target oldPrimary)) e))
           | Panics \<Rightarrow> ret Panics
           | Ok _ \<Rightarrow> do {
               p \<leftarrow> promoteCluster A mc newPrimary;
               case p of
                 Error e \<Rightarrow> ret (Error (errorf_wrap (''promoting new primary '' @ ct_Name (frc_Target newPrimary)) e))
               | Panics \<Rightarrow> ret Panics
               | Ok _ \<Rightarrow> do {
                   r \<leftarrow> repoint_loop A mc (PrimaryAliasFQDN (mc_Name mc) (ct_Namespace (frc_Target newPrimary)))
                          newPrimaryPort (pn_OtherStandbys plan);
                   case r of
                     Error e \<Rightarrow> ret (Error e)
                   | Panics \<Rightarrow> ret Panics
                   | Ok _ \<Rightarrow> do {
                       a \<leftarrow> alias_loop A mc newPrimaryHost newPrimaryPort (pn_OtherStandbys plan @ [oldPrimary]);
                       case a of
                         Error e \<Rightarrow> ret (Error e)
                       | Panics \<Rightarrow> ret Panics
                       | Ok _ \<Rightarrow> ret (Ok \<lparr>fr_NewPrimaryName = ct_Name (frc_Target newPrimary)\<rparr>)
                     }
                 }
             }
         })"

section \<open>Lemmas\<close>

lemma outcome_of_simps [simp]:
  "outcome_of r = Ok x \<longleftrightarrow> r = Inr x" "outcome_of r = Error e \<longleftrightarrow> r = Inl e" "outcome_of r \<noteq> Panics"
  by (cases r, auto)+

text \<open>An apply that returns Ok is one accepted call; one that fails is a rejected call or none.\<close>

definition applied :: "client option \<Rightarrow> unstructured \<Rightarrow> event list \<Rightarrow> bool" where
  "applied c obj es \<longleftrightarrow> (\<exists>c'. c = Some c' \<and> es = [Call c' (ApplyPostgresql obj) None])"

lemma applyUnstructured_emits:
  "emits (applyUnstructured A c obj) (\<lambda>r es. case r of
     Ok _ \<Rightarrow> applied c obj es
   | Error e \<Rightarrow> (\<exists>c'. c = Some c' \<and> es = [Call c' (ApplyPostgresql obj) (Some e)])
   | Panics \<Rightarrow> c = None \<and> es = [])"
  unfolding applyUnstructured_def
  by (intro emits_intro) (auto simp: applied_def split: outcome.split)

lemma demoteCluster_emits:
  "emits (demoteCluster A mc t h p) (\<lambda>r es. case r of
     Ok _ \<Rightarrow> (\<exists>obj. BuildStandby mc (frc_Target t) h p = Ok obj \<and> applied (frc_Client t) obj es)
   | Error e \<Rightarrow> es = [] \<or> (\<exists>c obj. frc_Client t = Some c \<and> BuildStandby mc (frc_Target t) h p = Ok obj \<and>
                            es = [Call c (ApplyPostgresql obj) (Some e)])
   | Panics \<Rightarrow> es = [])"
  unfolding demoteCluster_def
  by (intro emits_intro emits_mono [OF applyUnstructured_emits]) (auto split: outcome.splits)

lemma repoint_demote: "repoint A mc t h p = demoteCluster A mc t h p"
  by (simp add: repoint_def demoteCluster_def)

text \<open>The calls of an accepted promotion.\<close>

definition promoted :: "PostgresMC \<Rightarrow> ResolvedCluster \<Rightarrow> event list \<Rightarrow> bool" where
  "promoted mc t es \<longleftrightarrow>
     (\<exists>c e existing obj. frc_Client t = Some c \<and> BuildPrimary mc (frc_Target t) = Ok obj \<and>
        (let get = GetPostgresql (ct_Namespace (frc_Target t))
                     (ClusterName (sp_TeamID (mc_Spec mc)) (ct_Name (frc_Target t)))
         in es = [Call c get (Some e), Call c (ApplyPostgresql obj) None] \<or>
            es = [Call c get None, Call c (MergePatchPostgresql existing remove_standby_patch) None]))"

lemma promoteCluster_emits:
  "emits (promoteCluster A mc t) (\<lambda>r es. case r of Ok _ \<Rightarrow> promoted mc t es | _ \<Rightarrow> True)"
  unfolding promoteCluster_def Let_def
  by (intro emits_intro emits_mono [OF applyUnstructured_emits])
     (auto simp: promoted_def applied_def split: outcome.splits)

lemma repoint_loop_emits:
  "emits (repoint_loop A mc h p standbys) (\<lambda>r es. case r of
     Ok _ \<Rightarrow> (\<exists>ess. es = concat ess \<and>
       list_all2 (\<lambda>t es. \<exists>obj. BuildStandby mc (frc_Target t) h p = Ok obj \<and> applied (frc_Client t) obj es) standbys ess)
   | _ \<Rightarrow> True)"
proof (induction standbys)
  case Nil
  then show ?case by (auto intro: emits_intro)
next
  case (Cons t standbys)
  show ?case
    unfolding repoint_loop.simps repoint_demote
    apply (rule emits_bind, rule emits_mono [OF demoteCluster_emits], intro emits_intro)
      apply (rule emits_mono [OF Cons.IH])
      apply (simp split: outcome.splits)
      apply (rule concat_list_all2_Cons; blast)
     apply simp_all
    done
qed

definition standby_alias :: "PostgresMC \<Rightarrow> string \<Rightarrow> int32 \<Rightarrow> ResolvedCluster \<Rightarrow> client \<Rightarrow> AliasPlan" where
  "standby_alias mc h p t c =
     \<lparr>al_PostgresMCName = mc_Name mc, al_StandbyClient = c, al_StandbyNS = ct_Namespace (frc_Target t),
      al_PrimaryHost = h, al_PrimaryPort = p\<rparr>"

text \<open>The calls of an alias update on one standby that reported success.\<close>

definition alias_updated :: "PostgresMC \<Rightarrow> string \<Rightarrow> int32 \<Rightarrow> ResolvedCluster \<Rightarrow> event list \<Rightarrow> bool" where
  "alias_updated mc h p t es \<longleftrightarrow>
     (\<exists>c. frc_Client t = Some c \<and> list_all write_accepted es \<and>
        list_all (\<lambda>e. \<exists>rq res. e = Call c rq res \<and> alias_request (standby_alias mc h p t c) rq) es)"

lemma alias_loop_emits:
  "emits (alias_loop A mc h p standbys) (\<lambda>r es. case r of
     Ok _ \<Rightarrow> (\<exists>ess. es = concat ess \<and> list_all2 (alias_updated mc h p) standbys ess)
   | _ \<Rightarrow> True)"
proof (induction standbys)
  case Nil
  then show ?case by (auto intro: emits_intro)
next
  case (Cons t standbys)
  show ?case
    unfolding alias_loop.simps EnsurePrimaryAlias_on_self
    apply (intro emits_case_option)
     apply (rule emits_return, simp)
    apply (rule emits_bind, rule emits_mono [OF alias_manager.op_emits], intro emits_intro)
     apply (rule emits_mono [OF Cons.IH])
     apply (simp split: outcome.splits)
     apply (rule concat_list_all2_Cons)
      apply (force simp: alias_updated_def list_all_iff standby_alias_def)
     apply assumption
    apply simp
    done
qed

text \<open>The host and port under which the new primary is reached.\<close>

definition new_host :: "Plan \<Rightarrow> string" where
  "new_host plan = frc_Host (pn_NewPrimary plan)"

definition new_port :: "Plan \<Rightarrow> int32" where
  "new_port plan = (if frc_Port (pn_NewPrimary plan) = 0 then 5432 else frc_Port (pn_NewPrimary plan))"

definition new_alias :: "Plan \<Rightarrow> string" where
  "new_alias plan =
     PrimaryAliasFQDN (mc_Name (pn_PostgresMC plan)) (ct_Namespace (frc_Target (pn_NewPrimary plan)))"

text \<open>An accepted write of a standby object of the cluster that points at the given upstream.\<close>

definition standby_applied ::
  "PostgresMC \<Rightarrow> string \<Rightarrow> int32 \<Rightarrow> ResolvedCluster \<Rightarrow> event list \<Rightarrow> bool" where
  "standby_applied mc h p t es \<longleftrightarrow>
     (\<exists>obj. BuildStandby mc (frc_Target t) h p = Ok obj \<and> obj_standby obj = Some (standby_section h p) \<and>
        applied (frc_Client t) obj es)"

lemma standby_appliedI:
  "BuildStandby mc (frc_Target t) h p = Ok obj \<Longrightarrow> applied (frc_Client t) obj es \<Longrightarrow> standby_applied mc h p t es"
  by (auto simp: standby_applied_def zalando.standby_points)

lemma standby_appliedD:
  "standby_applied mc h p t es \<Longrightarrow>
   \<exists>c obj. frc_Client t = Some c \<and> Call c (ApplyPostgresql obj) None \<in> set es \<and> obj_standby obj = Some (standby_section h p)"
  by (auto simp: standby_applied_def applied_def)

text \<open>The calls of a failover that succeeds.\<close>

definition failover_trace :: "Plan \<Rightarrow> event list \<Rightarrow> bool" where
  "failover_trace plan es \<longleftrightarrow>
     (\<exists>ds ps rss ass. es = ds @ ps @ concat rss @ concat ass \<and>
       standby_applied (pn_PostgresMC plan) (new_host plan) (new_port plan) (pn_OldPrimary plan) ds \<and>
       promoted (pn_PostgresMC plan) (pn_NewPrimary plan) ps \<and>
       list_all2 (standby_applied (pn_PostgresMC plan) (new_alias plan) (new_port plan)) (pn_OtherStandbys plan) rss \<and>
       list_all2 (alias_updated (pn_PostgresMC plan) (new_host plan) (new_port plan))
         (pn_OtherStandbys plan @ [pn_OldPrimary plan]) ass)"

lemma Run_sequence:
  "emits (Run A plan) (\<lambda>r es. case r of
     Ok res \<Rightarrow> fr_NewPrimaryName res = ct_Name (frc_Target (pn_NewPrimary plan)) \<and> failover_trace plan es
   | _ \<Rightarrow> True)"
proof -
  have repoint: "emits (repoint_loop A mc h p standbys) (\<lambda>r es. case r of
      Ok _ \<Rightarrow> (\<exists>ess. es = concat ess \<and> list_all2 (standby_applied mc h p) standbys ess) | _ \<Rightarrow> True)" for mc h p standbys
    by (rule emits_mono [OF repoint_loop_emits])
       (auto split: outcome.splits elim!: list_all2_mono intro: standby_appliedI)
  show ?thesis
    unfolding Run_def Let_def new_host_def [symmetric] new_port_def [symmetric] new_alias_def [symmetric]
      failover_trace_def
    apply (intro emits_if)
     apply (rule emits_return, simp)
    apply (rule emits_bind, rule emits_mono [OF demoteCluster_emits], rule emits_case_outcome)
      apply (rule emits_bind, rule emits_mono [OF promoteCluster_emits], rule emits_case_outcome)
        apply (rule emits_bind, rule emits_mono [OF repoint], rule emits_case_outcome)
          apply (rule emits_bind, rule emits_mono [OF alias_loop_emits], rule emits_case_outcome)
            apply (rule emits_return)
            apply (fastforce intro: standby_appliedI)
           apply (simp_all add: emits_return)
    done
qed

text \<open>A failover only calls workload clusters: it records no event and does not touch the resource.\<close>

lemma applyUnstructured_calls: "footprint (applyUnstructured A c obj) (\<lambda>e. ev_client e \<noteq> None)"
  unfolding applyUnstructured_def by (intro emits_intro) auto

lemma demoteCluster_calls: "footprint (demoteCluster A mc t h p) (\<lambda>e. ev_client e \<noteq> None)"
  unfolding demoteCluster_def by (intro emits_intro applyUnstructured_calls) auto

lemma promoteCluster_calls: "footprint (promoteCluster A mc t) (\<lambda>e. ev_client e \<noteq> None)"
  unfolding promoteCluster_def Let_def
  by (intro emits_intro emits_mono [OF applyUnstructured_calls]) auto

lemma repoint_loop_calls: "footprint (repoint_loop A mc h p ts) (\<lambda>e. ev_client e \<noteq> None)"
proof (induction ts)
  case Nil
  then show ?case by (auto intro: emits_intro)
next
  case (Cons t ts)
  show ?case
    unfolding repoint_loop.simps repoint_demote
    by (rule emits_bind, rule emits_mono [OF demoteCluster_calls], intro emits_intro emits_mono [OF Cons.IH]) auto
qed

lemma alias_loop_calls: "footprint (alias_loop A mc h p ts) (\<lambda>e. ev_client e \<noteq> None)"
proof (induction ts)
  case Nil
  then show ?case by (auto intro: emits_intro)
next
  case (Cons t ts)
  show ?case
    unfolding alias_loop.simps EnsurePrimaryAlias_on_self
    apply (intro emits_case_option)
     apply (rule emits_return, simp)
    apply (rule emits_bind, rule emits_mono [OF alias_manager.op_emits], intro emits_intro emits_mono [OF Cons.IH])
     apply fastforce+
    done
qed

lemma Run_calls: "footprint (Run A plan) (\<lambda>e. ev_client e \<noteq> None)"
  unfolding Run_def Let_def
  apply (intro emits_if)
   apply (rule emits_return, simp)
  apply (rule emits_bind, rule emits_mono [OF demoteCluster_calls], rule emits_case_outcome)
    apply (rule emits_bind, rule emits_mono [OF promoteCluster_calls], rule emits_case_outcome)
      apply (rule emits_bind, rule emits_mono [OF repoint_loop_calls], rule emits_case_outcome)
        apply (rule emits_bind, rule emits_mono [OF alias_loop_calls], rule emits_case_outcome)
          apply (rule emits_return; fastforce)+
  done

text \<open>What the API server reads in the patch, and what it makes of an object.\<close>

lemma remove_standby_patch_reads:
  "parse_json remove_standby_patch = Inr (JObject [(''spec'', JObject [(''standby'', JNull)])])"
  unfolding remove_standby_patch_def by (rule parse_marshal) (simp_all add: ascii_def byte_def)

definition patched :: "unstructured \<Rightarrow> unstructured" where
  "patched existing =
     (case parse_json remove_standby_patch of
        Inl e \<Rightarrow> existing
      | Inr p \<Rightarrow> json_fields (Some (merge_patch (Some (JObject existing)) p)))"

lemma patched_eq:
  "patched existing = dict_put ''spec'' (JObject (dict_delete ''standby'' (obj_spec existing))) existing"
  by (simp add: patched_def remove_standby_patch_reads obj_spec_def)

section \<open>Properties\<close>

text \<open>
  C2. Demote before promote: the first call of a failover is the write of the standby object
  to the old primary, pointing at the new primary; unless that write is accepted, no other call
  is made to any cluster and the failover fails. So two clusters are never told to be primary.
\<close>

theorem Run_demotes_first:
  "emits (Run A plan) (\<lambda>r es. es = [] \<or>
     (\<exists>c obj res rest. frc_Client (pn_OldPrimary plan) = Some c \<and>
        BuildStandby (pn_PostgresMC plan) (frc_Target (pn_OldPrimary plan)) (new_host plan) (new_port plan) = Ok obj \<and>
        obj_standby obj = Some (standby_section (new_host plan) (new_port plan)) \<and>
        es = Call c (ApplyPostgresql obj) res # rest \<and>
        (res = None \<or> rest = [] \<and> (\<exists>e. r = Error e))))"
proof -
  have rest: "emits m (\<lambda>r es'. Q r (Call c (ApplyPostgresql obj) None # es'))"
    if "emits m (\<lambda>r es'. True)" "\<And>r es'. Q r (Call c (ApplyPostgresql obj) None # es')"
    for m :: "('w, 'b) op" and Q c obj
    using that by (auto intro: emits_mono)
  have any: "emits (promoteCluster A mc t) (\<lambda>r es. True)" "emits (repoint_loop A mc h p ts) (\<lambda>r es. True)"
    "emits (alias_loop A mc h p ts) (\<lambda>r es. True)" for mc t h p ts
    by (rule emits_mono [OF promoteCluster_emits] emits_mono [OF repoint_loop_emits] emits_mono [OF alias_loop_emits],
        simp)+
  show ?thesis
    unfolding Run_def Let_def new_host_def [symmetric] new_port_def [symmetric] new_alias_def [symmetric]
    apply (intro emits_if)
     apply (rule emits_return, simp)
    apply (rule emits_bind, rule emits_mono [OF demoteCluster_emits], rule emits_case_outcome)
      apply (clarsimp simp: applied_def)
      apply (intro emits_bind emits_mono [OF any(1)] emits_mono [OF any(2)] emits_mono [OF any(3)]
          emits_case_outcome emits_return)
      apply (auto simp: zalando.standby_points intro!: emits_return)
    done
qed


text \<open>
  The upstream of a repointed standby: after a successful failover every other standby's
  object names the alias in the namespace of the \<^emph>\<open>new primary\<close>, which is the alias that exists
  on the standby's cluster (in the standby's own namespace) only if the two namespaces are the
  same.
\<close>

theorem Run_repoints_to_primary_namespace:
  "emits (Run A plan) (\<lambda>r es. case r of
     Ok res \<Rightarrow> list_all (\<lambda>standby. \<exists>c obj. frc_Client standby = Some c \<and>
         Call c (ApplyPostgresql obj) None \<in> set es \<and>
         obj_standby obj = Some (standby_section (new_alias plan) (new_port plan)) \<and>
         (new_alias plan = PrimaryAliasFQDN (mc_Name (pn_PostgresMC plan)) (ct_Namespace (frc_Target standby)) \<longleftrightarrow>
          ct_Namespace (frc_Target (pn_NewPrimary plan)) = ct_Namespace (frc_Target standby)))
         (pn_OtherStandbys plan)
   | Error e \<Rightarrow> True | Panics \<Rightarrow> True)"
proof -
  have fqdn: "new_alias plan = PrimaryAliasFQDN (mc_Name (pn_PostgresMC plan)) ns \<longleftrightarrow>
      ct_Namespace (frc_Target (pn_NewPrimary plan)) = ns" for ns
    by (simp add: new_alias_def PrimaryAliasFQDN_def)
  show ?thesis
    by (rule emits_mono [OF Run_sequence], clarsimp simp: failover_trace_def split: outcome.splits, drule list_all2_to_list_all,
        erule list.pred_mono_strong) (fastforce simp: fqdn dest!: standby_appliedD)
qed

text \<open>
  Without a resolvable host for the new primary a failover fails before its first call.
\<close>

lemma Run_needs_host:
  assumes "new_host plan = []"
  shows "\<exists>e. run_state (Run A plan) s = (Error e, s)"
  using assms by (simp add: Run_def Let_def new_host_def)


definition sample_plan :: Plan where
  "sample_plan = \<lparr>pn_PostgresMC = sample_mc, pn_OldPrimary = zero_ResolvedCluster,
     pn_NewPrimary = \<lparr>frc_Target = sample_us, frc_Client = Some 2, frc_Host = ''10.0.0.2'', frc_Port = 32432\<rparr>,
     pn_OtherStandbys = []\<rparr>"


text \<open>
  C25. The two ways to promote a cluster agree: the merge patch that is sent for an existing
  object removes its standby section and nothing else, so on the object that made the cluster a
  standby it gives exactly the object that is applied where no object can be read.
\<close>

theorem promotion_ways_agree:
  assumes "BuildStandby mc target host port = Ok standby"
  shows "dict_get (obj_spec (patched existing)) = (dict_get (obj_spec existing))(''standby'' := None) \<and>
    (dict_get (patched existing))(''spec'' := None) = (dict_get existing)(''spec'' := None) \<and>
    BuildPrimary mc target = Ok (patched standby)"
proof -
  from assms obtain d where
    "BuildPrimary mc target = Ok (dict_put ''spec'' (JObject (dict_delete ''standby'' d)) standby)"
    "obj_spec standby = dict_put ''standby'' (standby_section host port) d"
    by (auto simp: BuildPrimary_def BuildStandby_def buildPostgresql_def Let_def obj_spec_def standby_section_def
        split: sum.splits option.splits)
  then show ?thesis
    by (auto simp: patched_eq obj_spec_def fun_eq_iff delete_update_same)
qed

lemma promotion_ways_agree_witness:
  "\<exists>standby. BuildStandby sample_mc sample_us ''h'' 5432 = Ok standby \<and>
     obj_standby standby = Some (standby_section ''h'' 5432) \<and> BuildPrimary sample_mc sample_us = Ok (patched standby)"
proof -
  obtain standby where "BuildStandby sample_mc sample_us ''h'' 5432 = Ok standby"
    by (simp add: BuildStandby_def buildPostgresql_def Let_def sample_mc_def)
  with promotion_ways_agree [OF this] zalando.standby_points [OF this] show ?thesis by blast
qed

end
