(* ===== verification/Helpers.thy ===== *)
theory Helpers
  imports Credentials ReplicationService Failover
begin

text \<open>
  The helpers of \<open>internal/controller\<close>: spec validation, finalizers, roles, the split of the
  reachable clusters by role, and the endpoint strings \<open>host:port\<close> kept in the status.
\<close>

section \<open>Constants\<close>

definition finalizerName :: string where
  "finalizerName = ''pgmc.aurelops.com/finalizer''"

definition requeueDefault :: time where
  "requeueDefault = 30 * 1000000000"

definition requeueProgress :: time where
  "requeueProgress = 10 * 1000000000"

section \<open>Spec validation\<close>

primrec validateSpec_loop :: "ClusterTarget list \<Rightarrow> nat \<Rightarrow> string list \<Rightarrow> err + nat" where
  "validateSpec_loop [] primaryCount names = Inr primaryCount"
| "validateSpec_loop (c # cs) primaryCount names =
     (let primaryCount' = (if ct_Role c = ClusterRolePrimary then primaryCount + 1 else primaryCount)
      in if ct_Name c \<in> set names then Inl (errorf (''duplicate cluster name '' @ fmt_q (ct_Name c)))
         else validateSpec_loop cs primaryCount' (ct_Name c # names))"

definition validateSpec :: "PostgresMC \<Rightarrow> err option" where
  "validateSpec mc =
     (case validateSpec_loop (sp_Clusters (mc_Spec mc)) 0 [] of
        Inl e \<Rightarrow> Some e
      | Inr primaryCount \<Rightarrow>
          if primaryCount \<noteq> 1
          then Some (errorf (''exactly one cluster must have role=primary, found '' @ show_nat primaryCount))
          else None)"

section \<open>Clusters by role\<close>

record resolvedCluster =
  rcl_Target :: ClusterTarget
  rcl_Client :: client

primrec splitByRole_loop ::
  "resolvedCluster list \<Rightarrow> resolvedCluster option \<Rightarrow> resolvedCluster list \<Rightarrow>
   resolvedCluster option \<times> resolvedCluster list" where
  "splitByRole_loop [] primary standbys = (primary, standbys)"
| "splitByRole_loop (rc # rcs) primary standbys =
     (if ct_Role (rcl_Target rc) = ClusterRolePrimary then splitByRole_loop rcs (Some rc) standbys
      else splitByRole_loop rcs primary (standbys @ [rc]))"

definition splitByRole :: "resolvedCluster list \<Rightarrow> resolvedCluster option \<times> resolvedCluster list" where
  "splitByRole cls = splitByRole_loop cls None []"

primrec primaryName :: "ClusterTarget list \<Rightarrow> string" where
  "primaryName [] = []"
| "primaryName (c # cs) = (if ct_Role c = ClusterRolePrimary then ct_Name c else primaryName cs)"

definition primaryClusterName :: "PostgresMC \<Rightarrow> string" where
  "primaryClusterName mc = primaryName (sp_Clusters (mc_Spec mc))"

section \<open>Finalizers\<close>

definition containsFinalizer :: "PostgresMC \<Rightarrow> string \<Rightarrow> bool" where
  "containsFinalizer mc name = list_ex (\<lambda>f. f = name) (mc_Finalizers mc)"

definition removeFinalizer :: "string list \<Rightarrow> string \<Rightarrow> string list" where
  "removeFinalizer finalizers name = filter (\<lambda>f. f \<noteq> name) finalizers"

section \<open>Endpoints in the status\<close>

record clusterEndpoint =
  ept_Host :: string
  ept_Port :: int32

definition zero_clusterEndpoint :: clusterEndpoint where
  "zero_clusterEndpoint = \<lparr>ept_Host = [], ept_Port = 0\<rparr>"

primrec set_endpoint :: "ClusterStatus list \<Rightarrow> string \<Rightarrow> string \<Rightarrow> ClusterStatus list" where
  "set_endpoint [] clusterName endpoint = []"
| "set_endpoint (cs # rest) clusterName endpoint =
     (if cs_Name cs = clusterName then cs\<lparr>cs_Endpoint := endpoint\<rparr> # rest
      else cs # set_endpoint rest clusterName endpoint)"

definition updateClusterEndpoint :: "PostgresMC \<Rightarrow> string \<Rightarrow> string \<Rightarrow> PostgresMC" where
  "updateClusterEndpoint mc clusterName endpoint =
     mc_set_Clusters (set_endpoint (st_Clusters (mc_Status mc)) clusterName endpoint) mc"

definition format_endpoint :: "string \<Rightarrow> int32 \<Rightarrow> string" where
  "format_endpoint host port = host @ '':'' @ fmt_d port"

primrec endpoint_loop :: "ClusterStatus list \<Rightarrow> string \<Rightarrow> clusterEndpoint" where
  "endpoint_loop [] clusterName = zero_clusterEndpoint"
| "endpoint_loop (cs # rest) clusterName =
     (if cs_Name cs \<noteq> clusterName \<or> cs_Endpoint cs = [] then endpoint_loop rest clusterName
      else let i = last_index (cs_Endpoint cs) (CHR '':'')
           in if i \<le> 0 then endpoint_loop rest clusterName
              else case atoi (drop (nat i + 1) (cs_Endpoint cs)) of
                     None \<Rightarrow> endpoint_loop rest clusterName
                   | Some p \<Rightarrow>
                       if p = 0 then endpoint_loop rest clusterName
                       else \<lparr>ept_Host = take (nat i) (cs_Endpoint cs), ept_Port = word_of_int p\<rparr>)"

definition clusterEndpointFromStatus :: "PostgresMC \<Rightarrow> string \<Rightarrow> clusterEndpoint" where
  "clusterEndpointFromStatus mc clusterName = endpoint_loop (st_Clusters (mc_Status mc)) clusterName"

section \<open>Cluster statuses\<close>

definition setClusterReady ::
  "PostgresMC \<Rightarrow> string \<Rightarrow> ConditionStatus \<Rightarrow> string \<Rightarrow> string \<Rightarrow> time \<Rightarrow> PostgresMC" where
  "setClusterReady mc clusterName status reason message now =
     mc_set_Clusters (SetClusterCondition (st_Clusters (mc_Status mc)) clusterName ConditionReady status
       (mc_Generation mc) reason message now) mc"

definition ensureClusterStatusRoles :: "PostgresMC \<Rightarrow> PostgresMC" where
  "ensureClusterStatusRoles mc =
     (let targets = sp_Clusters (mc_Spec mc);
          statuses = st_Clusters (mc_Status mc);
          roleByName = fold (\<lambda>c. dict_put (ct_Name c) (ct_Role c)) targets [];
          updated = map (\<lambda>cs. case dict_get roleByName (cs_Name cs) of
                                Some role \<Rightarrow> cs\<lparr>cs_Role := role\<rparr> | None \<Rightarrow> cs) statuses;
          seen = filter (\<lambda>n. dict_get roleByName n \<noteq> None) (map cs_Name statuses);
          added = map (\<lambda>c. zero_ClusterStatus\<lparr>cs_Name := ct_Name c, cs_Role := ct_Role c\<rparr>)
                    (filter (\<lambda>c. ct_Name c \<notin> set seen) targets)
      in mc_set_Clusters (updated @ added) mc)"

section \<open>Lemmas\<close>

text \<open>The specs that the operator accepts: distinct names and exactly one primary.\<close>

definition valid_spec :: "ClusterTarget list \<Rightarrow> bool" where
  "valid_spec cs \<longleftrightarrow>
     distinct (map ct_Name cs) \<and> length (filter (\<lambda>c. ct_Role c = ClusterRolePrimary) cs) = 1"

lemma validateSpec_loop_Inr:
  "validateSpec_loop cs n names = Inr k \<longleftrightarrow>
     distinct (map ct_Name cs) \<and> set (map ct_Name cs) \<inter> set names = {} \<and>
     k = n + length (filter (\<lambda>c. ct_Role c = ClusterRolePrimary) cs)"
  by (induction cs arbitrary: n names) (auto simp: Let_def)

lemma validateSpec_None: "validateSpec mc = None \<longleftrightarrow> valid_spec (sp_Clusters (mc_Spec mc))"
proof (cases "validateSpec_loop (sp_Clusters (mc_Spec mc)) 0 []")
  case (Inl e)
  then have "\<not> distinct (map ct_Name (sp_Clusters (mc_Spec mc)))"
    using validateSpec_loop_Inr [of "sp_Clusters (mc_Spec mc)" 0 "[]"] by fastforce
  with Inl show ?thesis by (simp add: validateSpec_def valid_spec_def)
next
  case (Inr k)
  with validateSpec_loop_Inr [of "sp_Clusters (mc_Spec mc)" 0 "[]" k] show ?thesis
    by (auto simp: validateSpec_def valid_spec_def)
qed

lemma valid_spec_primary:
  assumes "valid_spec cs"
  obtains p where "filter (\<lambda>c. ct_Role c = ClusterRolePrimary) cs = [p]" "p \<in> set cs" "ct_Role p = ClusterRolePrimary"
proof -
  from assms obtain p where p: "filter (\<lambda>c. ct_Role c = ClusterRolePrimary) cs = [p]"
    by (auto simp: valid_spec_def length_Suc_conv)
  then have "p \<in> set (filter (\<lambda>c. ct_Role c = ClusterRolePrimary) cs)" by simp
  then have "p \<in> set cs" "ct_Role p = ClusterRolePrimary" by simp_all
  then show ?thesis by (rule that [OF p])
qed

lemma primaryName_filter:
  "primaryName cs = (case filter (\<lambda>c. ct_Role c = ClusterRolePrimary) cs of [] \<Rightarrow> [] | p # _ \<Rightarrow> ct_Name p)"
  by (induction cs) auto

lemma splitByRole_loop_eq:
  "splitByRole_loop rcs p sts =
     ((case rev (filter (\<lambda>rc. ct_Role (rcl_Target rc) = ClusterRolePrimary) rcs) of [] \<Rightarrow> p | rc # _ \<Rightarrow> Some rc),
      sts @ filter (\<lambda>rc. ct_Role (rcl_Target rc) \<noteq> ClusterRolePrimary) rcs)"
  by (induction rcs arbitrary: p sts) (auto split: list.splits)

lemma splitByRole_standbys: "snd (splitByRole rcs) = filter (\<lambda>rc. ct_Role (rcl_Target rc) \<noteq> ClusterRolePrimary) rcs"
  by (simp add: splitByRole_def splitByRole_loop_eq)

lemma splitByRole_primary:
  assumes "fst (splitByRole rcs) = Some rc"
  shows "rc \<in> set rcs \<and> ct_Role (rcl_Target rc) = ClusterRolePrimary"
proof -
  let ?P = "\<lambda>rc. ct_Role (rcl_Target rc) = ClusterRolePrimary"
  from assms obtain rest where "rev (filter ?P rcs) = rc # rest"
    by (auto simp: splitByRole_def splitByRole_loop_eq split: list.splits)
  then have "rc \<in> set (rev (filter ?P rcs))" by simp
  then show ?thesis by simp
qed

lemma splitByRole_no_primary:
  "fst (splitByRole rcs) = None \<longleftrightarrow> (\<forall>rc \<in> set rcs. ct_Role (rcl_Target rc) \<noteq> ClusterRolePrimary)"
proof -
  let ?P = "\<lambda>rc. ct_Role (rcl_Target rc) = ClusterRolePrimary"
  have "fst (splitByRole rcs) = None \<longleftrightarrow> rev (filter ?P rcs) = []"
    by (simp add: splitByRole_def splitByRole_loop_eq split: list.split)
  then show ?thesis by (simp add: filter_empty_conv)
qed

lemma dict_get_fold_put:
  "distinct (map ct_Name cs) \<Longrightarrow>
   dict_get (fold (\<lambda>c. dict_put (ct_Name c) (ct_Role c)) cs d) n =
     (case find (\<lambda>c. ct_Name c = n) cs of Some c \<Rightarrow> Some (ct_Role c) | None \<Rightarrow> dict_get d n)"
proof (induction cs arbitrary: d)
  case (Cons c cs)
  then have "find (\<lambda>x. ct_Name x = ct_Name c) cs = None" by (simp add: find_key_fresh)
  moreover from Cons have "dict_get (fold (\<lambda>c. dict_put (ct_Name c) (ct_Role c)) (c # cs) d) n =
      (case find (\<lambda>c. ct_Name c = n) cs of Some c' \<Rightarrow> Some (ct_Role c')
       | None \<Rightarrow> if n = ct_Name c then Some (ct_Role c) else dict_get d n)"
    by (simp split: option.split)
  ultimately show ?case by (auto split: option.split)
qed simp

lemma find_target: "distinct (map ct_Name cs) \<Longrightarrow> c \<in> set cs \<Longrightarrow> find (\<lambda>x. ct_Name x = ct_Name c) cs = Some c"
  by (induction cs) auto

text \<open>The role that the spec gives to a cluster name.\<close>

definition role_of :: "ClusterTarget list \<Rightarrow> string \<Rightarrow> ClusterRole option" where
  "role_of cs n = map_option ct_Role (find (\<lambda>c. ct_Name c = n) cs)"

definition set_role :: "ClusterTarget list \<Rightarrow> ClusterStatus \<Rightarrow> ClusterStatus" where
  "set_role cs x = (case role_of cs (cs_Name x) of Some role \<Rightarrow> x\<lparr>cs_Role := role\<rparr> | None \<Rightarrow> x)"

definition new_entry :: "ClusterTarget \<Rightarrow> ClusterStatus" where
  "new_entry c = zero_ClusterStatus\<lparr>cs_Name := ct_Name c, cs_Role := ct_Role c\<rparr>"

lemma role_of_target: "distinct (map ct_Name cs) \<Longrightarrow> c \<in> set cs \<Longrightarrow> role_of cs (ct_Name c) = Some (ct_Role c)"
  by (simp add: role_of_def find_target)

lemma role_of_None: "role_of cs n = None \<longleftrightarrow> n \<notin> ct_Name ` set cs"
  by (auto simp: role_of_def find_None_iff)

lemma set_role_fields [simp]:
  "cs_Name (set_role cs x) = cs_Name x" "cs_Endpoint (set_role cs x) = cs_Endpoint x"
  "cs_Conditions (set_role cs x) = cs_Conditions x" "set_role cs (set_role cs x) = set_role cs x"
  by (simp_all add: set_role_def split: option.split)

lemma new_entry_fields [simp]: "cs_Name (new_entry c) = ct_Name c" "cs_Role (new_entry c) = ct_Role c"
    "cs_Conditions (new_entry c) = []" "cs_Endpoint (new_entry c) = []"
  by (simp_all add: new_entry_def zero_ClusterStatus_def)

lemma set_role_new_entry: "distinct (map ct_Name cs) \<Longrightarrow> c \<in> set cs \<Longrightarrow> set_role cs (new_entry c) = new_entry c"
  by (simp add: set_role_def role_of_target)

lemma ensureClusterStatusRoles_eq:
  assumes "distinct (map ct_Name (sp_Clusters (mc_Spec mc)))"
  shows "ensureClusterStatusRoles mc =
    mc_set_Clusters (map (set_role (sp_Clusters (mc_Spec mc))) (st_Clusters (mc_Status mc)) @
      map new_entry (filter (\<lambda>c. ct_Name c \<notin> cs_Name ` set (st_Clusters (mc_Status mc))) (sp_Clusters (mc_Spec mc)))) mc"
proof -
  let ?cs = "sp_Clusters (mc_Spec mc)"
  have get: "dict_get (fold (\<lambda>c. dict_put (ct_Name c) (ct_Role c)) ?cs []) n = role_of ?cs n" for n
    using assms by (simp add: dict_get_fold_put role_of_def split: option.split)
  have seen: "filter (\<lambda>c. ct_Name c \<notin> set (filter (\<lambda>n. role_of ?cs n \<noteq> None) (map cs_Name xs))) ?cs =
      filter (\<lambda>c. ct_Name c \<notin> cs_Name ` set xs) ?cs" for xs
  proof (rule filter_cong [OF refl])
    fix c assume "c \<in> set ?cs"
    then have "role_of ?cs (ct_Name c) \<noteq> None" using assms by (simp add: role_of_target)
    then show "(ct_Name c \<notin> set (filter (\<lambda>n. role_of ?cs n \<noteq> None) (map cs_Name xs))) = (ct_Name c \<notin> cs_Name ` set xs)"
      by auto
  qed
  show ?thesis
    by (simp only: ensureClusterStatusRoles_def Let_def get seen set_role_def new_entry_def cong: map_cong)
qed

lemma endpoint_loop_set:
  assumes "n \<in> cs_Name ` set cs" "host \<noteq> []" "port \<noteq> 0"
  shows "endpoint_loop (set_endpoint cs n (format_endpoint host port)) n = \<lparr>ept_Host = host, ept_Port = port\<rparr>"
  using assms
proof (induction cs)
  case (Cons c cs)
  have idx: "last_index (host @ CHR '':'' # fmt_d port) (CHR '':'') = int (length host)"
    by (rule last_index_append) (rule fmt_d_no_colon)
  have "sint port \<noteq> 0" using \<open>port \<noteq> 0\<close> by (simp add: signed_eq_0_iff)
  with Cons idx show ?case by (auto simp: format_endpoint_def)
qed simp

lemma endpoint_loop_other:
  "n' \<noteq> n \<Longrightarrow> endpoint_loop (set_endpoint cs n e) n' = endpoint_loop cs n'"
  by (induction cs) (auto simp: Let_def split: option.split)

lemma set_endpoint_fields [simp]:
  "map cs_Name (set_endpoint cs n e) = map cs_Name cs"
  "map cs_Role (set_endpoint cs n e) = map cs_Role cs"
  "map cs_Conditions (set_endpoint cs n e) = map cs_Conditions cs"
  by (induction cs) auto

lemma find_valid_primary:
  "valid_spec cs \<Longrightarrow> \<exists>p \<in> set cs. ct_Role p = ClusterRolePrimary \<and> ct_Name p = primaryName cs"
  by (erule valid_spec_primary) (auto simp: primaryName_filter)

lemma validateSpec_loop_Inl:
  "validateSpec_loop cs k names = Inl e \<Longrightarrow> distinct names \<Longrightarrow>
   \<exists>pre c suf. cs = pre @ c # suf \<and> distinct (rev names @ map ct_Name pre) \<and>
     ct_Name c \<in> set (names @ map ct_Name pre) \<and> e = errorf (''duplicate cluster name '' @ fmt_q (ct_Name c))"
proof (induction cs arbitrary: k names)
  case (Cons c cs)
  show ?case
  proof (cases "ct_Name c \<in> set names")
    case True
    with Cons.prems show ?thesis by (intro exI [of _ "[]"]) (simp add: Let_def)
  next
    case False
    with Cons.prems(1) obtain k where "validateSpec_loop cs k (ct_Name c # names) = Inl e"
      by (simp add: Let_def)
    from Cons.IH [OF this] False Cons.prems(2) obtain pre d suf where
      "cs = pre @ d # suf" "distinct (rev names @ map ct_Name (c # pre))"
      "ct_Name d \<in> set (names @ map ct_Name (c # pre))"
      "e = errorf (''duplicate cluster name '' @ fmt_q (ct_Name d))"
      by auto
    then show ?thesis by (intro exI [of _ "c # pre"] exI [of _ d] exI [of _ suf]) simp
  qed
qed simp

section \<open>Properties\<close>

text \<open>
  C33. Validation accepts exactly the specs with distinct cluster names and one primary. The
  error of a rejected spec names the first cluster whose name was used before it or, when the
  names are distinct, the number of primaries.
\<close>

theorem validateSpec_correct:
  "case validateSpec mc of
     None \<Rightarrow> valid_spec (sp_Clusters (mc_Spec mc))
   | Some e \<Rightarrow>
       if distinct (map ct_Name (sp_Clusters (mc_Spec mc)))
       then (let n = length (filter (\<lambda>c. ct_Role c = ClusterRolePrimary) (sp_Clusters (mc_Spec mc)))
             in n \<noteq> 1 \<and> e = errorf (''exactly one cluster must have role=primary, found '' @ show_nat n))
       else (\<exists>pre c suf. sp_Clusters (mc_Spec mc) = pre @ c # suf \<and> distinct (map ct_Name pre) \<and>
               ct_Name c \<in> ct_Name ` set pre \<and> e = errorf (''duplicate cluster name '' @ fmt_q (ct_Name c)))"
proof (cases "validateSpec_loop (sp_Clusters (mc_Spec mc)) 0 []")
  case (Inl e)
  from validateSpec_loop_Inl [OF this] obtain pre c suf where dup:
    "sp_Clusters (mc_Spec mc) = pre @ c # suf" "distinct (map ct_Name pre)" "ct_Name c \<in> ct_Name ` set pre"
    "e = errorf (''duplicate cluster name '' @ fmt_q (ct_Name c))" by auto
  then have "\<not> distinct (map ct_Name (sp_Clusters (mc_Spec mc)))" by auto
  with Inl dup show ?thesis by (auto simp: validateSpec_def)
next
  case (Inr k)
  with validateSpec_loop_Inr [of "sp_Clusters (mc_Spec mc)" 0 "[]" k] show ?thesis
    by (auto simp: validateSpec_def valid_spec_def Let_def)
qed

text \<open>
  C38. Endpoint round trip: the \<open>host:port\<close> string stored for a cluster that has a status entry
  is read back as the same host and port, for any host (IPv6 addresses with colons included) and
  any port, a port above 32767 or a negative one included; the endpoints of the other clusters
  are not affected.
\<close>

theorem endpoint_roundtrip:
  assumes "n \<in> cs_Name ` set (st_Clusters (mc_Status mc))" and "host \<noteq> []" and "port \<noteq> 0"
  shows "clusterEndpointFromStatus (updateClusterEndpoint mc n (format_endpoint host port)) =
    (clusterEndpointFromStatus mc)(n := \<lparr>ept_Host = host, ept_Port = port\<rparr>)"
  using assms
  by (auto simp: clusterEndpointFromStatus_def updateClusterEndpoint_def endpoint_loop_set endpoint_loop_other)

lemma endpoint_roundtrip_witness:
  "clusterEndpointFromStatus (updateClusterEndpoint (ensureClusterStatusRoles sample_mc) ''eu''
     (format_endpoint ''fd00::1'' 32432)) ''eu'' = \<lparr>ept_Host = ''fd00::1'', ept_Port = 32432\<rparr>"
proof -
  have "''eu'' \<in> cs_Name ` set (st_Clusters (mc_Status (ensureClusterStatusRoles sample_mc)))"
    by (subst ensureClusterStatusRoles_eq) (simp_all add: sample_defs)
  from endpoint_roundtrip [OF this, of "''fd00::1''" 32432] show ?thesis by simp
qed

text \<open>
  C34. After \<open>ensureClusterStatusRoles\<close> every cluster of a valid spec has a status entry, every
  entry of a spec cluster has that cluster's role (so no role is empty), an entry of a cluster
  that is not in the spec stays as it is, the entries that were there keep their order, name, endpoint and conditions, nothing is added for a name that has an
  entry, and a second run changes nothing.
\<close>

theorem ensureClusterStatusRoles_correct:
  assumes "valid_spec (sp_Clusters (mc_Spec mc))"
  shows "let targets = sp_Clusters (mc_Spec mc); old = st_Clusters (mc_Status mc);
             new = st_Clusters (mc_Status (ensureClusterStatusRoles mc))
    in map cs_Name new = map cs_Name old @ filter (\<lambda>n. n \<notin> cs_Name ` set old) (map ct_Name targets) \<and>
       list_all (\<lambda>x. case role_of targets (cs_Name x) of Some role \<Rightarrow> cs_Role x = role | None \<Rightarrow> x \<in> set old) new \<and>
       map (\<lambda>x. (cs_Name x, cs_Endpoint x, cs_Conditions x)) (take (length old) new) =
         map (\<lambda>x. (cs_Name x, cs_Endpoint x, cs_Conditions x)) old \<and>
       ensureClusterStatusRoles (ensureClusterStatusRoles mc) = ensureClusterStatusRoles mc"
proof -
  let ?cs = "sp_Clusters (mc_Spec mc)" and ?old = "st_Clusters (mc_Status mc)"
  from assms have d: "distinct (map ct_Name ?cs)" by (simp add: valid_spec_def)
  note eq = ensureClusterStatusRoles_eq [OF d]
  let ?new = "st_Clusters (mc_Status (ensureClusterStatusRoles mc))"
  have none_missing: "filter (\<lambda>c. ct_Name c \<notin> cs_Name ` set ?new) ?cs = []"
    by (auto simp: eq filter_empty_conv image_Un image_image)
  have "map (set_role ?cs) ?new = ?new"
    using set_role_new_entry [OF d] by (auto simp: eq)
  then have "ensureClusterStatusRoles (ensureClusterStatusRoles mc) = ensureClusterStatusRoles mc"
    using none_missing d by (subst ensureClusterStatusRoles_eq) (simp_all add: eq)
  moreover have "list_all (\<lambda>x. case role_of ?cs (cs_Name x) of Some role \<Rightarrow> cs_Role x = role | None \<Rightarrow> x \<in> set ?old) ?new"
    using role_of_target [OF d] by (auto simp: eq list_all_iff set_role_def split: option.split)
  ultimately show ?thesis
    by (simp add: Let_def eq filter_map o_def)
qed

lemma ensureClusterStatusRoles_correct_witness:
  "map cs_Name (st_Clusters (mc_Status (ensureClusterStatusRoles sample_mc))) = [''eu'', ''us'']"
proof -
  have "valid_spec (sp_Clusters (mc_Spec sample_mc))" by (simp add: valid_spec_def sample_defs)
  from ensureClusterStatusRoles_correct [OF this] show ?thesis by (simp add: Let_def sample_defs)
qed

end
