(* ===== verification/Reconcile_Steps.thy ===== *)
theory Reconcile_Steps
  imports Helpers
begin

text \<open>
  The three steps of a reconcile that touch the workload clusters' postgresql objects and
  credentials (\<open>reconcile_primary.go\<close>, \<open>reconcile_standby.go\<close>, \<open>reconcile_credentials.go\<close>), and
  the traces that they may leave.
\<close>

section \<open>The primary\<close>

primrec credentials_loop ::
  "'w api \<Rightarrow> client \<Rightarrow> string \<Rightarrow> string \<Rightarrow> string list \<Rightarrow> ('w, bool outcome) op" where
  "credentials_loop A c ns clusterName [] = ret (Ok True)"
| "credentials_loop A c ns clusterName (role # roles) =
     (let secretName = SecretName role clusterName
      in do {
        r \<leftarrow> workload_call c (GetSecret ns secretName) (api_get_secret A c ns secretName);
        case r of
          Inl e \<Rightarrow>
            if IsNotFound e then ret (Ok False)
            else ret (Error (errorf_wrap (''checking credential secret '' @ secretName) e))
        | Inr s \<Rightarrow> credentials_loop A c ns clusterName roles
      })"

definition reconcilePrimary :: "'w api \<Rightarrow> PostgresMC \<Rightarrow> resolvedCluster \<Rightarrow> ('w, bool outcome) op" where
  "reconcilePrimary A mc primary =
     (let c = rcl_Client primary; target = rcl_Target primary
      in case BuildPrimary mc target of
           Error e \<Rightarrow> ret (Error (errorf_wrap ''building primary spec'' e))
         | Panics \<Rightarrow> ret Panics
         | Ok obj \<Rightarrow> do {
             r \<leftarrow> workload_call c (ApplyPostgresql obj) (api_apply_postgresql A c obj);
             case r of
               Inl e \<Rightarrow> ret (Error (errorf_wrap ''applying primary postgresql'' e))
             | Inr _ \<Rightarrow>
                 credentials_loop A c (ct_Namespace target)
                   (ClusterName (sp_TeamID (mc_Spec mc)) (ct_Name target)) CredentialRoles
           })"

section \<open>A standby\<close>

definition reconcileStandby ::
  "'w api \<Rightarrow> PostgresMC \<Rightarrow> clusterEndpoint \<Rightarrow> resolvedCluster \<Rightarrow> ('w, unit outcome) op" where
  "reconcileStandby A mc primaryEndpoint standby =
     (let c = rcl_Client standby; target = rcl_Target standby
      in if ept_Host primaryEndpoint = [] then
           ret (Error (errorf (''primary endpoint not yet discovered; cannot configure standby '' @ ct_Name target)))
         else
           let port = (if ept_Port primaryEndpoint = 0 then 5432 else ept_Port primaryEndpoint)
           in do {
             a \<leftarrow> EnsurePrimaryAlias A
                    \<lparr>al_PostgresMCName = mc_Name mc, al_StandbyClient = c, al_StandbyNS = ct_Namespace target,
                     al_PrimaryHost = ept_Host primaryEndpoint, al_PrimaryPort = port\<rparr>;
             case a of
               Some e \<Rightarrow> ret (Error (errorf_wrap (''ensuring primary alias on standby '' @ ct_Name target) e))
             | None \<Rightarrow>
                 (let aliasFQDN = PrimaryAliasFQDN (mc_Name mc) (ct_Namespace target)
                  in case BuildStandby mc target aliasFQDN port of
                       Error e \<Rightarrow> ret (Error (errorf_wrap (''building standby spec for '' @ ct_Name target) e))
                     | Panics \<Rightarrow> ret Panics
                     | Ok obj \<Rightarrow> do {
                         r \<leftarrow> workload_call c (ApplyPostgresql obj) (api_apply_postgresql A c obj);
                         case r of
                           Inl e \<Rightarrow> ret (Error (errorf_wrap (''applying standby postgresql on '' @ ct_Name target) e))
                         | Inr _ \<Rightarrow> ret (Ok ())
                       })
           })"

definition reconcileStandbyTarget ::
  "'w api \<Rightarrow> PostgresMC \<Rightarrow> clusterEndpoint \<Rightarrow> ClusterTarget \<Rightarrow> client \<Rightarrow> ('w, unit outcome) op" where
  "reconcileStandbyTarget A mc primaryEndpoint standby standbyClient =
     reconcileStandby A mc primaryEndpoint \<lparr>rcl_Target = standby, rcl_Client = standbyClient\<rparr>"

section \<open>Credentials\<close>

definition credential_target :: "PostgresMC \<Rightarrow> resolvedCluster \<Rightarrow> StandbyTarget" where
  "credential_target mc s =
     \<lparr>stb_ClusterName = ClusterName (sp_TeamID (mc_Spec mc)) (ct_Name (rcl_Target s)),
      stb_Client = rcl_Client s, stb_Namespace = ct_Namespace (rcl_Target s)\<rparr>"

definition credential_plan :: "PostgresMC \<Rightarrow> resolvedCluster \<Rightarrow> resolvedCluster list \<Rightarrow> SyncPlan" where
  "credential_plan mc primary standbys =
     \<lparr>pl_PostgresMCName = mc_Name mc,
      pl_ClusterName = ClusterName (sp_TeamID (mc_Spec mc)) (ct_Name (rcl_Target primary)),
      pl_PrimaryClient = rcl_Client primary, pl_PrimaryNS = ct_Namespace (rcl_Target primary),
      pl_Standbys = map (credential_target mc) standbys\<rparr>"

primrec sync_events_loop :: "err option dict \<Rightarrow> ('w, unit) op" where
  "sync_events_loop [] = ret ()"
| "sync_events_loop (entry # rest) =
     (case entry of (clusterName, syncErr) \<Rightarrow>
        (case syncErr of
           None \<Rightarrow> sync_events_loop rest
         | Some e \<Rightarrow> do {
             _ \<leftarrow> record_event ''Warning'' ReasonCredsNotReady
                    (''credential sync to '' @ clusterName @ '' failed: '' @ err_msg e);
             sync_events_loop rest
           }))"

definition reconcileCredentials ::
  "'w api \<Rightarrow> PostgresMC \<Rightarrow> resolvedCluster \<Rightarrow> resolvedCluster list \<Rightarrow> ('w, err option) op" where
  "reconcileCredentials A mc primary standbys = do {
     r \<leftarrow> SyncFromPrimary A (credential_plan mc primary standbys);
     case r of
       Inl e \<Rightarrow> ret (Some (errorf_wrap ''credential sync'' e))
     | Inr result \<Rightarrow>
         if HasErrors result then do {
           _ \<leftarrow> sync_events_loop (sr_PerCluster result);
           ret (Some (errorf ''credential sync had errors (see events)''))
         }
         else ret None
   }"

section \<open>Traces\<close>

text \<open>
  \<open>preceded P Q es\<close>: no event of kind \<open>Q\<close> occurs before the first event of kind \<open>P\<close>, that is,
  every \<open>Q\<close> has a \<open>P\<close> before it.
\<close>

fun preceded :: "(event \<Rightarrow> bool) \<Rightarrow> (event \<Rightarrow> bool) \<Rightarrow> event list \<Rightarrow> bool" where
  "preceded P Q [] = True"
| "preceded P Q (e # es) = (\<not> Q e \<and> (P e \<or> preceded P Q es))"

lemma preceded_iff: "preceded P Q es \<longleftrightarrow> (\<forall>pre e post. es = pre @ e # post \<and> Q e \<longrightarrow> list_ex P pre)"
proof (induction es)
  case (Cons x es)
  show ?case
  proof
    assume "preceded P Q (x # es)"
    with Cons.IH show "\<forall>pre e post. x # es = pre @ e # post \<and> Q e \<longrightarrow> list_ex P pre"
      by (auto simp: Cons_eq_append_conv)
  next
    assume all: "\<forall>pre e post. x # es = pre @ e # post \<and> Q e \<longrightarrow> list_ex P pre"
    have "\<not> Q x" using all [rule_format, of "[]" x es] by auto
    moreover have "P x \<or> list_ex P pre" if "es = pre @ e # post" "Q e" for pre e post
      using all [rule_format, of "x # pre" e post] that by simp
    ultimately show "preceded P Q (x # es)" using Cons.IH by auto
  qed
qed simp

lemma preceded_none [simp]: "\<forall>e \<in> set es. \<not> Q e \<Longrightarrow> preceded P Q es"
  by (induction es) auto

lemma preceded_append:
  "preceded P Q es \<Longrightarrow> preceded P Q es' \<or> list_ex P es \<Longrightarrow> preceded P Q (es @ es')"
  by (induction es) auto

text \<open>The two kinds of postgresql object, as the accepted or attempted writes of a trace.\<close>

fun ev_apply :: "event \<Rightarrow> unstructured option" where
  "ev_apply (Call c (ApplyPostgresql obj) e) = Some obj"
| "ev_apply _ = None"

definition applies_standby :: "event \<Rightarrow> bool" where
  "applies_standby e = (case ev_apply e of Some obj \<Rightarrow> obj_standby obj \<noteq> None | None \<Rightarrow> False)"

definition applied_primary :: "event \<Rightarrow> bool" where
  "applied_primary e = (case ev_apply e of Some obj \<Rightarrow> obj_standby obj = None \<and> \<not> ev_failed e | None \<Rightarrow> False)"

lemma applies_standby_simps [simp]:
  "applies_standby (Call c (ApplyPostgresql obj) e) = (obj_standby obj \<noteq> None)"
  "applied_primary (Call c (ApplyPostgresql obj) e) = (obj_standby obj = None \<and> e = None)"
  "\<not> applies_standby (TechCall trq e)" "\<not> applies_standby (Recorded t r m)"
  "\<not> applied_primary (TechCall trq e)" "\<not> applied_primary (Recorded t r m)"
  by (simp_all add: applies_standby_def applied_primary_def)

lemma ev_apply_None [simp]:
  "secret_request rq \<Longrightarrow> ev_apply (Call c rq e) = None"
  "alias_request plan rq \<Longrightarrow> ev_apply (Call c rq e) = None"
  "replication_request x rq \<Longrightarrow> ev_apply (Call c rq e) = None"
  by (cases x, cases rq; simp)+

lemma no_apply [simp]: "ev_apply e = None \<Longrightarrow> \<not> applies_standby e \<and> \<not> applied_primary e"
  by (simp add: applies_standby_def applied_primary_def)

section \<open>Lemmas\<close>

text \<open>The read of one credential Secret of a cluster.\<close>

definition credential_read :: "client \<Rightarrow> string \<Rightarrow> string \<Rightarrow> string \<Rightarrow> err option \<Rightarrow> event" where
  "credential_read c ns clusterName role res = Call c (GetSecret ns (SecretName role clusterName)) res"

lemma credential_read_simps [simp]:
  "ev_apply (credential_read c ns clusterName role res) = None"
  "write_accepted (credential_read c ns clusterName role res)"
  "ev_client (credential_read c ns clusterName role res) = Some c"
  by (simp_all add: credential_read_def)

lemma credentials_loop_emits:
  "emits (credentials_loop A c ns clusterName roles) (\<lambda>r es.
     (\<forall>e \<in> set es. \<exists>role res. e = credential_read c ns clusterName role res) \<and> r \<noteq> Panics \<and>
     (r = Ok True \<longrightarrow> es = map (\<lambda>role. credential_read c ns clusterName role None) roles) \<and>
     (r = Ok False \<longrightarrow> (\<exists>pre role e. es = pre @ [credential_read c ns clusterName role (Some e)] \<and>
        role \<in> set roles \<and> IsNotFound e)))"
proof (induction roles)
  case Nil
  then show ?case by (auto intro: emits_intro)
next
  case (Cons role roles)
  show ?case
    unfolding credentials_loop.simps Let_def credential_read_def
    by (intro emits_intro emits_mono [OF Cons.IH [unfolded credential_read_def]]) (auto simp: Cons_eq_append_conv)
qed

lemma sync_events_loop_emits:
  "emits (sync_events_loop d) (\<lambda>_ es. es =
     map (\<lambda>(n, e). Recorded ''Warning'' ReasonCredsNotReady (''credential sync to '' @ n @ '' failed: '' @ err_msg (the e)))
       (filter (\<lambda>(n, e). e \<noteq> None) d))"
proof (induction d)
  case Nil
  then show ?case by (auto intro: emits_intro)
next
  case (Cons p d)
  show ?case
    unfolding sync_events_loop.simps
    by (intro emits_intro emits_mono [OF Cons.IH]) auto
qed

abbreviation primary_zname :: "PostgresMC \<Rightarrow> ClusterTarget \<Rightarrow> string" where
  "primary_zname mc target \<equiv> ClusterName (sp_TeamID (mc_Spec mc)) (ct_Name target)"

text \<open>The reads behind a verdict: all credential Secrets were read, or the last read found none.\<close>

definition credentials_verdict :: "client \<Rightarrow> string \<Rightarrow> string \<Rightarrow> bool \<Rightarrow> event list \<Rightarrow> bool" where
  "credentials_verdict c ns clusterName ready reads \<longleftrightarrow>
     (if ready then reads = map (\<lambda>role. credential_read c ns clusterName role None) CredentialRoles
      else (\<exists>pre role e. reads = pre @ [credential_read c ns clusterName role (Some e)] \<and>
              role \<in> set CredentialRoles \<and> IsNotFound e))"

lemma credentials_loop_verdict:
  "emits (credentials_loop A c ns clusterName CredentialRoles) (\<lambda>r es.
     (\<forall>e \<in> set es. \<exists>role res. e = credential_read c ns clusterName role res) \<and> r \<noteq> Panics \<and>
     (\<forall>ready. r = Ok ready \<longrightarrow> credentials_verdict c ns clusterName ready es))"
  by (rule emits_mono [OF credentials_loop_emits]) (auto simp: credentials_verdict_def)

lemma reconcilePrimary_emits:
  "emits (reconcilePrimary A mc rc) (\<lambda>r es.
     let c = rcl_Client rc; t = rcl_Target rc in
     es = [] \<and> (r = Panics \<or> (\<exists>e. r = Error e)) \<or>
     (\<exists>obj res reads. BuildPrimary mc t = Ok obj \<and> es = Call c (ApplyPostgresql obj) res # reads \<and> r \<noteq> Panics \<and>
        (\<forall>e \<in> set reads. \<exists>role res. e = credential_read c (ct_Namespace t) (primary_zname mc t) role res) \<and>
        (res \<noteq> None \<longrightarrow> reads = [] \<and> (\<exists>e. r = Error e)) \<and>
        (\<forall>ready. r = Ok ready \<longrightarrow> credentials_verdict c (ct_Namespace t) (primary_zname mc t) ready reads)))"
  unfolding reconcilePrimary_def Let_def
  by (intro emits_intro emits_mono [OF credentials_loop_verdict]) auto

definition standby_plan :: "PostgresMC \<Rightarrow> clusterEndpoint \<Rightarrow> resolvedCluster \<Rightarrow> AliasPlan" where
  "standby_plan mc ep rc =
     \<lparr>al_PostgresMCName = mc_Name mc, al_StandbyClient = rcl_Client rc, al_StandbyNS = ct_Namespace (rcl_Target rc),
      al_PrimaryHost = ept_Host ep, al_PrimaryPort = (if ept_Port ep = 0 then 5432 else ept_Port ep)\<rparr>"

definition standby_upstream :: "PostgresMC \<Rightarrow> clusterEndpoint \<Rightarrow> resolvedCluster \<Rightarrow> json" where
  "standby_upstream mc ep rc =
     standby_section (PrimaryAliasFQDN (mc_Name mc) (ct_Namespace (rcl_Target rc)))
       (if ept_Port ep = 0 then 5432 else ept_Port ep)"

text \<open>
  The trace of \<open>reconcileStandby\<close>: the alias calls \<open>as\<close>, and only after they succeeded the apply
  of the standby object, on whose outcome the result depends.
\<close>

definition standby_trace ::
  "PostgresMC \<Rightarrow> clusterEndpoint \<Rightarrow> resolvedCluster \<Rightarrow> unit outcome \<Rightarrow> event list \<Rightarrow> bool" where
  "standby_trace mc ep rc r es \<longleftrightarrow> (\<exists>as app. es = as @ app \<and>
     (\<forall>e \<in> set as. \<exists>rq res. e = Call (rcl_Client rc) rq res \<and> alias_request (standby_plan mc ep rc) rq) \<and>
     (app = [] \<and> r \<noteq> Ok () \<or>
      (\<exists>obj res. app = [Call (rcl_Client rc) (ApplyPostgresql obj) res] \<and> list_all write_accepted as \<and>
         obj_standby obj = Some (standby_upstream mc ep rc) \<and> (r = Ok () \<longleftrightarrow> res = None))))"

lemma standby_trace_alias:
  "\<forall>e \<in> set es. \<exists>rq res. e = Call (rcl_Client rc) rq res \<and> alias_request (standby_plan mc ep rc) rq \<Longrightarrow>
   r \<noteq> Ok () \<Longrightarrow> standby_trace mc ep rc r es"
  unfolding standby_trace_def by (intro exI [of _ es] exI [of _ "[]"]) simp

lemma standby_trace_apply:
  "\<forall>e \<in> set as. \<exists>rq res. e = Call (rcl_Client rc) rq res \<and> alias_request (standby_plan mc ep rc) rq \<Longrightarrow>
   \<forall>e \<in> set as. write_accepted e \<Longrightarrow>
   BuildStandby mc (rcl_Target rc) (PrimaryAliasFQDN (mc_Name mc) (ct_Namespace (rcl_Target rc)))
     (if ept_Port ep = 0 then 5432 else ept_Port ep) = Ok obj \<Longrightarrow>
   (r = Ok () \<longleftrightarrow> res = None) \<Longrightarrow>
   standby_trace mc ep rc r (as @ [Call (rcl_Client rc) (ApplyPostgresql obj) res])"
  unfolding standby_trace_def
  by (intro exI [of _ "as"] exI [of _ "[Call (rcl_Client rc) (ApplyPostgresql obj) res]"]) 
     (simp add: list_all_iff standby_upstream_def zalando.standby_points)

lemma standby_trace_nil: "r \<noteq> Ok () \<Longrightarrow> standby_trace mc ep rc r []"
  by (rule standby_trace_alias) simp_all

lemma standby_plan_client [simp]: "al_StandbyClient (standby_plan mc ep rc) = rcl_Client rc"
  by (simp add: standby_plan_def)

lemma reconcileStandby_emits: "emits (reconcileStandby A mc ep rc) (standby_trace mc ep rc)"
  unfolding reconcileStandby_def Let_def EnsurePrimaryAlias_on_self standby_plan_def [symmetric] standby_plan_client
  apply (intro emits_if)
   apply (rule emits_return, rule standby_trace_nil, simp)
  apply (rule emits_bind, rule emits_mono [OF alias_manager.op_emits], intro emits_intro)
      apply (auto intro: standby_trace_alias standby_trace_apply)
  done

lemma reconcileCredentials_footprint:
  "footprint (reconcileCredentials A mc p sts) (\<lambda>e. sync_event (credential_plan mc p sts) e \<or>
     (\<exists>msg. e = Recorded ''Warning'' ReasonCredsNotReady msg))"
  unfolding reconcileCredentials_def
  by (rule emits_bind, rule emits_mono [OF SyncFromPrimary_footprint], intro emits_intro
      emits_mono [OF sync_events_loop_emits]) auto

lemma HasErrors_filter: "HasErrors r \<longleftrightarrow> filter (\<lambda>(n, e). e \<noteq> None) (sr_PerCluster r) \<noteq> []"
  by (auto simp: HasErrors_def list_ex_iff filter_empty_conv)

lemma ClusterName_inj [simp]: "ClusterName team a = ClusterName team b \<longleftrightarrow> a = b"
  by (simp add: ClusterName_def)

lemma credential_plan_distinct:
  "distinct (map (\<lambda>s. ct_Name (rcl_Target s)) sts) \<Longrightarrow>
   distinct (map stb_ClusterName (pl_Standbys (credential_plan mc p sts)))"
  by (simp add: credential_plan_def credential_target_def distinct_map o_def inj_on_def)

section \<open>Properties\<close>

text \<open>
  The verdict of \<open>reconcilePrimary\<close>: "ready" means that the primary object (without a
  standby section) was applied and every credential Secret of the cluster was then read; "not
  ready" means that the apply was accepted and some credential Secret is not there; in every
  case the apply is the only write, and nothing is read unless it was accepted.
\<close>

theorem reconcilePrimary_verdict:
  "emits (reconcilePrimary A mc rc) (\<lambda>r es.
     let c = rcl_Client rc; t = rcl_Target rc; zname = ClusterName (sp_TeamID (mc_Spec mc)) (ct_Name t) in
     list_all (\<lambda>e. ev_client e = Some c) es \<and> length (filter ev_workload_write es) \<le> 1 \<and>
     (case r of
        Ok ready \<Rightarrow> \<exists>obj reads. obj_standby obj = None \<and> es = Call c (ApplyPostgresql obj) None # reads \<and>
          credentials_verdict c (ct_Namespace t) zname ready reads
      | Error e \<Rightarrow> case es of [] \<Rightarrow> True | apply # reads \<Rightarrow> ev_apply apply \<noteq> None \<and> (reads = [] \<or> applied_primary apply)
      | Panics \<Rightarrow> es = []))"
proof (rule emits_mono [OF reconcilePrimary_emits], unfold Let_def, elim disjE exE conjE)
  fix r es obj res reads
  assume es: "es = Call (rcl_Client rc) (ApplyPostgresql obj) res # reads"
    and reads: "\<forall>e \<in> set reads. \<exists>role res. e = credential_read (rcl_Client rc) (ct_Namespace (rcl_Target rc))
      (primary_zname mc (rcl_Target rc)) role res"
    and r: "r \<noteq> Panics" "res \<noteq> None \<longrightarrow> reads = [] \<and> (\<exists>e. r = Error e)"
      "\<forall>ready. r = Ok ready \<longrightarrow> credentials_verdict (rcl_Client rc) (ct_Namespace (rcl_Target rc))
         (primary_zname mc (rcl_Target rc)) ready reads"
    and obj: "BuildPrimary mc (rcl_Target rc) = Ok obj"
  have "filter ev_workload_write reads = []" "\<forall>e \<in> set reads. ev_client e = Some (rcl_Client rc)"
    using reads by (auto simp: filter_empty_conv credential_read_def)
  moreover have "obj_standby obj = None" using obj by (rule zalando.primary_no_standby)
  ultimately show "list_all (\<lambda>e. ev_client e = Some (rcl_Client rc)) es \<and> length (filter ev_workload_write es) \<le> 1 \<and>
     (case r of
        Ok ready \<Rightarrow> \<exists>obj reads. obj_standby obj = None \<and> es = Call (rcl_Client rc) (ApplyPostgresql obj) None # reads \<and>
          credentials_verdict (rcl_Client rc) (ct_Namespace (rcl_Target rc)) (primary_zname mc (rcl_Target rc)) ready reads
      | Error e \<Rightarrow> case es of [] \<Rightarrow> True | apply # reads \<Rightarrow> ev_apply apply \<noteq> None \<and> (reads = [] \<or> applied_primary apply)
      | Panics \<Rightarrow> es = [])"
    using es r by (cases res) (auto simp: list_all_iff split: outcome.split)
qed auto

text \<open>
  A standby is configured alias first: \<open>reconcileStandby\<close> applies the standby object only
  after every write of the alias was accepted, the object's upstream is the alias of the standby's
  own namespace (no address of another cluster enters the object), and success means that the
  apply was accepted.
\<close>

theorem reconcileStandby_alias_first:
  "emits (reconcileStandby A mc ep rc) (\<lambda>r es.
     list_all (\<lambda>e. ev_client e = Some (rcl_Client rc)) es \<and>
     (case find (\<lambda>e. ev_apply e \<noteq> None) es of
        None \<Rightarrow> r \<noteq> Ok ()
      | Some app \<Rightarrow> map_option obj_standby (ev_apply app) =
            Some (Some (standby_section (PrimaryAliasFQDN (mc_Name mc) (ct_Namespace (rcl_Target rc)))
              (if ept_Port ep = 0 then 5432 else ept_Port ep))) \<and>
          last es = app \<and> list_all write_accepted (butlast es) \<and> (r = Ok () \<longleftrightarrow> \<not> ev_failed app)))"
proof (rule emits_mono [OF reconcileStandby_emits])
  fix r es assume "standby_trace mc ep rc r es"
  then obtain as' app where es: "es = as' @ app"
    and as': "\<forall>e \<in> set as'. \<exists>rq res. e = Call (rcl_Client rc) rq res \<and> alias_request (standby_plan mc ep rc) rq"
    and app: "app = [] \<and> r \<noteq> Ok () \<or>
      (\<exists>obj res. app = [Call (rcl_Client rc) (ApplyPostgresql obj) res] \<and> list_all write_accepted as' \<and>
         obj_standby obj = Some (standby_upstream mc ep rc) \<and> (r = Ok () \<longleftrightarrow> res = None))"
    unfolding standby_trace_def by blast
  from as' have no: "find (\<lambda>e. ev_apply e \<noteq> None) as' = None"
    by (fastforce simp: find_None_iff)
  have step: "find P (xs @ [y]) = (case find P xs of None \<Rightarrow> if P y then Some y else None | Some x \<Rightarrow> Some x)"
    for P and xs :: "event list" and y by (induction xs) auto
  from as' have own: "\<forall>e \<in> set es. ev_client e = Some (rcl_Client rc)" using app es by auto
  show "list_all (\<lambda>e. ev_client e = Some (rcl_Client rc)) es \<and>
     (case find (\<lambda>e. ev_apply e \<noteq> None) es of
        None \<Rightarrow> r \<noteq> Ok ()
      | Some app \<Rightarrow> map_option obj_standby (ev_apply app) =
            Some (Some (standby_section (PrimaryAliasFQDN (mc_Name mc) (ct_Namespace (rcl_Target rc)))
              (if ept_Port ep = 0 then 5432 else ept_Port ep))) \<and>
          last es = app \<and> list_all write_accepted (butlast es) \<and> (r = Ok () \<longleftrightarrow> \<not> ev_failed app))"
    using app own no by (auto simp: es step standby_upstream_def list_all_iff)
qed

text \<open>
  The credential sync of the reconciler reports success only when every write it made on a
  standby was accepted, and then records no warning; when it reports errors per standby it has
  recorded at least one warning event for the user.
\<close>

theorem reconcileCredentials_reports:
  assumes "distinct (map (\<lambda>s. ct_Name (rcl_Target s)) standbys)"
  shows "emits (reconcileCredentials A mc primary standbys) (\<lambda>r es. case r of
     None \<Rightarrow> list_all (\<lambda>e. write_accepted e \<and> sync_event (credential_plan mc primary standbys) e) es
   | Some e \<Rightarrow> e \<noteq> errorf ''credential sync had errors (see events)'' \<or>
       list_ex (\<lambda>e. case e of Recorded t reason msg \<Rightarrow> t = ''Warning'' \<and> reason = ReasonCredsNotReady | _ \<Rightarrow> False) es)"
  unfolding reconcileCredentials_def
  apply (rule emits_bind, rule emits_mono [OF emits_conj [OF SyncFromPrimary_footprint
        SyncFromPrimary_accepted [OF credential_plan_distinct [OF assms]]]], intro emits_intro)
    apply (simp add: errorf_def errorf_wrap_def)
   apply (rule emits_mono [OF sync_events_loop_emits], intro emits_intro)
   apply (auto simp: HasErrors_filter list_all_iff neq_Nil_conv)
  done

definition sample_primary :: resolvedCluster where
  "sample_primary = \<lparr>rcl_Target = sample_eu, rcl_Client = 1\<rparr>"

definition sample_standby :: resolvedCluster where
  "sample_standby = \<lparr>rcl_Target = sample_us, rcl_Client = 2\<rparr>"

lemma reconcileCredentials_reports_witness:
  "list_all write_accepted (op_trace (snd (run_state
     (reconcileCredentials mem_api sample_mc sample_primary [sample_standby]) (mem_state primary_creds_world))))"
proof -
  let ?m = "reconcileCredentials mem_api sample_mc sample_primary [sample_standby]"
  let ?s = "mem_state primary_creds_world"
  have run: "fst (run_state ?m ?s) = None"
    by (simp add: reconcileCredentials_def SyncFromPrimary_def fetchCredentials_def CredentialRoles_def
        credential_plan_def credential_target_def workload_call_def mem_defs primary_creds_world_def
        sample_defs sample_cred_def sample_primary_def sample_standby_def ClusterName_def SecretName_def Let_def
        rewriteClusterName_def buildTargetSecret_def applySecret_def HasErrors_def)
  have "distinct (map (\<lambda>s. ct_Name (rcl_Target s)) [sample_standby])" by simp
  from reconcileCredentials_reports [OF this, of mem_api sample_mc sample_primary] run show ?thesis
    unfolding emits_def by (auto dest: spec [of _ ?s] simp: mem_state_def list_all_iff)
qed

end
