(* ===== verification/Failover_Flow.thy ===== *)
theory Failover_Flow
  imports Reconcile_Steps
begin

text \<open>
  The two entries of the reconciler into a failover: \<open>runFailover\<close>, taken when the spec's primary
  differs from the one in the status, and \<open>runAutoFailover\<close>, which rewrites the spec's roles when
  the primary has been unreachable for long enough. A successful status update or patch copies
  the stored object into the operator's copy, a failed one leaves it as it is.
\<close>

section \<open>Results\<close>

record Result =
  res_Requeue :: bool
  res_RequeueAfter :: time

definition zero_Result :: Result where
  "zero_Result = \<lparr>res_Requeue = False, res_RequeueAfter = 0\<rparr>"

section \<open>Manual failover\<close>

text \<open>The object in the operator's hands after a call that may have replaced it.\<close>

fun stored_or :: "PostgresMC \<Rightarrow> err + PostgresMC \<Rightarrow> PostgresMC" where
  "stored_or mc (Inl e) = mc"
| "stored_or mc (Inr stored) = stored"

definition failover_cluster :: "PostgresMC \<Rightarrow> ClusterTarget \<Rightarrow> client \<Rightarrow> ResolvedCluster" where
  "failover_cluster mc target c =
     (let endpoint = clusterEndpointFromStatus mc (ct_Name target);
          host = (if ct_ExternalHost target = [] then ept_Host endpoint else ct_ExternalHost target);
          port = (if ept_Port endpoint = 0 then ct_ExternalPort target else ept_Port endpoint);
          port = (if port = 0 then 5432 else port)
      in \<lparr>frc_Target = target, frc_Client = Some c, frc_Host = host, frc_Port = port\<rparr>)"

record failover_sides =
  fs_oldPrimary :: ResolvedCluster
  fs_newPrimary :: ResolvedCluster
  fs_others :: "ResolvedCluster list"

definition place_cluster :: "PostgresMC \<Rightarrow> ResolvedCluster \<Rightarrow> failover_sides \<Rightarrow> failover_sides" where
  "place_cluster mc rc sides =
     (if ct_Name (frc_Target rc) = st_CurrentPrimary (mc_Status mc) then sides\<lparr>fs_oldPrimary := rc\<rparr>
      else if ct_Role (frc_Target rc) = ClusterRolePrimary then sides\<lparr>fs_newPrimary := rc\<rparr>
      else sides\<lparr>fs_others := fs_others sides @ [rc]\<rparr>)"

primrec failover_targets ::
  "'w api \<Rightarrow> time \<Rightarrow> PostgresMC \<Rightarrow> ClusterTarget list \<Rightarrow> failover_sides \<Rightarrow> ('w, err + failover_sides) op" where
  "failover_targets A ttl mc [] sides = ret (Inr sides)"
| "failover_targets A ttl mc (target # targets) sides = do {
     r \<leftarrow> GetClient A ttl target (mc_Namespace mc);
     case r of
       Inl e \<Rightarrow> ret (Inl (errorf_wrap (''getting client for cluster '' @ ct_Name target @ '' during failover'') e))
     | Inr c \<Rightarrow> failover_targets A ttl mc targets (place_cluster mc (failover_cluster mc target c) sides)
   }"

definition no_sides :: failover_sides where
  "no_sides = \<lparr>fs_oldPrimary = zero_ResolvedCluster, fs_newPrimary = zero_ResolvedCluster, fs_others = []\<rparr>"

definition failover_plan :: "PostgresMC \<Rightarrow> failover_sides \<Rightarrow> Plan" where
  "failover_plan mc sides =
     \<lparr>pn_PostgresMC = mc, pn_OldPrimary = fs_oldPrimary sides, pn_NewPrimary = fs_newPrimary sides,
      pn_OtherStandbys = fs_others sides\<rparr>"

definition failing_over :: "PostgresMC \<Rightarrow> time \<Rightarrow> PostgresMC" where
  "failing_over mc now =
     (let mc = mc_set_Phase PhaseFailingOver mc
      in mc_set_Conditions (SetCondition (st_Conditions (mc_Status mc)) ConditionFailoverInProgress
           ConditionTrue (mc_Generation mc) ReasonFailoverStarted [] now) mc)"

definition failed_over :: "PostgresMC \<Rightarrow> string \<Rightarrow> time \<Rightarrow> time \<Rightarrow> PostgresMC" where
  "failed_over mc newPrimaryName now now' =
     (let mc = mc_set_Phase PhaseReady (mc_set_CurrentPrimary newPrimaryName mc);
          mc = mc_set_Conditions (SetCondition (st_Conditions (mc_Status mc)) ConditionFailoverInProgress
                 ConditionFalse (mc_Generation mc) ReasonFailoverCompleted [] now) mc
      in mc_set_Conditions (SetCondition (st_Conditions (mc_Status mc)) ConditionReady
           ConditionTrue (mc_Generation mc) ReasonReconcileSuccess [] now') mc)"

text \<open>The part of \<open>runFailover\<close> after the first status patch.\<close>

definition completeFailover :: "'w api \<Rightarrow> time \<Rightarrow> PostgresMC \<Rightarrow> ('w, Result outcome) op" where
  "completeFailover A ttl mc = do {
     t \<leftarrow> failover_targets A ttl mc (sp_Clusters (mc_Spec mc)) no_sides;
     case t of
       Inl e \<Rightarrow> ret (Error e)
     | Inr sides \<Rightarrow> do {
         f \<leftarrow> Run A (failover_plan mc sides);
         case f of
           Ok result \<Rightarrow> do {
             t1 \<leftarrow> clock_now A;
             t2 \<leftarrow> clock_now A;
             let mc' = failed_over mc (fr_NewPrimaryName result) t1 t2;
             p \<leftarrow> tech_call (PatchMCStatus mc mc') (tech_patch_mc_status A mc mc');
             case p of
               Inl e \<Rightarrow> ret (Error e)
             | Inr stored \<Rightarrow> do {
                 _ \<leftarrow> record_event ''Normal'' ReasonFailoverCompleted
                        (''failover completed, new primary: '' @ fr_NewPrimaryName result);
                 ret (Ok \<lparr>res_Requeue = False, res_RequeueAfter = requeueDefault\<rparr>)
               }
           }
         | Error e \<Rightarrow> ret (Error (errorf_wrap ''failover'' e))
         | Panics \<Rightarrow> ret Panics
       }
   }"

definition runFailover :: "'w api \<Rightarrow> time \<Rightarrow> PostgresMC \<Rightarrow> PostgresMC \<Rightarrow> ('w, Result outcome) op" where
  "runFailover A ttl mc orig = do {
     _ \<leftarrow> record_event ''Normal'' ReasonFailoverStarted
            (''failover from '' @ st_CurrentPrimary (mc_Status mc) @ '' to '' @ primaryClusterName mc);
     now \<leftarrow> clock_now A;
     let mc1 = failing_over mc now;
     r \<leftarrow> tech_call (PatchMCStatus orig mc1) (tech_patch_mc_status A orig mc1);
     completeFailover A ttl (stored_or mc1 r)
   }"

section \<open>Automatic failover\<close>

definition promote_roles :: "string \<Rightarrow> ClusterTarget list \<Rightarrow> ClusterTarget list" where
  "promote_roles newPrimary targets =
     map (\<lambda>c. c\<lparr>ct_Role := (if ct_Name c = newPrimary then ClusterRolePrimary else ClusterRoleStandby)\<rparr>) targets"

definition first_standby :: "resolvedCluster list \<Rightarrow> resolvedCluster option" where
  "first_standby reachable = find (\<lambda>rc. ct_Role (rcl_Target rc) = ClusterRoleStandby) reachable"

definition runAutoFailover ::
  "'w api \<Rightarrow> PostgresMC \<Rightarrow> PostgresMC \<Rightarrow> resolvedCluster list \<Rightarrow> ('w, Result outcome) op" where
  "runAutoFailover A mc orig reachable =
     (case first_standby reachable of
        None \<Rightarrow> do {
          _ \<leftarrow> tech_call (PatchMCStatus orig mc) (tech_patch_mc_status A orig mc);
          ret (Ok \<lparr>res_Requeue = False, res_RequeueAfter = requeueProgress\<rparr>)
        }
      | Some newPrimary \<Rightarrow>
          let name = ct_Name (rcl_Target newPrimary);
              specPatch = mc_set_SpecClusters (promote_roles name (sp_Clusters (mc_Spec mc))) mc
          in do {
            _ \<leftarrow> record_event ''Warning'' ReasonAutoFailover
                   (''primary unreachable for '' @ fmt_d (st_PrimaryFailureCount (mc_Status mc)) @
                    '' cycles, promoting '' @ name);
            r \<leftarrow> tech_call (PatchMC mc specPatch) (tech_patch_mc A mc specPatch);
            case r of
              Inl e \<Rightarrow> ret (Error (errorf_wrap ''patching spec for auto-failover'' e))
            | Inr stored \<Rightarrow> do {
                let mc' = mc_set_FailureCount 0 mc;
                _ \<leftarrow> tech_call (PatchMCStatus orig mc') (tech_patch_mc_status A orig mc');
                ret (Ok \<lparr>res_Requeue = True, res_RequeueAfter = 0\<rparr>)
              }
          })"

section \<open>Lemmas\<close>

text \<open>
  A cluster is down for a PostgresMC when no client can be had for it, whatever the state of the
  operator and of the world.
\<close>

definition cluster_down :: "'w api \<Rightarrow> time \<Rightarrow> string \<Rightarrow> ClusterTarget \<Rightarrow> bool" where
  "cluster_down A ttl ns target \<longleftrightarrow> (\<forall>s. \<exists>e. fst (run_state (GetClient A ttl target ns) s) = Inl e)"

text \<open>A technical cluster on which nobody else writes: a status patch returns what was sent.\<close>

definition returns_patched :: "'w api \<Rightarrow> bool" where
  "returns_patched A \<longleftrightarrow> (\<forall>orig mc w stored w'. tech_patch_mc_status A orig mc w = (Inr stored, w') \<longrightarrow> stored = mc)"

lemma returns_patchedD:
  assumes "returns_patched A" "tech_patch_mc_status A orig mc w = (r, w')"
  shows "stored_or mc r = mc"
proof (cases r)
  case (Inr stored)
  with assms have "stored = mc" unfolding returns_patched_def by blast
  with Inr show ?thesis by simp
qed simp

lemma GetClient_down: "cluster_down A ttl ns target \<Longrightarrow> emits (GetClient A ttl target ns) (\<lambda>r es.
    (\<exists>e. r = Inl e) \<and> list_all (\<lambda>e. ev_client e = None) es)"
proof -
  assume down: "cluster_down A ttl ns target"
  have "emits (GetClient A ttl target ns) (\<lambda>r es. \<forall>e \<in> set es. ev_client e = None)"
    by (rule GetClient_no_workload) simp
  with down show ?thesis by (fastforce simp: emits_def cluster_down_def list_all_iff)
qed

text \<open>A down cluster is down in every role.\<close>

lemma GetClient_role: "GetClient A ttl (target\<lparr>ct_Role := r\<rparr>) ns = GetClient A ttl target ns"
  by (cases target) (simp only: GetClient_def ClusterTarget.simps)

lemma cluster_down_role: "cluster_down A ttl ns (target\<lparr>ct_Role := r\<rparr>) \<longleftrightarrow> cluster_down A ttl ns target"
  by (simp add: cluster_down_def GetClient_role)

lemma failing_over_keeps [simp]:
  "mc_Spec (failing_over mc now) = mc_Spec mc" "mc_Namespace (failing_over mc now) = mc_Namespace mc"
  "mc_Name (failing_over mc now) = mc_Name mc"
  "st_CurrentPrimary (mc_Status (failing_over mc now)) = st_CurrentPrimary (mc_Status mc)"
  "st_Clusters (mc_Status (failing_over mc now)) = st_Clusters (mc_Status mc)"
  by (simp_all add: failing_over_def Let_def)

lemma failed_over_fields [simp]:
  "st_CurrentPrimary (mc_Status (failed_over mc n t1 t2)) = n" "st_Phase (mc_Status (failed_over mc n t1 t2)) = PhaseReady"
  "mc_Spec (failed_over mc n t1 t2) = mc_Spec mc"
  by (simp_all add: failed_over_def Let_def)

text \<open>
  The resolution of the clusters reads kubeconfigs only; on success every cluster of the spec has
  got a client and its place in the plan.
\<close>

lemma failover_targets_emits:
  "emits (failover_targets A ttl mc targets sides) (\<lambda>r es.
     list_all kubeconfig_read es \<and>
     (\<forall>s. r = Inr s \<longrightarrow> (\<exists>cs. length cs = length targets \<and>
        s = fold (place_cluster mc) (map2 (failover_cluster mc) targets cs) sides)))"
proof (induction targets arbitrary: sides)
  case Nil
  then show ?case by (auto intro: emits_intro)
next
  case (Cons target targets)
  have get: "emits (GetClient A ttl target ns) (\<lambda>r es.
      list_all kubeconfig_read es)" for ns
    by (rule emits_mono [OF GetClient_emits]) auto
  show ?case
    unfolding failover_targets.simps
  proof (rule emits_bind, rule emits_mono [OF get], rule emits_case_sum, goal_cases)
    case (1 r es e)
    then show ?case by (intro emits_return) simp
  next
    case (2 r es c)
    show ?case
    proof (rule emits_mono [OF Cons.IH], intro conjI allI impI, goal_cases)
      case (1 b es')
      with 2 show ?case by simp
    next
      case (2 b es' s)
      then obtain cs where "length cs = length targets"
        "s = fold (place_cluster mc) (map2 (failover_cluster mc) targets cs)
           (place_cluster mc (failover_cluster mc target c) sides)" by auto
      then show ?case by (intro exI [of _ "c # cs"]) simp
    qed
  qed
qed

lemma failover_targets_down:
  assumes "t \<in> set targets" "cluster_down A ttl (mc_Namespace mc) t"
  shows "emits (failover_targets A ttl mc targets sides) (\<lambda>r es. (\<exists>e. r = Inl e) \<and> list_all (\<lambda>e. ev_client e = None) es)"
  using assms(1)
proof (induction targets arbitrary: sides)
  case (Cons target targets)
  show ?case
  proof (cases "t = target")
    case True
    with assms(2) have "cluster_down A ttl (mc_Namespace mc) target" by simp
    then show ?thesis
      unfolding failover_targets.simps
      by (intro emits_bind emits_mono [OF GetClient_down]) (auto intro!: emits_return)
  next
    case False
    with Cons.prems have "t \<in> set targets" by simp
    then show ?thesis
      unfolding failover_targets.simps
      by (intro emits_bind GetClient_no_workload emits_case_sum emits_mono [OF Cons.IH [OF \<open>t \<in> set targets\<close>]])
         (auto simp: list_all_iff intro: emits_return)
  qed
qed simp

text \<open>Where the clusters of a spec end up.\<close>

lemma place_cluster_name [simp]: "frc_Target (failover_cluster mc target c) = target"
    "frc_Client (failover_cluster mc target c) = Some c"
  by (simp_all add: failover_cluster_def Let_def)

lemma fold_place_new:
  assumes "length cs = length targets"
    and "filter (\<lambda>t. ct_Role t = ClusterRolePrimary \<and> ct_Name t \<noteq> st_CurrentPrimary (mc_Status mc)) targets = [p]"
  shows "frc_Target (fs_newPrimary (fold (place_cluster mc) (map2 (failover_cluster mc) targets cs) sides)) = p"
proof -
  have keep: "fs_newPrimary (fold (place_cluster mc) (map2 (failover_cluster mc) ts ks) sides) = fs_newPrimary sides"
    if "length ks = length ts"
      "filter (\<lambda>t. ct_Role t = ClusterRolePrimary \<and> ct_Name t \<noteq> st_CurrentPrimary (mc_Status mc)) ts = []" for ts ks sides
    using that by (induction ks ts arbitrary: sides rule: list_induct2) (auto simp: place_cluster_def split: if_splits)
  from assms show ?thesis
    by (induction cs targets arbitrary: sides rule: list_induct2)
       (auto simp: keep place_cluster_def split: if_splits)
qed

lemma promote_roles_names [simp]: "map ct_Name (promote_roles n cs) = map ct_Name cs"
  by (simp add: promote_roles_def)

lemma promote_roles_primary:
  "filter (\<lambda>c. ct_Role c = ClusterRolePrimary) (promote_roles n cs) =
     map (\<lambda>c. c\<lparr>ct_Role := ClusterRolePrimary\<rparr>) (filter (\<lambda>c. ct_Name c = n) cs)"
  by (induction cs) (auto simp: promote_roles_def)

lemma filter_name: "distinct (map ct_Name cs) \<Longrightarrow> n \<in> ct_Name ` set cs \<Longrightarrow>
   \<exists>c. filter (\<lambda>c. ct_Name c = n) cs = [c] \<and> ct_Name c = n"
proof (induction cs)
  case (Cons c cs)
  show ?case
  proof (cases "ct_Name c = n")
    case True
    with Cons.prems have "filter (\<lambda>c. ct_Name c = n) cs = []" using filter_key_fresh [of ct_Name c cs] by simp
    with True show ?thesis by simp
  next
    case False
    with Cons show ?thesis by auto
  qed
qed simp

lemma valid_promote_roles:
  assumes "distinct (map ct_Name cs)" "n \<in> ct_Name ` set cs"
  shows "valid_spec (promote_roles n cs)" and "primaryName (promote_roles n cs) = n"
  using filter_name [OF assms] assms(1)
  by (auto simp: valid_spec_def promote_roles_primary primaryName_filter)

text \<open>The trace of the second part, for every result.\<close>

definition completed_trace ::
  "PostgresMC \<Rightarrow> failover_sides \<Rightarrow> event list \<Rightarrow> event list \<Rightarrow> event list \<Rightarrow> event list \<Rightarrow> bool" where
  "completed_trace mc sides es reads calls tail \<longleftrightarrow>
     es = reads @ calls @ tail \<and>
     list_all kubeconfig_read reads \<and>
     failover_trace (failover_plan mc sides) calls \<and>
     (let name = ct_Name (frc_Target (fs_newPrimary sides))
      in \<exists>t1 t2. tail = [TechCall (PatchMCStatus mc (failed_over mc name t1 t2)) None,
                      Recorded ''Normal'' ReasonFailoverCompleted (''failover completed, new primary: '' @ name)])"

definition completion_event :: "event \<Rightarrow> bool" where
  "completion_event e = (case e of Recorded t reason msg \<Rightarrow> reason = ReasonFailoverCompleted | _ \<Rightarrow> False)"

lemma completion_event_simps [simp]:
  "\<not> completion_event (Call c rq res)" "\<not> completion_event (TechCall trq res)"
  "completion_event (Recorded t reason msg) \<longleftrightarrow> reason = ReasonFailoverCompleted"
  by (simp_all add: completion_event_def)

lemma not_completion: "ev_client e \<noteq> None \<Longrightarrow> \<not> completion_event e"
  by (cases e) simp_all

lemma not_completion_read: "kubeconfig_read e \<Longrightarrow> \<not> completion_event e"
  by (auto simp: kubeconfig_read_iff)

lemma completeFailover_emits:
  "emits (completeFailover A ttl mc) (\<lambda>r es. case r of
     Ok res \<Rightarrow> res = \<lparr>res_Requeue = False, res_RequeueAfter = requeueDefault\<rparr> \<and>
       (\<exists>cs reads calls tail. length cs = length (sp_Clusters (mc_Spec mc)) \<and>
          completed_trace mc (fold (place_cluster mc) (map2 (failover_cluster mc) (sp_Clusters (mc_Spec mc)) cs) no_sides)
            es reads calls tail)
   | _ \<Rightarrow> list_all (\<lambda>e. \<not> completion_event e) es)"
  unfolding completeFailover_def Let_def
proof (rule emits_bind, rule emits_mono [OF failover_targets_emits], rule emits_case_sum, goal_cases)
  case (1 r es e)
  then show ?case by (intro emits_return) (auto simp: list_all_iff not_completion_read)
next
  case (2 r es sides)
  then obtain cs where cs: "length cs = length (sp_Clusters (mc_Spec mc))"
    "sides = fold (place_cluster mc) (map2 (failover_cluster mc) (sp_Clusters (mc_Spec mc)) cs) no_sides" by auto
  from 2 have reads: "list_all kubeconfig_read es" by simp
  then have no: "\<forall>e \<in> set es. \<not> completion_event e" by (auto simp: list_all_iff not_completion_read)
  show ?case
  proof (rule emits_bind, rule emits_mono [OF emits_conj [OF Run_sequence Run_calls]], intro emits_intro, goal_cases)
    case (1 f es' result t1 t2 p e)
    with no show ?case by (auto simp: list_all_iff not_completion)
  next
    case (2 f es' result t1 t2 p stored)
    let ?name = "ct_Name (frc_Target (fs_newPrimary sides))"
    let ?tail = "[TechCall (PatchMCStatus mc (failed_over mc ?name t1 t2)) None,
      Recorded ''Normal'' ReasonFailoverCompleted (''failover completed, new primary: '' @ ?name)]"
    from 2 have name: "fr_NewPrimaryName result = ?name" by (simp add: failover_plan_def)
    from 2 reads have "completed_trace mc sides (es @ es' @ ?tail) es es' ?tail"
      by (auto simp: completed_trace_def Let_def)
    then have "\<exists>cs reads calls tail. length cs = length (sp_Clusters (mc_Spec mc)) \<and>
        completed_trace mc (fold (place_cluster mc) (map2 (failover_cluster mc) (sp_Clusters (mc_Spec mc)) cs) no_sides)
          (es @ es' @ ?tail) reads calls tail"
      using cs by blast
    then show ?case using 2(3) by (simp add: name)
  next
    case (3 f es' e)
    with no show ?case by (auto simp: list_all_iff not_completion)
  next
    case (4 f es')
    with no show ?case by (auto simp: list_all_iff not_completion)
  qed
qed

lemma runFailover_reduce:
  assumes "\<And>mc2. emits (completeFailover A ttl mc2) (R mc2)"
    and "\<And>now e mc2 r es. (returns_patched A \<Longrightarrow> mc2 = failing_over mc now) \<Longrightarrow> R mc2 r es \<Longrightarrow>
      Q r (Recorded ''Normal'' ReasonFailoverStarted
             (''failover from '' @ st_CurrentPrimary (mc_Status mc) @ '' to '' @ primaryClusterName mc) #
           TechCall (PatchMCStatus orig (failing_over mc now)) e # es)"
  shows "emits (runFailover A ttl mc orig) Q"
  unfolding runFailover_def Let_def
proof (intro emits_bind emits_record_event emits_now emits_tech_call_answer, rule emits_mono [OF assms(1)], goal_cases)
  case (1 now w r w' b es)
  have "stored_or (failing_over mc now) r = failing_over mc now" if "returns_patched A"
    using returns_patchedD [OF that 1(1)] .
  from assms(2) [OF this 1(2)] show ?case by simp
qed

lemma completeFailover_down:
  assumes "t \<in> set (sp_Clusters (mc_Spec mc))" "cluster_down A ttl (mc_Namespace mc) t"
  shows "emits (completeFailover A ttl mc) (\<lambda>r es. (\<exists>e. r = Error e) \<and> list_all (\<lambda>e. ev_client e = None) es)"
  unfolding completeFailover_def
  by (rule emits_bind, rule emits_mono [OF failover_targets_down [OF assms]])
     (auto intro!: emits_return)

text \<open>While one cluster of the spec is down, a failover fails without a call on a workload cluster.\<close>

lemma runFailover_down:
  assumes "returns_patched A" and "t \<in> set (sp_Clusters (mc_Spec mc))" and "cluster_down A ttl (mc_Namespace mc) t"
  shows "emits (runFailover A ttl mc orig) (\<lambda>r es. (\<exists>e. r = Error e) \<and> list_all (\<lambda>e. ev_client e = None) es)"
proof -
  have "emits (completeFailover A ttl mc2) (\<lambda>r es. t \<in> set (sp_Clusters (mc_Spec mc2)) \<and> mc_Namespace mc2 = mc_Namespace mc \<longrightarrow>
      (\<exists>e. r = Error e) \<and> list_all (\<lambda>e. ev_client e = None) es)" for mc2
  proof (cases "t \<in> set (sp_Clusters (mc_Spec mc2)) \<and> mc_Namespace mc2 = mc_Namespace mc")
    case True
    then show ?thesis
      by (intro emits_mono [OF completeFailover_down [of t mc2 A ttl]]) (use assms(3) in auto)
  qed (auto intro: emits_mono [OF completeFailover_emits])
  then show ?thesis
    by (rule runFailover_reduce) (use assms in auto)
qed

text \<open>The calls of a failover on the technical cluster, for every result.\<close>

lemma completeFailover_footprint:
  "footprint (completeFailover A ttl mc) (\<lambda>e. kubeconfig_read e \<or> ev_client e \<noteq> None \<or> completion_event e \<or>
     (\<exists>a b res. e = TechCall (PatchMCStatus a b) res))"
  unfolding completeFailover_def Let_def
  apply (rule emits_bind, rule emits_mono [OF failover_targets_emits], rule emits_case_sum)
   apply (rule emits_return, fastforce simp: list_all_iff)
  apply (rule emits_bind, rule emits_mono [OF Run_calls], intro emits_intro)
     apply (auto simp: list_all_iff)
  done

section \<open>Properties\<close>

text \<open>
  The order of a manual failover: when \<open>runFailover\<close> returns a result it has recorded the
  start, patched the status to FailingOver, read the kubeconfig of every cluster, made all calls
  of a successful orchestration, and only then written the new primary into the status, which
  was accepted, and announced the completion. When it fails, no completion is announced.
\<close>

theorem runFailover_order:
  "emits (runFailover A ttl mc orig) (\<lambda>r es. case r of
     Ok res \<Rightarrow> \<exists>now e mc2 cs reads calls tail rest.
       es = Recorded ''Normal'' ReasonFailoverStarted
              (''failover from '' @ st_CurrentPrimary (mc_Status mc) @ '' to '' @ primaryClusterName mc) #
            TechCall (PatchMCStatus orig (failing_over mc now)) e # rest \<and>
       length cs = length (sp_Clusters (mc_Spec mc2)) \<and>
       completed_trace mc2
         (fold (place_cluster mc2) (map2 (failover_cluster mc2) (sp_Clusters (mc_Spec mc2)) cs) no_sides)
         rest reads calls tail
   | Error e \<Rightarrow> list_all (\<lambda>e. \<not> completion_event e) es
   | Panics \<Rightarrow> list_all (\<lambda>e. \<not> completion_event e) es)"
  by (rule runFailover_reduce, rule completeFailover_emits)
     (auto simp: reason_consts split: outcome.splits, blast)

text \<open>
  C6. The primary that a successful failover writes into the status is the primary of the spec:
  with a valid spec whose primary is not the current one and a server that stores what it is
  sent, the last status patch sets \<open>currentPrimary\<close> to the spec's primary and the phase to Ready.
\<close>

theorem runFailover_installs_spec_primary:
  assumes server: "returns_patched A" and valid: "valid_spec (sp_Clusters (mc_Spec mc))"
    and differs: "st_CurrentPrimary (mc_Status mc) \<noteq> primaryClusterName mc"
  shows "emits (runFailover A ttl mc orig) (\<lambda>r es. case r of
     Ok res \<Rightarrow> \<exists>before after msg. st_CurrentPrimary (mc_Status after) = primaryClusterName mc \<and>
       st_Phase (mc_Status after) = PhaseReady \<and> mc_Spec after = mc_Spec mc \<and>
       drop (length es - 2) es = [TechCall (PatchMCStatus before after) None, Recorded ''Normal'' ReasonFailoverCompleted msg]
   | Error e \<Rightarrow> True | Panics \<Rightarrow> True)"
proof (rule runFailover_reduce, rule completeFailover_emits, goal_cases)
  case (1 now e mc2 r es)
  show ?case
  proof (cases r)
    case (Ok res)
    from 1 Ok server obtain cs reads calls tail where mc2: "mc2 = failing_over mc now"
      and cs: "length cs = length (sp_Clusters (mc_Spec mc2))"
      and tr: "completed_trace mc2
        (fold (place_cluster mc2) (map2 (failover_cluster mc2) (sp_Clusters (mc_Spec mc2)) cs) no_sides) es reads calls tail"
      by auto
    from valid_spec_primary [OF valid] obtain p where
      p: "filter (\<lambda>c. ct_Role c = ClusterRolePrimary) (sp_Clusters (mc_Spec mc)) = [p]" by blast
    then have name: "ct_Name p = primaryClusterName mc" by (simp add: primaryClusterName_def primaryName_filter)
    have "filter (\<lambda>t. ct_Role t = ClusterRolePrimary \<and> ct_Name t \<noteq> st_CurrentPrimary (mc_Status mc2))
        (sp_Clusters (mc_Spec mc2)) =
        filter (\<lambda>t. ct_Name t \<noteq> st_CurrentPrimary (mc_Status mc)) [p]"
      by (simp add: mc2 p [symmetric] conj_commute)
    also have "\<dots> = [p]" using name differs by simp
    finally have "frc_Target (fs_newPrimary
        (fold (place_cluster mc2) (map2 (failover_cluster mc2) (sp_Clusters (mc_Spec mc2)) cs) no_sides)) = p"
      by (rule fold_place_new [OF cs])
    with tr Ok name mc2 show ?thesis
      by (auto simp: completed_trace_def Let_def)
  qed simp_all
qed

text \<open>
  C22. The automatic failover makes no call on a workload cluster. It promotes the first
  reachable standby by one patch of the spec, after which the spec is valid with that standby as
  the only primary and otherwise unchanged; the failure counter is reset only when the patch was
  accepted. Without a reachable standby it only stores the status.
\<close>

theorem runAutoFailover_promotes:
  assumes "distinct (map ct_Name (sp_Clusters (mc_Spec mc)))"
    and "rcl_Target ` set reachable \<subseteq> set (sp_Clusters (mc_Spec mc))"
  shows "emits (runAutoFailover A mc orig reachable) (\<lambda>r es. case first_standby reachable of
     None \<Rightarrow> \<exists>e. es = [TechCall (PatchMCStatus orig mc) e] \<and>
       r = Ok \<lparr>res_Requeue = False, res_RequeueAfter = requeueProgress\<rparr>
   | Some rc \<Rightarrow> \<exists>msg new e rest.
       es = [Recorded ''Warning'' ReasonAutoFailover msg, TechCall (PatchMC mc (mc_set_SpecClusters new mc)) e] @ rest \<and>
       valid_spec new \<and> primaryName new = ct_Name (rcl_Target rc) \<and>
       map (\<lambda>c. c\<lparr>ct_Role := []\<rparr>) new = map (\<lambda>c. c\<lparr>ct_Role := []\<rparr>) (sp_Clusters (mc_Spec mc)) \<and>
       (case e of
          Some err \<Rightarrow> rest = [] \<and> (\<exists>e'. r = Error e')
        | None \<Rightarrow> r = Ok \<lparr>res_Requeue = True, res_RequeueAfter = 0\<rparr> \<and>
            (\<exists>e'. rest = [TechCall (PatchMCStatus orig (mc_set_FailureCount 0 mc)) e'])))"
proof (cases "first_standby reachable")
  case None
  then show ?thesis by (simp add: runAutoFailover_def) (intro emits_intro, auto)
next
  case (Some rc)
  then have "rcl_Target rc \<in> set (sp_Clusters (mc_Spec mc))"
    using assms(2) by (auto simp: first_standby_def dest: find_Some_mem)
  note new = valid_promote_roles [OF assms(1) imageI [OF this]]
  have roles: "map (\<lambda>c. c\<lparr>ct_Role := []\<rparr>) (promote_roles n cs) = map (\<lambda>c. c\<lparr>ct_Role := []\<rparr>) cs" for n cs
    by (simp add: promote_roles_def)
  show ?thesis
    using Some
    apply (simp only: runAutoFailover_def option.case Let_def)
    apply (intro emits_intro)
     apply (auto simp: new roles split: option.splits)
    done
qed

text \<open>
  The sample resource after the user has moved the primary role from \<open>eu\<close> to \<open>us\<close>, on a technical
  cluster without other writers; and the same with the kubeconfig of \<open>eu\<close> out of reach.
\<close>

definition failover_mc :: PostgresMC where
  "failover_mc = mc_set_CurrentPrimary ''eu'' (mc_set_SpecClusters
     [sample_eu\<lparr>ct_Role := ClusterRoleStandby, ct_ExternalHost := ''eu.example''\<rparr>,
      sample_us\<lparr>ct_Role := ClusterRolePrimary, ct_ExternalHost := ''us.example''\<rparr>] sample_mc)"

definition echo_api :: "mem_world api" where
  "echo_api = mem_api\<lparr>tech_patch_mc_status := \<lambda>orig mc w. (Inr mc, w)\<rparr>"

definition down_api :: "mem_world api" where
  "down_api = echo_api\<lparr>tech_get_secret := \<lambda>ns n w.
     if n = ''kc-eu'' then (Inl timeout_err, w) else mem_tech_get ns n w\<rparr>"

lemma echo_returns [simp]: "returns_patched echo_api" "returns_patched down_api"
  by (simp_all add: returns_patched_def echo_api_def down_api_def)

lemma down_api_down: "ct_ClusterRef t = ''kc-eu'' \<Longrightarrow> cluster_down down_api ttl ns t"
  by (simp add: cluster_down_def GetClient_def down_api_def tech_call_def Let_def)

lemma failover_mc_valid [simp]: "valid_spec (sp_Clusters (mc_Spec failover_mc))"
  by (simp add: valid_spec_def failover_mc_def sample_defs)

lemma failover_mc_primary [simp]: "primaryClusterName failover_mc = ''us''" "st_CurrentPrimary (mc_Status failover_mc) = ''eu''"
  by (simp_all add: primaryClusterName_def failover_mc_def sample_defs)

lemmas failover_run_defs = runFailover_def completeFailover_def Let_def primitive_defs failover_mc_def
  GetClient_def no_sides_def place_cluster_def failover_cluster_def failover_plan_def
  clusterEndpointFromStatus_def Run_def demoteCluster_def promoteCluster_def repoint_def
  BuildPrimary_def BuildStandby_def buildPostgresql_def applyUnstructured_def
  EnsurePrimaryAlias_def ensureExternalName_def PrimaryAliasName_def externalname_service_def
  ClusterName_def cache_key_def cache_store_def cache_hit_def zero_clusterEndpoint_def
  echo_api_def mem_defs sample_defs atoi_def is_digit_def read_nat_def digit_val_def
  is_ip_def is_ipv4_def zero_ResolvedCluster_def

lemma failover_mc_run:
  "\<exists>res. fst (run_state (runFailover echo_api 1000 failover_mc failover_mc) (mem_state sample_world)) = Ok res"
  by (simp add: failover_run_defs failing_over_def)

lemma runFailover_installs_spec_primary_witness:
  "\<exists>before after msg. st_CurrentPrimary (mc_Status after) = ''us'' \<and>
     TechCall (PatchMCStatus before after) None \<in>
       set (op_trace (snd (run_state (runFailover echo_api 1000 failover_mc failover_mc) (mem_state sample_world))))"
proof -
  let ?m = "runFailover echo_api 1000 failover_mc failover_mc"
  obtain res where res: "fst (run_state ?m (mem_state sample_world)) = Ok res" using failover_mc_run by blast
  have "st_CurrentPrimary (mc_Status failover_mc) \<noteq> primaryClusterName failover_mc" by simp
  from emits_trace [OF runFailover_installs_spec_primary [OF echo_returns(1) failover_mc_valid this, of 1000 failover_mc]
      mem_state_trace [of sample_world], unfolded res]
  obtain es before after msg where es: "op_trace (snd (run_state ?m (mem_state sample_world))) = es"
    "st_CurrentPrimary (mc_Status after) = ''us''"
    "drop (length es - 2) es = [TechCall (PatchMCStatus before after) None, Recorded ''Normal'' ReasonFailoverCompleted msg]"
    by auto
  have "TechCall (PatchMCStatus before after) None \<in> set (drop (length es - 2) es)" by (simp add: es(3))
  then have "TechCall (PatchMCStatus before after) None \<in> set es" by (rule in_set_dropD)
  with es(1,2) show ?thesis by blast
qed

lemma runAutoFailover_promotes_witness:
  "\<exists>new e rest. op_trace (snd (run_state
      (runAutoFailover mem_api sample_mc sample_mc [sample_standby]) (mem_state empty_world))) =
      rest @ [TechCall (PatchMC sample_mc (mc_set_SpecClusters new sample_mc)) (Some e)] \<and>
     valid_spec new \<and> primaryName new = ''us''"
proof -
  let ?m = "runAutoFailover mem_api sample_mc sample_mc [sample_standby]"
  have "distinct (map ct_Name (sp_Clusters (mc_Spec sample_mc)))"
    and "rcl_Target ` set [sample_standby] \<subseteq> set (sp_Clusters (mc_Spec sample_mc))"
    by (simp_all add: sample_mc_def sample_standby_def sample_eu_def sample_us_def)
  from runAutoFailover_promotes [OF this, of mem_api sample_mc]
  have run: "emits ?m (\<lambda>r es. \<exists>msg new e rest.
       es = [Recorded ''Warning'' ReasonAutoFailover msg, TechCall (PatchMC sample_mc (mc_set_SpecClusters new sample_mc)) e] @ rest \<and>
       valid_spec new \<and> primaryName new = ''us'' \<and> (case e of Some err \<Rightarrow> rest = [] | None \<Rightarrow> \<exists>res. r = Ok res))"
    by (rule emits_mono)
       (auto simp: first_standby_def sample_standby_def sample_us_def split: option.splits)
  have "\<exists>e. fst (run_state ?m (mem_state empty_world)) = Error e"
    by (simp add: runAutoFailover_def first_standby_def sample_standby_def sample_us_def primitive_defs mem_defs Let_def)
  then show ?thesis
    using emits_trace [OF run mem_state_trace [of empty_world]] by (force split: option.splits)
qed

end
