(* ===== verification/Deletion.thy ===== *)
theory Deletion
  imports Failover_Flow
begin

text \<open>
  Deletion of a PostgresMC (\<open>internal/controller/finalizer.go\<close>): the objects of every cluster
  that can be reached are deleted, then the finalizer is removed.
\<close>

section \<open>Operations\<close>

definition deletePostgresql :: "'w api \<Rightarrow> PostgresMC \<Rightarrow> ClusterTarget \<Rightarrow> client \<Rightarrow> ('w, err option) op" where
  "deletePostgresql A mc target c =
     (let ns = ct_Namespace target; clusterName = ClusterName (sp_TeamID (mc_Spec mc)) (ct_Name target)
      in do {
        r \<leftarrow> workload_call c (DeletePostgresql ns clusterName) (api_delete_postgresql A c ns clusterName);
        case r of
          Inl e \<Rightarrow>
            if IsNotFound e then ret None
            else ret (Some (errorf_wrap (''deleting postgresql '' @ ns @ ''/'' @ clusterName @
                              '' on cluster '' @ ct_Name target) e))
        | Inr _ \<Rightarrow> ret None
      })"

definition deleteOnCluster :: "'w api \<Rightarrow> PostgresMC \<Rightarrow> ClusterTarget \<Rightarrow> client \<Rightarrow> ('w, err option) op" where
  "deleteOnCluster A mc target c = do {
     p \<leftarrow> deletePostgresql A mc target c;
     case p of
       Some e \<Rightarrow> ret (Some e)
     | None \<Rightarrow> do {
         d \<leftarrow> Delete A c mc target;
         case d of
           Some e \<Rightarrow> ret (Some (errorf_wrap (''deleting replication service on cluster '' @ ct_Name target) e))
         | None \<Rightarrow>
             if ct_Role target = ClusterRoleStandby then do {
               a \<leftarrow> DeleteAlias A c (ct_Namespace target) (mc_Name mc);
               case a of
                 Some e \<Rightarrow> ret (Some (errorf_wrap (''deleting alias on cluster '' @ ct_Name target) e))
               | None \<Rightarrow> ret None
             }
             else ret None
       }
   }"

primrec deletion_loop ::
  "'w api \<Rightarrow> time \<Rightarrow> PostgresMC \<Rightarrow> ClusterTarget list \<Rightarrow> ('w, err option) op" where
  "deletion_loop A ttl mc [] = ret None"
| "deletion_loop A ttl mc (target # targets) = do {
     r \<leftarrow> GetClient A ttl target (mc_Namespace mc);
     case r of
       Inl e \<Rightarrow> deletion_loop A ttl mc targets
     | Inr c \<Rightarrow> do {
         d \<leftarrow> deleteOnCluster A mc target c;
         case d of
           Some e \<Rightarrow> ret (Some e)
         | None \<Rightarrow> deletion_loop A ttl mc targets
       }
   }"

definition handleDeletion :: "'w api \<Rightarrow> time \<Rightarrow> PostgresMC \<Rightarrow> ('w, Result outcome) op" where
  "handleDeletion A ttl mc =
     (if \<not> containsFinalizer mc finalizerName then ret (Ok zero_Result)
      else do {
        d \<leftarrow> deletion_loop A ttl mc (sp_Clusters (mc_Spec mc));
        case d of
          Some e \<Rightarrow> ret (Error e)
        | None \<Rightarrow> do {
            let mc' = mc\<lparr>mc_Finalizers := removeFinalizer (mc_Finalizers mc) finalizerName\<rparr>;
            r \<leftarrow> tech_call (PatchMC mc mc') (tech_patch_mc A mc mc');
            case r of
              Inl e \<Rightarrow> if IsNotFound e then ret (Ok zero_Result) else ret (Error e)
            | Inr stored \<Rightarrow> ret (Ok zero_Result)
          }
      })"

section \<open>Removing a Service\<close>

text \<open>\<open>Delete\<close> and \<open>DeleteAlias\<close> are the same operation on different names.\<close>

definition remove_service :: "'w api \<Rightarrow> client \<Rightarrow> string \<Rightarrow> string \<Rightarrow> ('w, err option) op" where
  "remove_service A c ns n = do {
     r \<leftarrow> workload_call c (GetService ns n) (api_get_service A c ns n);
     case r of
       Inl e \<Rightarrow> if IsNotFound e then ret None else ret (Some e)
     | Inr svc \<Rightarrow> do {
         w \<leftarrow> workload_call c (DeleteService (svc_Namespace svc) (svc_Name svc))
                (api_delete_service A c (svc_Namespace svc) (svc_Name svc));
         ret (err_of w)
       }
   }"

lemma remove_service_eqs:
  "Delete A c mc target = remove_service A c (ct_Namespace target) (ServiceName (mc_Name mc))"
  "DeleteAlias A c ns pgmcName = remove_service A c ns (PrimaryAliasName pgmcName)"
  by (simp_all add: remove_service_def Delete_def DeleteAlias_def Let_def)

definition service_gone :: "client \<Rightarrow> string \<Rightarrow> string \<Rightarrow> event list \<Rightarrow> bool" where
  "service_gone c ns n es \<longleftrightarrow>
     (\<exists>e. es = [Call c (GetService ns n) (Some e)] \<and> IsNotFound e) \<or>
     (\<exists>ns' n'. es = [Call c (GetService ns n) None, Call c (DeleteService ns' n') None])"

lemma remove_service_emits:
  "emits (remove_service A c ns n) (\<lambda>r es. list_all (\<lambda>e. ev_client e = Some c) es \<and> (r = None \<longrightarrow> service_gone c ns n es))"
  unfolding remove_service_def by (intro emits_intro) (auto simp: service_gone_def)

lemma remove_service_effect:
  assumes "get_law (api_get_service A) service_key view" "delete_law (api_delete_service A) view"
    and run: "run_state (remove_service A c ns n) s = (None, s')"
  shows "view (op_world s') = (view (op_world s))((c, ns, n) := None)"
proof -
  obtain r w1 where get: "api_get_service A c ns n (op_world s) = (r, w1)" by fastforce
  note view1 = get_law_view [OF assms(1) get]
  show ?thesis
  proof (cases r)
    case (Inl e)
    with run get have "IsNotFound e" "op_world s' = w1"
      by (auto simp: remove_service_def workload_call_def split: if_splits)
    moreover have "view (op_world s) (c, ns, n) = None"
      using get_law_not_found [OF assms(1)] get Inl \<open>IsNotFound e\<close> by blast
    ultimately show ?thesis using view1 by auto
  next
    case (Inr svc)
    with get_law_Inr [OF assms(1)] get have "svc_Namespace svc = ns" "svc_Name svc = n" by blast+
    with run get Inr have "api_delete_service A c ns n w1 = (Inr (), op_world s')"
      by (auto simp: remove_service_def workload_call_def split: prod.splits)
    from delete_law_Inr [OF assms(2) this] view1 show ?thesis by simp
  qed
qed

section \<open>Lemmas\<close>

text \<open>The calls of a successful deletion on one cluster.\<close>

definition deleted_on :: "PostgresMC \<Rightarrow> ClusterTarget \<Rightarrow> client \<Rightarrow> event list \<Rightarrow> bool" where
  "deleted_on mc target c es \<longleftrightarrow>
     (\<exists>e ss as. es = Call c (DeletePostgresql (ct_Namespace target)
                      (ClusterName (sp_TeamID (mc_Spec mc)) (ct_Name target))) e # ss @ as \<and>
        (case e of None \<Rightarrow> True | Some err \<Rightarrow> IsNotFound err) \<and>
        service_gone c (ct_Namespace target) (ServiceName (mc_Name mc)) ss \<and>
        (if ct_Role target = ClusterRoleStandby
         then service_gone c (ct_Namespace target) (PrimaryAliasName (mc_Name mc)) as else as = []))"

lemma deletePostgresql_emits:
  "emits (deletePostgresql A mc target c) (\<lambda>r es. \<exists>e.
     es = [Call c (DeletePostgresql (ct_Namespace target) (ClusterName (sp_TeamID (mc_Spec mc)) (ct_Name target))) e] \<and>
     (r = None \<longleftrightarrow> (case e of None \<Rightarrow> True | Some err \<Rightarrow> IsNotFound err)))"
  unfolding deletePostgresql_def Let_def by (intro emits_intro) auto

lemma deleteOnCluster_emits:
  "emits (deleteOnCluster A mc target c) (\<lambda>r es.
     list_all (\<lambda>e. ev_client e = Some c) es \<and> (r = None \<longrightarrow> deleted_on mc target c es))"
  unfolding deleteOnCluster_def remove_service_eqs
  apply (rule emits_bind, rule emits_mono [OF deletePostgresql_emits], rule emits_case_option)
   apply (rule emits_bind, rule emits_mono [OF remove_service_emits], rule emits_case_option)
    apply (rule emits_if)
     apply (rule emits_bind, rule emits_mono [OF remove_service_emits], intro emits_intro)
      apply (fastforce simp: deleted_on_def)
     apply fastforce
    apply (rule emits_return, fastforce simp: deleted_on_def)
   apply (rule emits_return, fastforce)
  apply (rule emits_return, fastforce)
  done

text \<open>
  The part of the trace that belongs to one cluster: the read of its kubeconfig, and then either
  all its deletions or nothing, the latter only because no client could be had.
\<close>

definition cluster_deletion :: "'w api \<Rightarrow> time \<Rightarrow> PostgresMC \<Rightarrow> ClusterTarget \<Rightarrow> event list \<Rightarrow> bool" where
  "cluster_deletion A ttl mc target es \<longleftrightarrow>
     (\<exists>e rest. es = TechCall (TechGetSecret (secret_namespace target (mc_Namespace mc)) (ct_ClusterRef target)) e # rest \<and>
        ((\<exists>c. deleted_on mc target c rest) \<or>
         rest = [] \<and> (\<exists>s err. fst (run_state (GetClient A ttl target (mc_Namespace mc)) s) = Inl err)))"

lemma GetClient_read:
  "emits (GetClient A ttl target ns) (\<lambda>r es. \<exists>e.
     es = [TechCall (TechGetSecret (secret_namespace target ns) (ct_ClusterRef target)) e] \<and>
     (\<exists>s. fst (run_state (GetClient A ttl target ns) s) = r))"
proof -
  have "emits (GetClient A ttl target ns) (\<lambda>r es. \<exists>s. fst (run_state (GetClient A ttl target ns) s) = r)"
    unfolding emits_result by (rule emits_mono [OF GetClient_emits]) simp
  from emits_conj [OF GetClient_emits this] show ?thesis
    by (rule emits_mono) (auto simp: secret_namespace_def)
qed

lemma deletion_loop_emits:
  "emits (deletion_loop A ttl mc targets) (\<lambda>r es.
     list_all (\<lambda>e. ev_client e \<noteq> None \<or> (\<exists>ns n res. e = TechCall (TechGetSecret ns n) res)) es \<and>
     (r = None \<longrightarrow> (\<exists>ess. es = concat ess \<and> list_all2 (cluster_deletion A ttl mc) targets ess)))"
proof (induction targets)
  case Nil
  then show ?case by (auto intro: emits_intro)
next
  case (Cons target targets)
  show ?case
    unfolding deletion_loop.simps
  proof (rule emits_bind, rule emits_mono [OF GetClient_read], rule emits_case_sum, goal_cases)
    case (1 r es err)
    then have "cluster_deletion A ttl mc target es"
      by (fastforce simp: cluster_deletion_def)
    with 1 show ?case
      by (intro emits_mono [OF Cons.IH] conjI impI concat_list_all2_Cons) auto
  next
    case (2 r es c)
    show ?case
    proof (rule emits_bind, rule emits_mono [OF deleteOnCluster_emits], rule emits_case_option, goal_cases)
      case (1 d ds)
      with 2 have "cluster_deletion A ttl mc target (es @ ds)" by (fastforce simp: cluster_deletion_def)
      from concat_list_all2_Cons [of "cluster_deletion A ttl mc", OF this] show ?case
        using 1 2 by (intro emits_mono [OF Cons.IH]) (auto simp: list_all_iff)
    next
      case (2 d ds e)
      with \<open>\<exists>e. es = [_ e] \<and> _\<close> show ?case by (intro emits_return) (auto simp: list_all_iff)
    qed
  qed
qed

section \<open>Properties\<close>

text \<open>
  C14. The finalizer goes last: a deletion that returns a result has, for every cluster in the
  order of the spec, deleted the postgresql object, the replication Service and (on a standby)
  the alias, each accepted or already gone, unless no client could be had for the cluster; only
  then it removed exactly this finalizer in one patch. A deletion that fails has not removed it.
\<close>

theorem handleDeletion_finalizer_last:
  "emits (handleDeletion A ttl mc) (\<lambda>r es.
     if containsFinalizer mc finalizerName then
       (let patch = PatchMC mc (mc\<lparr>mc_Finalizers := filter (\<lambda>f. f \<noteq> finalizerName) (mc_Finalizers mc)\<rparr>)
        in case r of
             Ok res \<Rightarrow> res = zero_Result \<and>
               (\<exists>ess e. es = concat ess @ [TechCall patch e] \<and> (case e of None \<Rightarrow> True | Some err \<Rightarrow> IsNotFound err) \<and>
                  list_all2 (cluster_deletion A ttl mc) (sp_Clusters (mc_Spec mc)) ess)
           | Error err \<Rightarrow> list_all (\<lambda>e. e \<noteq> TechCall patch None) es
           | Panics \<Rightarrow> False)
     else es = [] \<and> r = Ok zero_Result)"
  unfolding handleDeletion_def Let_def removeFinalizer_def
  apply (rule emits_if)
   apply (rule emits_return, simp)
  apply (rule emits_bind, rule emits_mono [OF deletion_loop_emits], intro emits_intro)
     apply (auto simp: list_all_iff)
  done

text \<open>
  C37. What a deletion leaves behind: on a server that keeps its promise, a successful deletion
  on a cluster removes the replication Service and, on a standby, the alias, and no other
  Service. On the primary the alias stays: a cluster that was a standby and has been promoted
  keeps the alias Service of its standby days.
\<close>

theorem deleteOnCluster_services:
  assumes reads: "get_law (api_get_service A) service_key view"
    and deletes: "delete_law (api_delete_service A) view"
    and other: "\<And>c ns n w. view (snd (api_delete_postgresql A c ns n w)) = view w"
    and run: "run_state (deleteOnCluster A mc target c) s = (None, s')"
  shows "view (op_world s') = (\<lambda>k.
    if k = (c, ct_Namespace target, ServiceName (mc_Name mc)) then None
    else if ct_Role target = ClusterRoleStandby \<and> k = (c, ct_Namespace target, PrimaryAliasName (mc_Name mc)) then None
    else view (op_world s) k)"
proof -
  obtain p s1 where p: "run_state (deletePostgresql A mc target c) s = (p, s1)" by fastforce
  then have view1: "view (op_world s1) = view (op_world s)"
    using other by (auto simp: deletePostgresql_def workload_call_def Let_def split: prod.splits sum.splits if_splits)
      (metis snd_conv)+
  from run p have "p = None" by (auto simp: deleteOnCluster_def split: option.splits)
  obtain d s2 where d: "run_state (remove_service A c (ct_Namespace target) (ServiceName (mc_Name mc))) s1 = (d, s2)"
    by fastforce
  from run p d \<open>p = None\<close> have "d = None" by (auto simp: deleteOnCluster_def remove_service_eqs split: option.splits)
  note view2 = remove_service_effect [OF reads deletes d [unfolded this]]
  show ?thesis
  proof (cases "ct_Role target = ClusterRoleStandby")
    case True
    obtain a s3 where a: "run_state (remove_service A c (ct_Namespace target) (PrimaryAliasName (mc_Name mc))) s2 = (a, s3)"
      by fastforce
    from run p d a \<open>p = None\<close> \<open>d = None\<close> True have "a = None" "s3 = s'"
      by (auto simp: deleteOnCluster_def remove_service_eqs split: option.splits)
    from remove_service_effect [OF reads deletes a [unfolded this]] view1 view2 True show ?thesis
      by (auto simp: fun_eq_iff)
  next
    case False
    with run p d \<open>p = None\<close> \<open>d = None\<close> have "s' = s2"
      by (auto simp: deleteOnCluster_def remove_service_eqs split: option.splits)
    with view1 view2 False show ?thesis by (auto simp: fun_eq_iff)
  qed
qed

text \<open>The cluster \<open>us\<close> after its promotion, with the alias from its time as a standby.\<close>

definition promoted_us :: ClusterTarget where
  "promoted_us = sample_us\<lparr>ct_Role := ClusterRolePrimary\<rparr>"

definition leftover_world :: mem_world where
  "leftover_world = empty_world\<lparr>mw_services :=
     [(2, ''pg'', ''db-primary'') \<mapsto> externalname_service
        \<lparr>al_PostgresMCName = ''db'', al_StandbyClient = 2, al_StandbyNS = ''pg'', al_PrimaryHost = ''eu.example'',
         al_PrimaryPort = 5432\<rparr> ''db-primary'']\<rparr>"

lemma deleteOnCluster_services_witness:
  "view_services (op_world (snd (run_state (deleteOnCluster mem_api sample_mc promoted_us 2) (mem_state leftover_world))))
     (2, ''pg'', ''db-primary'') \<noteq> None"
proof -
  let ?m = "deleteOnCluster mem_api sample_mc promoted_us 2"
  have run: "run_state ?m (mem_state leftover_world) = (None, snd (run_state ?m (mem_state leftover_world)))"
    by (simp add: deleteOnCluster_def deletePostgresql_def remove_service_eqs remove_service_def workload_call_def
        Let_def mem_defs sample_defs promoted_us_def leftover_world_def ServiceName_def)
  have reads: "get_law (api_get_service mem_api) service_key view_services"
    using mem_service_server by (simp add: service_server_def store_laws_def)
  have other: "view_services (snd (api_delete_postgresql mem_api c ns n w)) = view_services w" for c ns n w
    by (simp add: mem_api_def mem_delete_def view_services_def split: option.split)
  show ?thesis
    by (simp only: deleteOnCluster_services [OF reads mem_service_delete_law other run])
       (simp add: sample_defs promoted_us_def ServiceName_def mem_defs leftover_world_def externalname_service_def)
qed

end
