(* ===== verification/Controller.thy ===== *)
theory Controller
  imports Deletion
begin

text \<open>
  The reconciler (\<open>internal/controller/postgresmc_controller.go\<close>): one call of \<open>Reconcile\<close> reads
  the PostgresMC, handles deletion, the finalizer and an invalid spec, and otherwise runs
  \<open>reconcile\<close>, which resolves the clusters, counts failures of the primary, ensures the
  replication services, reconciles the primary and then the standbys, and patches the status.
\<close>

section \<open>Resolving the clusters\<close>

record resolution =
  rv_mc :: PostgresMC
  rv_clients :: "resolvedCluster list"
  rv_unreachable :: "string list"
  rv_primaryUnreachable :: bool

definition cluster_condition ::
  "PostgresMC \<Rightarrow> string \<Rightarrow> ConditionStatus \<Rightarrow> string \<Rightarrow> string \<Rightarrow> time \<Rightarrow> PostgresMC" where
  "cluster_condition mc clusterName status reason message now =
     mc_set_Clusters (SetClusterCondition (st_Clusters (mc_Status mc)) clusterName ConditionClusterReachable status
       (mc_Generation mc) reason message now) mc"

definition unreachable_text :: "string \<Rightarrow> err \<Rightarrow> string" where
  "unreachable_text name e = ''cluster '' @ name @ '': '' @ err_msg e"

primrec resolve_loop ::
  "'w api \<Rightarrow> time \<Rightarrow> ClusterTarget list \<Rightarrow> resolution \<Rightarrow> ('w, resolution) op" where
  "resolve_loop A ttl [] rv = ret rv"
| "resolve_loop A ttl (target # targets) rv = do {
     r \<leftarrow> GetClient A ttl target (mc_Namespace (rv_mc rv));
     case r of
       Inl e \<Rightarrow> do {
         _ \<leftarrow> record_event ''Warning'' ReasonClusterUnreachable (unreachable_text (ct_Name target) e);
         t1 \<leftarrow> clock_now A;
         t2 \<leftarrow> clock_now A;
         let mc1 = cluster_condition (rv_mc rv) (ct_Name target) ConditionFalse ReasonClusterUnreachable (err_msg e) t1;
         let mc2 = setClusterReady mc1 (ct_Name target) ConditionFalse ReasonClusterUnreachable (err_msg e) t2;
         resolve_loop A ttl targets
           (rv\<lparr>rv_mc := mc2, rv_unreachable := rv_unreachable rv @ [ct_Name target],
               rv_primaryUnreachable :=
                 (if ct_Role target = ClusterRolePrimary then True else rv_primaryUnreachable rv)\<rparr>)
       }
     | Inr c \<Rightarrow> do {
         t1 \<leftarrow> clock_now A;
         let mc1 = cluster_condition (rv_mc rv) (ct_Name target) ConditionTrue ReasonReconcileSuccess [] t1;
         resolve_loop A ttl targets
           (rv\<lparr>rv_mc := mc1, rv_clients := rv_clients rv @ [\<lparr>rcl_Target = target, rcl_Client = c\<rparr>]\<rparr>)
       }
   }"

section \<open>Failure counting\<close>

definition failure_threshold :: "PostgresMC \<Rightarrow> int32" where
  "failure_threshold mc =
     (let threshold = af_PrimaryUnreachableThreshold (sp_AutoFailover (mc_Spec mc))
      in if threshold = 0 then 3 else threshold)"

definition count_failure :: "bool \<Rightarrow> PostgresMC \<Rightarrow> PostgresMC" where
  "count_failure primaryUnreachable mc =
     mc_set_FailureCount (if primaryUnreachable then st_PrimaryFailureCount (mc_Status mc) + 1 else 0) mc"

definition auto_failover_due :: "bool \<Rightarrow> PostgresMC \<Rightarrow> bool" where
  "auto_failover_due primaryUnreachable mc \<longleftrightarrow>
     primaryUnreachable \<and> af_Enabled (sp_AutoFailover (mc_Spec mc)) \<and>
     sint (failure_threshold mc) \<le> sint (st_PrimaryFailureCount (mc_Status mc))"

section \<open>Replication services\<close>

primrec ensure_loop ::
  "'w api \<Rightarrow> resolvedCluster list \<Rightarrow> PostgresMC \<Rightarrow> clusterEndpoint dict \<Rightarrow> time \<Rightarrow>
   ('w, PostgresMC \<times> clusterEndpoint dict \<times> time) op" where
  "ensure_loop A [] mc endpointByCluster requeue = ret (mc, endpointByCluster, requeue)"
| "ensure_loop A (rc # rcs) mc endpointByCluster requeue =
     (let name = ct_Name (rcl_Target rc)
      in do {
        r \<leftarrow> Ensure A (rcl_Client rc) mc (rcl_Target rc);
        case r of
          Inl e \<Rightarrow>
            (let prev = clusterEndpointFromStatus mc name
             in ensure_loop A rcs mc
                  (if ept_Host prev \<noteq> [] then dict_put name prev endpointByCluster else endpointByCluster)
                  requeueProgress)
        | Inr endpoint \<Rightarrow>
            (case endpoint of (host, port) \<Rightarrow>
               ensure_loop A rcs (updateClusterEndpoint mc name (format_endpoint host port))
                 (dict_put name \<lparr>ept_Host = host, ept_Port = port\<rparr> endpointByCluster) requeue)
      })"

section \<open>Primary and standbys\<close>

definition map_index :: "clusterEndpoint dict \<Rightarrow> string \<Rightarrow> clusterEndpoint" where
  "map_index d k = (case dict_get d k of Some ep \<Rightarrow> ep | None \<Rightarrow> zero_clusterEndpoint)"

definition primary_step ::
  "'w api \<Rightarrow> PostgresMC \<Rightarrow> resolvedCluster option \<Rightarrow> time \<Rightarrow> ('w, (PostgresMC \<times> bool \<times> time) outcome) op" where
  "primary_step A mc primary requeue =
     (case primary of
        None \<Rightarrow> ret (Ok (mc, False, requeue))
      | Some p \<Rightarrow> do {
          r \<leftarrow> reconcilePrimary A mc p;
          case r of
            Panics \<Rightarrow> ret Panics
          | Error e \<Rightarrow> do {
              t \<leftarrow> clock_now A;
              ret (Ok (setClusterReady mc (ct_Name (rcl_Target p)) ConditionFalse ReasonZalandoApplyFailed (err_msg e) t,
                       False, requeue))
            }
          | Ok credReady \<Rightarrow> do {
              t \<leftarrow> clock_now A;
              if \<not> credReady
              then ret (Ok (setClusterReady mc (ct_Name (rcl_Target p)) ConditionFalse ReasonCredsNotReady
                              ''waiting for credential secrets'' t, False, requeueProgress))
              else ret (Ok (setClusterReady mc (ct_Name (rcl_Target p)) ConditionTrue ReasonReconcileSuccess [] t,
                            True, requeue))
            }
        })"

primrec standbys_loop ::
  "'w api \<Rightarrow> clusterEndpoint \<Rightarrow> resolvedCluster list \<Rightarrow> PostgresMC \<Rightarrow> ('w, PostgresMC outcome) op" where
  "standbys_loop A primaryEndpoint [] mc = ret (Ok mc)"
| "standbys_loop A primaryEndpoint (standby # standbys) mc = do {
     r \<leftarrow> reconcileStandby A mc primaryEndpoint standby;
     case r of
       Panics \<Rightarrow> ret Panics
     | Error e \<Rightarrow> do {
         t \<leftarrow> clock_now A;
         standbys_loop A primaryEndpoint standbys
           (setClusterReady mc (ct_Name (rcl_Target standby)) ConditionFalse ReasonZalandoApplyFailed (err_msg e) t)
       }
     | Ok _ \<Rightarrow> do {
         t \<leftarrow> clock_now A;
         standbys_loop A primaryEndpoint standbys
           (setClusterReady mc (ct_Name (rcl_Target standby)) ConditionTrue ReasonReconcileSuccess [] t)
       }
   }"

definition standbys_step ::
  "'w api \<Rightarrow> PostgresMC \<Rightarrow> resolvedCluster option \<Rightarrow> bool \<Rightarrow> clusterEndpoint \<Rightarrow> resolvedCluster list \<Rightarrow> time \<Rightarrow>
   ('w, (PostgresMC \<times> time) outcome) op" where
  "standbys_step A mc primary primaryReady primaryEndpoint standbys requeue =
     (case primary of
        None \<Rightarrow> ret (Ok (mc, requeue))
      | Some p \<Rightarrow>
          if primaryReady \<and> standbys \<noteq> [] then do {
            e \<leftarrow> reconcileCredentials A mc p standbys;
            r \<leftarrow> standbys_loop A primaryEndpoint standbys mc;
            case r of
              Panics \<Rightarrow> ret Panics
            | Error e' \<Rightarrow> ret (Error e')
            | Ok mc' \<Rightarrow> ret (Ok (mc', if e \<noteq> None then requeueProgress else requeue))
          }
          else ret (Ok (mc, requeue)))"

section \<open>The status\<close>

definition final_status :: "PostgresMC \<Rightarrow> string \<Rightarrow> string list \<Rightarrow> time \<Rightarrow> PostgresMC" where
  "final_status mc specPrimary unreachable now =
     (let mc = mc_set_ObservedGeneration (mc_Generation mc) (mc_set_CurrentPrimary specPrimary mc);
          phase = fst (Aggregate (st_Clusters (mc_Status mc)) False);
          ready = phase = PhaseReady \<and> unreachable = [];
          readyStatus = (if ready then ConditionTrue else ConditionFalse);
          readyReason = (if unreachable \<noteq> [] then ReasonClusterUnreachable
                         else if phase = PhaseReady then ReasonReconcileSuccess else ReasonPrimaryNotReady);
          mc = mc_set_Phase (if unreachable \<noteq> [] then PhaseDegraded else phase) mc
      in mc_set_Conditions (SetCondition (st_Conditions (mc_Status mc)) ConditionReady readyStatus
           (mc_Generation mc) readyReason [] now) mc)"

section \<open>Reconcile\<close>

text \<open>The second half of \<open>reconcile\<close>, after the failover decisions.\<close>

definition reconcile_clusters ::
  "'w api \<Rightarrow> PostgresMC \<Rightarrow> PostgresMC \<Rightarrow> string \<Rightarrow> resolvedCluster list \<Rightarrow> string list \<Rightarrow>
   ('w, Result outcome) op" where
  "reconcile_clusters A mc orig specPrimary clusterClients unreachable =
     (case splitByRole clusterClients of (primary, standbys) \<Rightarrow> do {
        en \<leftarrow> ensure_loop A clusterClients mc [] requeueDefault;
        case en of (mc1, endpointByCluster, requeue1) \<Rightarrow> do {
          pr \<leftarrow> primary_step A mc1 primary requeue1;
          case pr of
            Panics \<Rightarrow> ret Panics
          | Error e \<Rightarrow> ret (Error e)
          | Ok p \<Rightarrow> (case p of (mc2, primaryReady, requeue2) \<Rightarrow>
              let primaryEndpoint = (case primary of None \<Rightarrow> zero_clusterEndpoint
                                     | Some rc \<Rightarrow> map_index endpointByCluster (ct_Name (rcl_Target rc)))
              in do {
                sb \<leftarrow> standbys_step A mc2 primary primaryReady primaryEndpoint standbys requeue2;
                case sb of
                  Panics \<Rightarrow> ret Panics
                | Error e \<Rightarrow> ret (Error e)
                | Ok s \<Rightarrow> (case s of (mc3, requeue3) \<Rightarrow> do {
                    now \<leftarrow> clock_now A;
                    let mc4 = final_status mc3 specPrimary unreachable now;
                    r \<leftarrow> tech_call (PatchMCStatus orig mc4) (tech_patch_mc_status A orig mc4);
                    case r of
                      Inl e \<Rightarrow> ret (Error (errorf_wrap ''patching status'' e))
                    | Inr stored \<Rightarrow> ret (Ok \<lparr>res_Requeue = False, res_RequeueAfter = requeue3\<rparr>)
                  })
              })
        }
      })"

definition reconcile :: "'w api \<Rightarrow> time \<Rightarrow> PostgresMC \<Rightarrow> ('w, Result outcome) op" where
  "reconcile A ttl mc0 =
     (let orig = mc0;
          mc = ensureClusterStatusRoles mc0;
          specPrimary = primaryClusterName mc
      in if st_CurrentPrimary (mc_Status mc) \<noteq> [] \<and> st_CurrentPrimary (mc_Status mc) \<noteq> specPrimary
         then runFailover A ttl mc orig
         else do {
           rv \<leftarrow> resolve_loop A ttl (sp_Clusters (mc_Spec mc))
                  \<lparr>rv_mc = mc, rv_clients = [], rv_unreachable = [], rv_primaryUnreachable = False\<rparr>;
           let mc1 = count_failure (rv_primaryUnreachable rv) (rv_mc rv);
           if auto_failover_due (rv_primaryUnreachable rv) mc1
           then runAutoFailover A mc1 orig (rv_clients rv)
           else reconcile_clusters A mc1 orig specPrimary (rv_clients rv) (rv_unreachable rv)
         })"

definition invalid_spec_status :: "PostgresMC \<Rightarrow> err \<Rightarrow> time \<Rightarrow> PostgresMC" where
  "invalid_spec_status mc e now =
     mc_set_Phase PhaseFailed
       (mc_set_Conditions (SetCondition (st_Conditions (mc_Status mc)) ConditionReady ConditionFalse
          (mc_Generation mc) ReasonSpecInvalid (err_msg e) now) mc)"

definition is_deleted :: "PostgresMC \<Rightarrow> bool" where
  "is_deleted mc = (case mc_DeletionTimestamp mc of None \<Rightarrow> False | Some t \<Rightarrow> t \<noteq> 0)"

text \<open>\<open>Reconcile\<close> after the object was read.\<close>

definition Reconcile_object :: "'w api \<Rightarrow> time \<Rightarrow> PostgresMC \<Rightarrow> ('w, Result outcome) op" where
  "Reconcile_object A ttl mc =
     (if is_deleted mc then handleDeletion A ttl mc
      else if \<not> containsFinalizer mc finalizerName then
        (let mc' = mc\<lparr>mc_Finalizers := mc_Finalizers mc @ [finalizerName]\<rparr>
         in do {
           r \<leftarrow> tech_call (UpdateMC mc') (tech_update_mc A mc');
           case r of
             Inl e \<Rightarrow> ret (Error (errorf_wrap ''adding finalizer'' e))
           | Inr stored \<Rightarrow> ret (Ok \<lparr>res_Requeue = True, res_RequeueAfter = 0\<rparr>)
         })
      else case validateSpec mc of
             Some e \<Rightarrow> do {
               _ \<leftarrow> record_event ''Warning'' ReasonSpecInvalid (err_msg e);
               now \<leftarrow> clock_now A;
               let mc' = invalid_spec_status mc e now;
               _ \<leftarrow> tech_call (PatchMCStatus mc mc') (tech_patch_mc_status A mc mc');
               ret (Ok zero_Result)
             }
           | None \<Rightarrow> reconcile A ttl mc)"

definition Reconcile :: "'w api \<Rightarrow> time \<Rightarrow> string \<Rightarrow> string \<Rightarrow> ('w, Result outcome) op" where
  "Reconcile A ttl ns name = do {
     r \<leftarrow> tech_call (GetMC ns name) (tech_get_mc A ns name);
     case r of
       Inl e \<Rightarrow> if IsNotFound e then ret (Ok zero_Result) else ret (Error e)
     | Inr mc \<Rightarrow> Reconcile_object A ttl mc
   }"

text \<open>The time to live of the client cache that \<open>cmd/main.go\<close> sets: ten minutes.\<close>

definition registryTTL :: time where
  "registryTTL = 10 * 60 * 1000000000"

section \<open>Status updates of the loops\<close>

text \<open>
  Between the first and the last status patch the loops only touch the status entries of the
  clusters \<open>T\<close> that they handle: everything else of the resource, the order, names and roles of
  the entries and the entries of other clusters stay as they are.
\<close>

definition status_step :: "string set \<Rightarrow> PostgresMC \<Rightarrow> PostgresMC \<Rightarrow> bool" where
  "status_step T mc mc' \<longleftrightarrow> (\<exists>cs. mc' = mc_set_Clusters cs mc) \<and>
     (T \<subseteq> cs_Name ` set (st_Clusters (mc_Status mc)) \<longrightarrow>
        map (\<lambda>x. (cs_Name x, cs_Role x)) (st_Clusters (mc_Status mc')) =
          map (\<lambda>x. (cs_Name x, cs_Role x)) (st_Clusters (mc_Status mc)) \<and>
        (\<forall>x \<in> set (st_Clusters (mc_Status mc)). cs_Name x \<notin> T \<longrightarrow> x \<in> set (st_Clusters (mc_Status mc'))))"

lemma status_step_refl [simp]: "status_step T mc mc"
proof -
  have "mc = mc_set_Clusters (st_Clusters (mc_Status mc)) mc" by simp
  then show ?thesis unfolding status_step_def by blast
qed

lemma map_fst_names: "map (\<lambda>x. (cs_Name x, cs_Role x)) cs = map (\<lambda>x. (cs_Name x, cs_Role x)) cs' \<Longrightarrow>
    cs_Name ` set cs = cs_Name ` set cs'"
  by (drule arg_cong [where f = "\<lambda>l. fst ` set l"]) (simp add: image_image)

lemma status_step_trans:
  assumes 1: "status_step T mc mc1" and 2: "status_step T mc1 mc2"
  shows "status_step T mc mc2"
  unfolding status_step_def
proof (intro conjI impI)
  show "\<exists>cs. mc2 = mc_set_Clusters cs mc" using 1 2 by (auto simp: status_step_def)
next
  assume T: "T \<subseteq> cs_Name ` set (st_Clusters (mc_Status mc))"
  with 1 have m1: "map (\<lambda>x. (cs_Name x, cs_Role x)) (st_Clusters (mc_Status mc1)) =
      map (\<lambda>x. (cs_Name x, cs_Role x)) (st_Clusters (mc_Status mc))"
    and k1: "\<forall>x \<in> set (st_Clusters (mc_Status mc)). cs_Name x \<notin> T \<longrightarrow> x \<in> set (st_Clusters (mc_Status mc1))"
    unfolding status_step_def by blast+
  from T map_fst_names [OF m1] 2 have m2: "map (\<lambda>x. (cs_Name x, cs_Role x)) (st_Clusters (mc_Status mc2)) =
      map (\<lambda>x. (cs_Name x, cs_Role x)) (st_Clusters (mc_Status mc1))"
    and k2: "\<forall>x \<in> set (st_Clusters (mc_Status mc1)). cs_Name x \<notin> T \<longrightarrow> x \<in> set (st_Clusters (mc_Status mc2))"
    unfolding status_step_def by auto
  from m1 m2 show "map (\<lambda>x. (cs_Name x, cs_Role x)) (st_Clusters (mc_Status mc2)) =
      map (\<lambda>x. (cs_Name x, cs_Role x)) (st_Clusters (mc_Status mc))" by simp
  from k1 k2 show "\<forall>x \<in> set (st_Clusters (mc_Status mc)). cs_Name x \<notin> T \<longrightarrow> x \<in> set (st_Clusters (mc_Status mc2))" by blast
qed

lemma status_step_mono: "status_step T mc mc' \<Longrightarrow> T \<subseteq> T' \<Longrightarrow> status_step T' mc mc'"
  unfolding status_step_def by blast

lemma SetClusterCondition_other: "x \<in> set cs \<Longrightarrow> cs_Name x \<noteq> n \<Longrightarrow> x \<in> set (SetClusterCondition cs n t st g r m now)"
  by (induction cs) auto

lemma status_step_SetClusterCondition:
  "n \<in> T \<Longrightarrow> status_step T mc (mc_set_Clusters (SetClusterCondition (st_Clusters (mc_Status mc)) n t st g r m now) mc)"
proof -
  assume "n \<in> T"
  have "map (\<lambda>x. (cs_Name x, cs_Role x)) (SetClusterCondition cs n t st g r m now) = map (\<lambda>x. (cs_Name x, cs_Role x)) cs"
    if "n \<in> cs_Name ` set cs" for cs
    using that by (induction cs) auto
  with \<open>n \<in> T\<close> show ?thesis
    unfolding status_step_def by (auto intro: SetClusterCondition_other)
qed

lemma status_step_ready [simp]: "n \<in> T \<Longrightarrow> status_step T mc (setClusterReady mc n st r m now)"
  unfolding setClusterReady_def by (rule status_step_SetClusterCondition)

lemma status_step_condition [simp]: "n \<in> T \<Longrightarrow> status_step T mc (cluster_condition mc n st r m now)"
  unfolding cluster_condition_def by (rule status_step_SetClusterCondition)

lemma status_step_endpoint [simp]: "n \<in> T \<Longrightarrow> status_step T mc (updateClusterEndpoint mc n e)"
proof -
  assume "n \<in> T"
  have "map (\<lambda>x. (cs_Name x, cs_Role x)) (set_endpoint cs n e) = map (\<lambda>x. (cs_Name x, cs_Role x)) cs" for cs
    by (induction cs) auto
  moreover have "x \<in> set (set_endpoint cs n e)" if "x \<in> set cs" "cs_Name x \<noteq> n" for x cs
    using that by (induction cs) auto
  ultimately show ?thesis
    using \<open>n \<in> T\<close> unfolding status_step_def updateClusterEndpoint_def by auto
qed

lemma status_step_fields:
  assumes "status_step T mc mc'"
  shows "mc_Spec mc' = mc_Spec mc" "mc_Name mc' = mc_Name mc" "mc_Namespace mc' = mc_Namespace mc"
    "mc_Generation mc' = mc_Generation mc" "st_CurrentPrimary (mc_Status mc') = st_CurrentPrimary (mc_Status mc)"
    "st_PrimaryFailureCount (mc_Status mc') = st_PrimaryFailureCount (mc_Status mc)"
  using assms by (auto simp: status_step_def)

section \<open>Traces of the loops\<close>

text \<open>The clusters of the spec with the answers that the registry gave for them.\<close>

definition reached :: "ClusterTarget list \<Rightarrow> (err + client) list \<Rightarrow> resolvedCluster list" where
  "reached targets outs = concat (map2 (\<lambda>t r. case r of Inl e \<Rightarrow> [] | Inr c \<Rightarrow> [\<lparr>rcl_Target = t, rcl_Client = c\<rparr>]) targets outs)"

definition missed :: "ClusterTarget list \<Rightarrow> (err + client) list \<Rightarrow> ClusterTarget list" where
  "missed targets outs = concat (map2 (\<lambda>t r. case r of Inl e \<Rightarrow> [t] | Inr c \<Rightarrow> []) targets outs)"

lemma reached_targets: "rcl_Target ` set (reached targets outs) \<subseteq> set targets"
  by (fastforce simp: reached_def set_zip split: sum.splits)

lemma missed_targets: "set (missed targets outs) \<subseteq> set targets"
  by (fastforce simp: missed_def set_zip split: sum.splits)

text \<open>An event of the resolution: a kubeconfig read or the warning about an unreachable cluster.\<close>

definition unreachable_warning :: "ClusterTarget \<Rightarrow> event \<Rightarrow> bool" where
  "unreachable_warning t e \<longleftrightarrow>
     (\<exists>err. e = Recorded ''Warning'' ReasonClusterUnreachable (unreachable_text (ct_Name t) err))"

definition resolve_event :: "event \<Rightarrow> bool" where
  "resolve_event e \<longleftrightarrow> kubeconfig_read e \<or> (\<exists>t. unreachable_warning t e)"

lemma resolve_event_simps [simp]:
  "\<not> resolve_event (Call c rq res)" "resolve_event (TechCall (TechGetSecret ns n) res)"
  "\<not> resolve_event (TechCall (PatchMC a b) res)" "\<not> resolve_event (TechCall (PatchMCStatus a b) res)"
  "resolve_event (Recorded ''Warning'' ReasonClusterUnreachable (unreachable_text (ct_Name t) err))"
  "unreachable_warning t (Recorded ''Warning'' ReasonClusterUnreachable (unreachable_text (ct_Name t) err))"
  by (auto simp: resolve_event_def unreachable_warning_def)

lemma resolve_loop_emits:
  assumes "ct_Name ` set targets \<subseteq> T"
  shows "emits (resolve_loop A ttl targets rv) (\<lambda>rv' es. list_all resolve_event es \<and>
     status_step T (rv_mc rv) (rv_mc rv') \<and>
     (\<exists>outs. length outs = length targets \<and>
        rv_clients rv' = rv_clients rv @ reached targets outs \<and>
        rv_unreachable rv' = rv_unreachable rv @ map ct_Name (missed targets outs) \<and>
        (rv_primaryUnreachable rv' \<longleftrightarrow>
           rv_primaryUnreachable rv \<or> (\<exists>t \<in> set (missed targets outs). ct_Role t = ClusterRolePrimary)) \<and>
        (\<forall>t \<in> set (missed targets outs). list_ex (unreachable_warning t) es)))"
  using assms
proof (induction targets arbitrary: rv)
  case Nil
  then show ?case by (auto simp: reached_def missed_def intro!: emits_return)
next
  case (Cons target targets)
  have n: "ct_Name target \<in> T" using Cons.prems by simp
  have IH: "emits (resolve_loop A ttl targets rv) (\<lambda>rv' es. list_all resolve_event es \<and>
     status_step T (rv_mc rv) (rv_mc rv') \<and>
     (\<exists>outs. length outs = length targets \<and>
        rv_clients rv' = rv_clients rv @ reached targets outs \<and>
        rv_unreachable rv' = rv_unreachable rv @ map ct_Name (missed targets outs) \<and>
        (rv_primaryUnreachable rv' \<longleftrightarrow>
           rv_primaryUnreachable rv \<or> (\<exists>t \<in> set (missed targets outs). ct_Role t = ClusterRolePrimary)) \<and>
        (\<forall>t \<in> set (missed targets outs). list_ex (unreachable_warning t) es)))" for rv
    using Cons by auto
  show ?case
    unfolding resolve_loop.simps Let_def
  proof (rule emits_bind, rule emits_mono [OF GetClient_read], intro emits_intro, goal_cases)
    case (1 r es e t1 t2)
    note read = 1
    let ?mc = "setClusterReady (cluster_condition (rv_mc rv) (ct_Name target) ConditionFalse ReasonClusterUnreachable
        (err_msg e) t1) (ct_Name target) ConditionFalse ReasonClusterUnreachable (err_msg e) t2"
    have step: "status_step T (rv_mc rv) ?mc"
      by (rule status_step_trans [OF status_step_condition [OF n] status_step_ready [OF n]])
    show ?case
    proof (rule emits_mono [OF IH], elim conjE exE, intro conjI, goal_cases)
      case (1 b es' outs)
      with read show ?case by auto
    next
      case (2 b es' outs)
      with status_step_trans [OF step] show ?case by simp
    next
      case (3 b es' outs)
      then show ?case by (intro exI [of _ "Inl e # outs"]) (simp add: reached_def missed_def)
    qed
  next
    case (2 r es c t1)
    note read = 2
    note step = status_step_condition [OF n, of "rv_mc rv" ConditionTrue ReasonReconcileSuccess "[]" t1]
    show ?case
    proof (rule emits_mono [OF IH], elim conjE exE, intro conjI, goal_cases)
      case (1 b es' outs)
      with read show ?case by auto
    next
      case (2 b es' outs)
      with status_step_trans [OF step] show ?case by simp
    next
      case (3 b es' outs)
      then show ?case by (intro exI [of _ "Inr c # outs"]) (simp add: reached_def missed_def)
    qed
  qed
qed

text \<open>
  The writes that belong to a standby of the PostgresMC \<open>n\<close>: a postgresql object with a standby
  section, a credential Secret, the alias Service and its Endpoints.
\<close>

definition standby_write :: "string \<Rightarrow> event \<Rightarrow> bool" where
  "standby_write n e = (case e of
     Call c rq res \<Rightarrow>
       (case rq of
          ApplyPostgresql obj \<Rightarrow> obj_standby obj \<noteq> None
        | CreateSecret x \<Rightarrow> True | UpdateSecret x \<Rightarrow> True
        | CreateService svc \<Rightarrow> svc_Name svc = PrimaryAliasName n
        | CreateEndpoints ep \<Rightarrow> True | UpdateEndpoints ep \<Rightarrow> True
        | _ \<Rightarrow> False)
   | _ \<Rightarrow> False)"

text \<open>An event of the work on the clusters: a workload call or the warning about credentials.\<close>

definition work_event :: "event \<Rightarrow> bool" where
  "work_event e = (case e of
     Call c rq res \<Rightarrow> True
   | TechCall rq res \<Rightarrow> False
   | Recorded t reason msg \<Rightarrow> reason = ReasonCredsNotReady)"

lemma work_event_simps [simp]:
  "work_event (Call c rq res)" "\<not> work_event (TechCall trq res)"
  "work_event (Recorded t reason msg) \<longleftrightarrow> reason = ReasonCredsNotReady"
  "\<not> standby_write n (TechCall trq res)" "\<not> standby_write n (Recorded t reason msg)"
  "standby_write n (Call c (ApplyPostgresql obj) res) \<longleftrightarrow> obj_standby obj \<noteq> None"
  by (simp_all add: work_event_def standby_write_def)

lemma replication_not_standby: "replication_request (mc, t) rq \<Longrightarrow> \<not> standby_write (mc_Name mc) (Call c rq res)"
  by (cases rq) (auto simp: standby_write_def ServiceName_def PrimaryAliasName_def)

lemma ensure_loop_emits:
  assumes "(\<lambda>rc. ct_Name (rcl_Target rc)) ` set rcs \<subseteq> T"
  shows "emits (ensure_loop A rcs mc d requeue) (\<lambda>r es. case r of (mc', d', requeue') \<Rightarrow>
     list_all (\<lambda>e. work_event e \<and> \<not> standby_write (mc_Name mc) e) es \<and> status_step T mc mc' \<and>
     (requeue' = requeue \<or> requeue' = requeueProgress))"
  using assms
proof (induction rcs arbitrary: mc d requeue)
  case Nil
  then show ?case by (auto intro: emits_return)
next
  case (Cons rc rcs)
  then have n: "ct_Name (rcl_Target rc) \<in> T" by simp
  have ens: "emits (Ensure A c mc t) (\<lambda>r es. list_all (\<lambda>e. work_event e \<and> \<not> standby_write (mc_Name mc) e) es)"
    for c t
    by (rule emits_mono [OF replication_manager.op_emits [of A c "(mc, t)", simplified]])
       (auto simp: list_all_iff dest: replication_not_standby)
  have name: "mc_Name (updateClusterEndpoint mc k v) = mc_Name mc" for k v
    by (simp add: updateClusterEndpoint_def)
  show ?case
    unfolding ensure_loop.simps Let_def
    apply (rule emits_bind, rule emits_mono [OF ens], intro emits_intro)
     apply (rule emits_mono [OF Cons.IH])
    using Cons.prems apply simp
     apply auto[1]
    apply (rule emits_mono [OF Cons.IH])
    using Cons.prems apply simp
    apply (auto simp: name intro: status_step_trans [OF status_step_endpoint [OF n]])
    done
qed

lemma primary_step_emits:
  assumes "\<And>p. primary = Some p \<Longrightarrow> ct_Name (rcl_Target p) \<in> T"
  shows "emits (primary_step A mc primary requeue) (\<lambda>r es.
     list_all (\<lambda>e. work_event e \<and> \<not> standby_write (mc_Name mc) e) es \<and>
     (case r of
        Ok x \<Rightarrow> (case x of (mc', ready, requeue') \<Rightarrow> status_step T mc mc' \<and>
          (requeue' = requeue \<or> requeue' = requeueProgress) \<and> (ready \<longrightarrow> list_ex applied_primary es))
      | Error e \<Rightarrow> False
      | Panics \<Rightarrow> True))"
proof -
  have read: "\<not> standby_write n (credential_read c ns z role res) \<and> work_event (credential_read c ns z role res)"
    for n c ns z role res
    by (simp add: credential_read_def standby_write_def)
  have rec: "emits (reconcilePrimary A mc p) (\<lambda>r es.
      list_all (\<lambda>e. work_event e \<and> \<not> standby_write (mc_Name mc) e) es \<and> (r = Ok True \<longrightarrow> list_ex applied_primary es))" for p
  proof (rule emits_mono [OF reconcilePrimary_emits], unfold Let_def, elim disjE exE conjE)
    fix r :: "bool outcome" and es obj res reads
    assume es: "es = Call (rcl_Client p) (ApplyPostgresql obj) res # reads"
      and reads: "\<forall>e \<in> set reads. \<exists>role res. e =
        credential_read (rcl_Client p) (ct_Namespace (rcl_Target p)) (primary_zname mc (rcl_Target p)) role res"
      and res: "res \<noteq> None \<longrightarrow> reads = [] \<and> (\<exists>e. r = Error e)"
      and obj: "BuildPrimary mc (rcl_Target p) = Ok obj"
    have "list_all (\<lambda>e. work_event e \<and> \<not> standby_write (mc_Name mc) e) reads"
      using reads read by (fastforce simp: list_all_iff)
    with es res zalando.primary_no_standby [OF obj] show
      "list_all (\<lambda>e. work_event e \<and> \<not> standby_write (mc_Name mc) e) es \<and> (r = Ok True \<longrightarrow> list_ex applied_primary es)"
      by auto
  qed auto
  show ?thesis
  proof (cases primary)
    case None
    then show ?thesis by (simp add: primary_step_def emits_return)
  next
    case (Some p)
    with assms have n: "ct_Name (rcl_Target p) \<in> T" by simp
    show ?thesis
      unfolding primary_step_def Some option.case
      by (rule emits_bind, rule emits_mono [OF rec], intro emits_intro) (auto simp: n)
  qed
qed

lemma standby_trace_work: "standby_trace mc ep rc r es \<Longrightarrow> list_all work_event es"
  unfolding standby_trace_def list_all_iff by fastforce

lemma standbys_loop_emits:
  assumes "(\<lambda>rc. ct_Name (rcl_Target rc)) ` set rcs \<subseteq> T"
  shows "emits (standbys_loop A ep rcs mc) (\<lambda>r es. list_all work_event es \<and>
     (case r of Ok mc' \<Rightarrow> status_step T mc mc' | Error e \<Rightarrow> False | Panics \<Rightarrow> True))"
  using assms
proof (induction rcs arbitrary: mc)
  case Nil
  then show ?case by (auto intro: emits_return)
next
  case (Cons rc rcs)
  then have n: "ct_Name (rcl_Target rc) \<in> T" by simp
  have IH: "emits (standbys_loop A ep rcs mc') (\<lambda>r es. list_all work_event es \<and>
     (case r of Ok mc2 \<Rightarrow> status_step T mc' mc2 | Error e \<Rightarrow> False | Panics \<Rightarrow> True))" for mc'
    using Cons by auto
  show ?case
    unfolding standbys_loop.simps
    by (rule emits_bind, rule emits_mono [OF reconcileStandby_emits], intro emits_intro emits_mono [OF IH])
       (auto dest!: standby_trace_work split: outcome.splits
         intro: status_step_trans [OF status_step_ready [OF n]])
qed

lemma standbys_step_emits:
  assumes "(\<lambda>rc. ct_Name (rcl_Target rc)) ` set standbys \<subseteq> T"
  shows "emits (standbys_step A mc primary ready ep standbys requeue) (\<lambda>r es.
     list_all work_event es \<and> (\<not> ready \<longrightarrow> es = []) \<and>
     (case r of
        Ok x \<Rightarrow> (case x of (mc', requeue') \<Rightarrow> status_step T mc mc' \<and> (requeue' = requeue \<or> requeue' = requeueProgress))
      | Error e \<Rightarrow> False | Panics \<Rightarrow> True))"
proof -
  have creds: "emits (reconcileCredentials A mc p sts) (\<lambda>r es. list_all work_event es)" for p sts
    by (rule emits_mono [OF reconcileCredentials_footprint]) (auto simp: list_all_iff sync_event_def)
  show ?thesis
    unfolding standbys_step_def
    apply (intro emits_case_option)
     apply (rule emits_return, simp)
    apply (rule emits_if)
     apply (rule emits_bind, rule emits_mono [OF creds], rule emits_bind,
        rule emits_mono [OF standbys_loop_emits [OF assms]], intro emits_intro)
       apply (auto intro!: emits_return)
    done
qed

lemma work_trace:
  assumes "list_all (\<lambda>e. work_event e \<and> \<not> standby_write n e) en"
    and "list_all (\<lambda>e. work_event e \<and> \<not> standby_write n e) pr"
    and "list_all work_event sb" "\<not> ready \<longrightarrow> sb = []" "ready \<longrightarrow> list_ex applied_primary pr"
  shows "list_all work_event (en @ pr @ sb)" "preceded applied_primary (standby_write n) (en @ pr @ sb)"
proof -
  show "list_all work_event (en @ pr @ sb)" using assms(1-3) by (auto simp: list_all_iff)
  have "preceded applied_primary (standby_write n) (pr @ sb)"
    using assms(2,4,5) by (intro preceded_append preceded_none) (auto simp: list_all_iff)
  then show "preceded applied_primary (standby_write n) (en @ pr @ sb)"
    using assms(1) by (intro preceded_append preceded_none) (auto simp: list_all_iff)
qed

text \<open>The end of a reconcile of the clusters: a panic, or one status patch and its verdict.\<close>

definition final_patch ::
  "string set \<Rightarrow> PostgresMC \<Rightarrow> PostgresMC \<Rightarrow> string \<Rightarrow> string list \<Rightarrow> Result outcome \<Rightarrow> event list \<Rightarrow> bool" where
  "final_patch T mc orig sp unr r tail \<longleftrightarrow>
     tail = [] \<and> r = Panics \<or>
     (\<exists>mc' now e. tail = [TechCall (PatchMCStatus orig (final_status mc' sp unr now)) e] \<and> status_step T mc mc' \<and>
        (case e of
           Some err \<Rightarrow> \<exists>err. r = Error err
         | None \<Rightarrow> \<exists>after \<in> {requeueDefault, requeueProgress}. r = Ok \<lparr>res_Requeue = False, res_RequeueAfter = after\<rparr>))"

definition clusters_trace ::
  "string set \<Rightarrow> PostgresMC \<Rightarrow> PostgresMC \<Rightarrow> string \<Rightarrow> string list \<Rightarrow> Result outcome \<Rightarrow> event list \<Rightarrow> bool" where
  "clusters_trace T mc orig sp unr r es \<longleftrightarrow>
     (\<exists>work tail. es = work @ tail \<and> list_all work_event work \<and>
        preceded applied_primary (standby_write (mc_Name mc)) work \<and> final_patch T mc orig sp unr r tail)"

text \<open>
  The trace of \<open>reconcile_clusters\<close>: work on the clusters, no standby write before an accepted
  write of the primary object, and unless it panics exactly one status patch at the end.
\<close>

lemma reconcile_clusters_emits:
  assumes T: "(\<lambda>rc. ct_Name (rcl_Target rc)) ` set rcs \<subseteq> T"
  shows "emits (reconcile_clusters A mc orig sp rcs unr) (clusters_trace T mc orig sp unr)"
proof -
  obtain primary standbys where split: "splitByRole rcs = (primary, standbys)" by fastforce
  have prim: "ct_Name (rcl_Target p) \<in> T" if "primary = Some p" for p
    using splitByRole_primary [of rcs p] that split T by auto
  have stand: "(\<lambda>rc. ct_Name (rcl_Target rc)) ` set standbys \<subseteq> T"
    using splitByRole_standbys [of rcs] split T by auto
  have panics: "clusters_trace T mc orig sp unr Panics es"
    if "list_all work_event es" "preceded applied_primary (standby_write (mc_Name mc)) es" for es
    using that unfolding clusters_trace_def final_patch_def by (intro exI [of _ es] exI [of _ "[]"]) simp
  show ?thesis
    unfolding reconcile_clusters_def split prod.case Let_def
  proof (rule emits_bind, rule emits_mono [OF ensure_loop_emits [OF T]], rule emits_case_prod, rule emits_case_prod,
      rule emits_bind, rule emits_mono [OF primary_step_emits [OF prim]], assumption, rule emits_case_outcome, goal_cases)
    case (1 x en mc1 b d requeue1 y pr z)
    obtain mc2 ready requeue2 where z: "z = (mc2, ready, requeue2)" by (cases z) auto
    from 1 have s1: "status_step T mc mc1" and en: "list_all (\<lambda>e. work_event e \<and> \<not> standby_write (mc_Name mc) e) en"
      and rq1: "requeue1 \<in> {requeueDefault, requeueProgress}" by auto
    from 1 z have s2: "status_step T mc1 mc2" and pr: "list_all (\<lambda>e. work_event e \<and> \<not> standby_write (mc_Name mc) e) pr"
      and ready: "ready \<longrightarrow> list_ex applied_primary pr" and rq2: "requeue2 \<in> {requeueDefault, requeueProgress}"
      using rq1 by (auto simp: status_step_fields(2) [OF s1])
    show ?case
      unfolding z prod.case
    proof (rule emits_bind, rule emits_mono [OF standbys_step_emits [OF stand]], rule emits_case_outcome, goal_cases)
      case (1 r sb w)
      obtain mc3 requeue3 where w: "w = (mc3, requeue3)" by (cases w)
      from 1 w rq2 have s3: "status_step T mc2 mc3" and sb: "list_all work_event sb" "\<not> ready \<longrightarrow> sb = []"
        and rq3: "requeue3 \<in> {requeueDefault, requeueProgress}" by auto
      note trace = work_trace [OF en pr sb ready]
      note step = status_step_trans [OF status_step_trans [OF s1 s2] s3]
      have final: "clusters_trace T mc orig sp unr r (en @ pr @ sb @ [TechCall (PatchMCStatus orig (final_status mc3 sp unr now)) e])"
        if "case e of Some err \<Rightarrow> \<exists>err. r = Error err
           | None \<Rightarrow> \<exists>after \<in> {requeueDefault, requeueProgress}. r = Ok \<lparr>res_Requeue = False, res_RequeueAfter = after\<rparr>" for r now e
        using trace step that unfolding clusters_trace_def final_patch_def
        by (intro exI [of _ "en @ pr @ sb"] exI [of _ "[TechCall (PatchMCStatus orig (final_status mc3 sp unr now)) e]"]) auto
      show ?case
        unfolding w prod.case
        by (intro emits_bind emits_now emits_tech_call emits_case_sum emits_return) (use final rq3 in auto)
    next
      case (3 r sb)
      then show ?case using work_trace [OF en pr _ _ ready, of sb] by (intro emits_return) (auto intro: panics)
    qed (auto intro: emits_return)
  next
    case (3 x en mc1 b d requeue1 y pr)
    then have s1: "status_step T mc mc1" by auto
    with 3 show ?case
      using work_trace [of "mc_Name mc" en pr "[]" False]
      by (intro emits_return) (auto intro!: panics simp: status_step_fields(2) [OF s1])
  qed (auto intro: emits_return)
qed

section \<open>The trace of a reconcile\<close>

text \<open>The calls of an automatic failover: events, one spec patch, status patches.\<close>

definition auto_event :: "PostgresMC \<Rightarrow> PostgresMC \<Rightarrow> event \<Rightarrow> bool" where
  "auto_event orig mc e = (case e of
     Call c rq res \<Rightarrow> False
   | Recorded t reason msg \<Rightarrow> reason = ReasonAutoFailover
   | TechCall rq res \<Rightarrow>
       (case rq of
          PatchMC a b \<Rightarrow> True
        | PatchMCStatus a b \<Rightarrow> a = orig \<and> (b = mc \<or> b = mc_set_FailureCount 0 mc)
        | _ \<Rightarrow> False))"

lemma runAutoFailover_footprint: "emits (runAutoFailover A mc orig reachable) (\<lambda>r es. list_all (auto_event orig mc) es)"
  unfolding runAutoFailover_def Let_def by (intro emits_intro) (auto simp: auto_event_def)

text \<open>
  What the resolution has established: the warnings, the failure count, and the status entries,
  of which only those of the spec's clusters have changed.
\<close>

abbreviation spec_names :: "PostgresMC \<Rightarrow> string set" where
  "spec_names mc \<equiv> ct_Name ` set (sp_Clusters (mc_Spec mc))"

definition resolved ::
  "PostgresMC \<Rightarrow> event list \<Rightarrow> bool \<Rightarrow> PostgresMC \<Rightarrow> string list \<Rightarrow> bool" where
  "resolved mc ws primaryUnreachable mc1 unreachable \<longleftrightarrow>
     list_all resolve_event ws \<and>
     (\<exists>mcr. status_step (spec_names mc) (ensureClusterStatusRoles mc) mcr \<and> mc1 = count_failure primaryUnreachable mcr) \<and>
     (primaryUnreachable \<longrightarrow> unreachable \<noteq> [] \<and>
        (\<exists>t \<in> set (sp_Clusters (mc_Spec mc)). ct_Role t = ClusterRolePrimary \<and> list_ex (unreachable_warning t) ws)) \<and>
     set unreachable \<subseteq> spec_names mc"

lemma ensure_fields [simp]:
  "mc_Spec (ensureClusterStatusRoles mc) = mc_Spec mc" "mc_Name (ensureClusterStatusRoles mc) = mc_Name mc"
  "mc_Namespace (ensureClusterStatusRoles mc) = mc_Namespace mc"
  "mc_Generation (ensureClusterStatusRoles mc) = mc_Generation mc"
  "st_CurrentPrimary (mc_Status (ensureClusterStatusRoles mc)) = st_CurrentPrimary (mc_Status mc)"
  "st_PrimaryFailureCount (mc_Status (ensureClusterStatusRoles mc)) = st_PrimaryFailureCount (mc_Status mc)"
  "primaryClusterName (ensureClusterStatusRoles mc) = primaryClusterName mc"
  by (simp_all add: ensureClusterStatusRoles_def Let_def primaryClusterName_def)

lemma ensure_names:
  assumes "distinct (map ct_Name (sp_Clusters (mc_Spec mc)))"
  shows "spec_names mc \<subseteq> cs_Name ` set (st_Clusters (mc_Status (ensureClusterStatusRoles mc)))"
  by (auto simp: ensureClusterStatusRoles_eq [OF assms] image_Un image_image)

definition enters_failover :: "PostgresMC \<Rightarrow> bool" where
  "enters_failover mc \<longleftrightarrow>
     st_CurrentPrimary (mc_Status mc) \<noteq> [] \<and> st_CurrentPrimary (mc_Status mc) \<noteq> primaryClusterName mc"

lemma reconcile_failover:
  "enters_failover mc \<Longrightarrow> reconcile A ttl mc = runFailover A ttl (ensureClusterStatusRoles mc) mc"
  by (simp add: reconcile_def Let_def enters_failover_def)

lemma reconcile_path:
  assumes "\<not> enters_failover mc"
  shows "reconcile A ttl mc = do {
      rv \<leftarrow> resolve_loop A ttl (sp_Clusters (mc_Spec mc))
             \<lparr>rv_mc = ensureClusterStatusRoles mc, rv_clients = [], rv_unreachable = [], rv_primaryUnreachable = False\<rparr>;
      if auto_failover_due (rv_primaryUnreachable rv) (count_failure (rv_primaryUnreachable rv) (rv_mc rv))
      then runAutoFailover A (count_failure (rv_primaryUnreachable rv) (rv_mc rv)) mc (rv_clients rv)
      else reconcile_clusters A (count_failure (rv_primaryUnreachable rv) (rv_mc rv)) mc (primaryClusterName mc)
             (rv_clients rv) (rv_unreachable rv)}"
  using assms by (auto simp: reconcile_def Let_def enters_failover_def cong: if_cong)

lemma reconcile_rule:
  assumes stays: "\<not> enters_failover mc"
    and auto: "\<And>ws pu mc1 unr rest r. resolved mc ws pu mc1 unr \<Longrightarrow> auto_failover_due pu mc1 \<Longrightarrow>
      list_all (auto_event mc mc1) rest \<Longrightarrow> Q r (ws @ rest)"
    and clusters: "\<And>ws pu mc1 unr rest r. resolved mc ws pu mc1 unr \<Longrightarrow> \<not> auto_failover_due pu mc1 \<Longrightarrow>
      clusters_trace (spec_names mc) mc1 mc (primaryClusterName mc) unr r rest \<Longrightarrow> Q r (ws @ rest)"
  shows "emits (reconcile A ttl mc) Q"
proof -
  let ?mc = "ensureClusterStatusRoles mc"
  show ?thesis
    unfolding reconcile_path [OF stays]
  proof (rule emits_bind, rule emits_mono [OF resolve_loop_emits [OF order_refl]], elim conjE exE, goal_cases)
    case (1 rv ws outs)
    let ?pu = "rv_primaryUnreachable rv" and ?mc1 = "count_failure (rv_primaryUnreachable rv) (rv_mc rv)"
    have sub: "set (missed (sp_Clusters (mc_Spec mc)) outs) \<subseteq> set (sp_Clusters (mc_Spec mc))" by (rule missed_targets)
    have res: "resolved mc ws ?pu ?mc1 (rv_unreachable rv)"
      unfolding resolved_def using 1 sub by (fastforce simp: list_ex_iff)
    have T: "(\<lambda>rc. ct_Name (rcl_Target rc)) ` set (rv_clients rv) \<subseteq> spec_names mc"
      using 1 reached_targets [of "sp_Clusters (mc_Spec mc)" outs] by auto
    show ?case
      by (intro emits_if emits_mono [OF runAutoFailover_footprint] emits_mono [OF reconcile_clusters_emits [OF T]])
         (use res auto clusters in blast)+
  qed
qed

section \<open>Lemmas on the paths\<close>

definition started_event :: "event \<Rightarrow> bool" where
  "started_event e = (case e of Recorded t reason msg \<Rightarrow> reason = ReasonFailoverStarted | _ \<Rightarrow> False)"

definition spec_patch :: "event \<Rightarrow> bool" where
  "spec_patch e = (case e of TechCall rq res \<Rightarrow> (case rq of PatchMC a b \<Rightarrow> True | _ \<Rightarrow> False) | _ \<Rightarrow> False)"

lemma event_kinds:
  "resolve_event e \<Longrightarrow> \<not> started_event e \<and> \<not> spec_patch e \<and> \<not> standby_write n e \<and> ev_client e = None"
  "auto_event orig mc e \<Longrightarrow> \<not> started_event e \<and> \<not> standby_write n e \<and> ev_client e = None"
  "work_event e \<Longrightarrow> \<not> started_event e \<and> \<not> spec_patch e"
  by (cases e; auto simp: resolve_event_def kubeconfig_read_iff unreachable_warning_def auto_event_def
      started_event_def spec_patch_def reason_consts standby_write_def split: tech_request.splits)+

lemma final_patch_kinds:
  "final_patch T mc orig sp unr r tail \<Longrightarrow> list_all (\<lambda>e. \<not> started_event e \<and> \<not> spec_patch e \<and> \<not> standby_write n e) tail"
  by (auto simp: final_patch_def started_event_def spec_patch_def)

lemma count_failure_fields [simp]:
  "mc_Spec (count_failure b mc) = mc_Spec mc" "mc_Name (count_failure b mc) = mc_Name mc"
  "mc_Generation (count_failure b mc) = mc_Generation mc"
  "st_Clusters (mc_Status (count_failure b mc)) = st_Clusters (mc_Status mc)"
  "st_PrimaryFailureCount (mc_Status (count_failure b mc)) =
     (if b then st_PrimaryFailureCount (mc_Status mc) + 1 else 0)"
  by (simp_all add: count_failure_def)

lemma resolved_fields:
  assumes "resolved mc ws pu mc1 unr"
  shows "mc_Spec mc1 = mc_Spec mc" "mc_Name mc1 = mc_Name mc" "mc_Generation mc1 = mc_Generation mc"
    "st_PrimaryFailureCount (mc_Status mc1) = (if pu then st_PrimaryFailureCount (mc_Status mc) + 1 else 0)"
  using assms by (auto simp: resolved_def status_step_fields)

lemma final_status_fields [simp]:
  "mc_Spec (final_status mc sp unr now) = mc_Spec mc"
  "st_Clusters (mc_Status (final_status mc sp unr now)) = st_Clusters (mc_Status mc)"
  "st_CurrentPrimary (mc_Status (final_status mc sp unr now)) = sp"
  "st_ObservedGeneration (mc_Status (final_status mc sp unr now)) = mc_Generation mc"
  "st_PrimaryFailureCount (mc_Status (final_status mc sp unr now)) = st_PrimaryFailureCount (mc_Status mc)"
  by (simp_all add: final_status_def Let_def)

lemma stays_trace:
  assumes res: "resolved mc ws pu mc1 unr" and trace: "clusters_trace T mc1 orig sp unr r rest"
  shows "list_all (\<lambda>e. \<not> started_event e \<and> \<not> spec_patch e) (ws @ rest)"
    and "preceded applied_primary (standby_write (mc_Name mc)) (ws @ rest)"
proof -
  from trace obtain work tail where rest: "rest = work @ tail" and work: "list_all work_event work"
    and prec: "preceded applied_primary (standby_write (mc_Name mc1)) work" and tail: "final_patch T mc1 orig sp unr r tail"
    by (auto simp: clusters_trace_def)
  have ws: "list_all (\<lambda>e. \<not> started_event e \<and> \<not> spec_patch e \<and> \<not> standby_write n e) ws" for n
    using res event_kinds(1) by (auto simp: resolved_def list_all_iff)
  have "list_all (\<lambda>e. \<not> started_event e \<and> \<not> spec_patch e) work"
    using work event_kinds(3) by (auto simp: list_all_iff)
  with ws final_patch_kinds [OF tail] show "list_all (\<lambda>e. \<not> started_event e \<and> \<not> spec_patch e) (ws @ rest)"
    by (auto simp: rest list_all_iff)
  have "preceded applied_primary (standby_write (mc_Name mc)) (work @ tail)"
    using prec final_patch_kinds [OF tail, of "mc_Name mc"] resolved_fields(2) [OF res]
    by (intro preceded_append) (auto simp: list_all_iff)
  then show "preceded applied_primary (standby_write (mc_Name mc)) (ws @ rest)"
    using ws unfolding rest by (intro preceded_append preceded_none) (auto simp: list_all_iff)
qed

lemma auto_trace:
  assumes "resolved mc ws pu mc1 unr" and "list_all (auto_event orig mc1) rest"
  shows "list_all (\<lambda>e. \<not> started_event e \<and> \<not> standby_write n e \<and> ev_client e = None) (ws @ rest)"
  using assms event_kinds(1,2) by (auto simp: resolved_def list_all_iff)

lemma reconcile_failover_starts:
  assumes "enters_failover mc"
  shows "emits (reconcile A ttl mc) (\<lambda>r es. case es of [] \<Rightarrow> False | e # rest \<Rightarrow> started_event e)"
  unfolding reconcile_failover [OF assms]
  by (rule runFailover_reduce [OF completeFailover_footprint]) (simp add: started_event_def)

text \<open>The phases and the Ready condition of the final status.\<close>

lemma Aggregate_Ready:
  "fst (Aggregate cs False) = PhaseReady \<longleftrightarrow> cs \<noteq> [] \<and> (\<forall>c \<in> set cs. cluster_ready c)"
  by (auto simp: Aggregate_def Let_def ready_count_all [symmetric])

lemma final_status_verdict:
  "st_Phase (mc_Status (final_status mc sp unr now)) = PhaseReady \<longleftrightarrow>
     unr = [] \<and> st_Clusters (mc_Status mc) \<noteq> [] \<and> list_all cluster_ready (st_Clusters (mc_Status mc))"
  "unr \<noteq> [] \<Longrightarrow> st_Phase (mc_Status (final_status mc sp unr now)) = PhaseDegraded"
  "conditionTrue (st_Conditions (mc_Status (final_status mc sp unr now))) ConditionReady \<longleftrightarrow>
     st_Phase (mc_Status (final_status mc sp unr now)) = PhaseReady"
  by (auto simp: final_status_def Let_def Aggregate_Ready list_all_iff conditionTrue_look)

lemma status_entries:
  assumes valid: "valid_spec (sp_Clusters (mc_Spec mc))"
    and step: "status_step (spec_names mc) (ensureClusterStatusRoles mc) mc'"
  shows "map (\<lambda>x. (cs_Name x, cs_Role x)) (st_Clusters (mc_Status mc')) =
      map (\<lambda>x. (cs_Name x, cs_Role x)) (st_Clusters (mc_Status (ensureClusterStatusRoles mc)))"
    and "\<And>x. x \<in> set (st_Clusters (mc_Status mc)) \<Longrightarrow> cs_Name x \<notin> spec_names mc \<Longrightarrow> x \<in> set (st_Clusters (mc_Status mc'))"
proof -
  from valid have d: "distinct (map ct_Name (sp_Clusters (mc_Spec mc)))" by (simp add: valid_spec_def)
  note sub = ensure_names [OF d]
  from step sub show "map (\<lambda>x. (cs_Name x, cs_Role x)) (st_Clusters (mc_Status mc')) =
      map (\<lambda>x. (cs_Name x, cs_Role x)) (st_Clusters (mc_Status (ensureClusterStatusRoles mc)))"
    unfolding status_step_def by blast
  fix x assume x: "x \<in> set (st_Clusters (mc_Status mc))" "cs_Name x \<notin> spec_names mc"
  then have "set_role (sp_Clusters (mc_Spec mc)) x = x"
    by (simp add: set_role_def role_of_None [THEN iffD2])
  with x have "x \<in> set (st_Clusters (mc_Status (ensureClusterStatusRoles mc)))"
    by (force simp: ensureClusterStatusRoles_eq [OF d] image_iff)
  with x step sub show "x \<in> set (st_Clusters (mc_Status mc'))"
    unfolding status_step_def by blast
qed

text \<open>The status patches of a trace, and what a reconcile outside a failover may write with one.\<close>

fun status_patch :: "event \<Rightarrow> (PostgresMC \<times> PostgresMC) option" where
  "status_patch (TechCall (PatchMCStatus a b) res) = Some (a, b)"
| "status_patch _ = None"

lemma status_patch_kinds:
  "resolve_event e \<Longrightarrow> status_patch e = None"
  "work_event e \<Longrightarrow> status_patch e = None"
  "auto_event orig mc e \<Longrightarrow> status_patch e = Some (a, b) \<Longrightarrow> a = orig \<and> (b = mc \<or> b = mc_set_FailureCount 0 mc)"
  by (cases e rule: status_patch.cases; auto simp: resolve_event_def kubeconfig_read_iff unreachable_warning_def auto_event_def)+

definition admissible_status :: "PostgresMC \<Rightarrow> PostgresMC \<Rightarrow> PostgresMC \<Rightarrow> bool" where
  "admissible_status mc a b \<longleftrightarrow> a = mc \<and> mc_Spec b = mc_Spec mc \<and>
     map (\<lambda>x. (cs_Name x, cs_Role x)) (st_Clusters (mc_Status b)) =
       map (\<lambda>x. (cs_Name x, cs_Role x)) (st_Clusters (mc_Status (ensureClusterStatusRoles mc))) \<and>
     list_all (\<lambda>x. cs_Name x \<in> spec_names mc \<or> x \<in> set (st_Clusters (mc_Status b))) (st_Clusters (mc_Status mc)) \<and>
     (st_PrimaryFailureCount (mc_Status b) = 0 \<or>
      st_PrimaryFailureCount (mc_Status b) = st_PrimaryFailureCount (mc_Status mc) + 1)"

lemma admissible_statusI:
  assumes "valid_spec (sp_Clusters (mc_Spec mc))"
    and "status_step (spec_names mc) (ensureClusterStatusRoles mc) mcr"
    and "mc_Spec b = mc_Spec mc" "st_Clusters (mc_Status b) = st_Clusters (mc_Status mcr)"
    and "st_PrimaryFailureCount (mc_Status b) = 0 \<or>
      st_PrimaryFailureCount (mc_Status b) = st_PrimaryFailureCount (mc_Status mc) + 1"
  shows "admissible_status mc mc b"
  using status_entries [OF assms(1,2)] assms(3-5) unfolding admissible_status_def by (auto simp: list_all_iff)

lemma status_step_count:
  "status_step T (count_failure b mcr) mc' \<Longrightarrow> status_step T mcr (mc_set_Clusters (st_Clusters (mc_Status mc')) mcr)"
  by (auto simp: status_step_def)

text \<open>A trace whose only status patch is its last event, with the final verdict.\<close>

definition ends_with_status ::
  "PostgresMC \<Rightarrow> PostgresMC \<Rightarrow> string \<Rightarrow> string list \<Rightarrow> event list \<Rightarrow> err option \<Rightarrow> bool" where
  "ends_with_status mc orig specPrimary unreachable es res \<longleftrightarrow>
     (\<exists>work after. es = work @ [TechCall (PatchMCStatus orig after) res] \<and>
        list_all (\<lambda>e. status_patch e = None) work \<and>
        st_CurrentPrimary (mc_Status after) = specPrimary \<and>
        st_ObservedGeneration (mc_Status after) = mc_Generation mc \<and>
        (st_Phase (mc_Status after) = PhaseReady \<longleftrightarrow>
           unreachable = [] \<and> st_Clusters (mc_Status after) \<noteq> [] \<and> list_all cluster_ready (st_Clusters (mc_Status after))) \<and>
        (conditionTrue (st_Conditions (mc_Status after)) ConditionReady \<longleftrightarrow> st_Phase (mc_Status after) = PhaseReady) \<and>
        (unreachable \<noteq> [] \<longrightarrow> st_Phase (mc_Status after) = PhaseDegraded))"

section \<open>Properties\<close>

text \<open>
  A reconcile enters a failover exactly when the status names a current primary that is not
  the spec's primary: then the start of the failover is its first event, and otherwise it
  announces none.
\<close>

theorem reconcile_failover_entry:
  "emits (reconcile A ttl mc) (\<lambda>r es.
     if st_CurrentPrimary (mc_Status mc) \<noteq> [] \<and> st_CurrentPrimary (mc_Status mc) \<noteq> primaryClusterName mc
     then (case es of [] \<Rightarrow> False | e # rest \<Rightarrow> started_event e)
     else list_all (\<lambda>e. \<not> started_event e) es)"
proof (cases "enters_failover mc")
  case True
  from reconcile_failover_starts [OF True] True show ?thesis
    by (simp add: enters_failover_def)
next
  case False
  then show ?thesis
  proof (rule reconcile_rule, goal_cases)
    case (1 ws pu mc1 unr rest r)
    with False show ?case
      using auto_trace [OF 1(1,3)] by (auto simp: enters_failover_def list_all_iff)
  next
    case (2 ws pu mc1 unr rest r)
    with False show ?case
      using stays_trace(1) [OF 2(1,3)] by (auto simp: enters_failover_def list_all_iff)
  qed
qed

text \<open>
  C13. The spec is patched by a reconcile only for an automatic failover, and only when it is
  enabled, the primary could not be reached in this very reconcile, and the count of failures,
  this one included, has reached the threshold (3 when it is 0).
\<close>

theorem reconcile_spec_patch_guard:
  "emits (reconcile A ttl mc) (\<lambda>r es. list_all (\<lambda>e. \<not> spec_patch e) es \<or>
     (af_Enabled (sp_AutoFailover (mc_Spec mc)) \<and>
      sint (failure_threshold mc) \<le> sint (st_PrimaryFailureCount (mc_Status mc) + 1) \<and>
      list_ex (\<lambda>t. ct_Role t = ClusterRolePrimary \<and> list_ex (unreachable_warning t) es) (sp_Clusters (mc_Spec mc))))"
proof (cases "enters_failover mc")
  case True
  have no: "\<not> spec_patch e" if "kubeconfig_read e \<or> ev_client e \<noteq> None \<or> completion_event e \<or>
      (\<exists>a b res. e = TechCall (PatchMCStatus a b) res)" for e
    using that by (cases e) (auto simp: spec_patch_def kubeconfig_read_iff)
  have "emits (runFailover A ttl (ensureClusterStatusRoles mc) mc) (\<lambda>r es. list_all (\<lambda>e. \<not> spec_patch e) es)"
    by (rule runFailover_reduce [OF completeFailover_footprint])
       (use no in \<open>auto simp: list_all_iff spec_patch_def\<close>)
  then show ?thesis
    by (simp only: reconcile_failover [OF True]) (auto elim: emits_mono)
next
  case False
  then show ?thesis
  proof (rule reconcile_rule, goal_cases)
    case (1 ws pu mc1 unr rest r)
    from 1(1,2) have "pu" by (simp add: auto_failover_due_def)
    with 1 show ?case
      using resolved_fields [OF 1(1)]
      by (auto simp: auto_failover_due_def failure_threshold_def Let_def resolved_def list_ex_iff)
  next
    case (2 ws pu mc1 unr rest r)
    then show ?case
      using stays_trace(1) [OF 2(1,3)] by (auto simp: list_all_iff)
  qed
qed


text \<open>
  C20. What a reconcile outside a failover may write into the status: every status patch is
  relative to the object as it was read and keeps its spec; its entries are those of
  \<open>ensureClusterStatusRoles\<close> (so each cluster of the spec has one, with its role, and the API
  server's validation of roles cannot reject it), entries of clusters that are no longer in the
  spec stay as they are, and the failure count is zero or one more than it was.
\<close>

theorem reconcile_status_patches:
  assumes valid: "valid_spec (sp_Clusters (mc_Spec mc))"
    and stays: "\<not> enters_failover mc"
  shows "emits (reconcile A ttl mc) (\<lambda>r es.
    list_all (\<lambda>e. case status_patch e of None \<Rightarrow> True | Some (a, b) \<Rightarrow> admissible_status mc a b) es)"
proof (rule reconcile_rule [OF stays], goal_cases)
  case (1 ws pu mc1 unr rest r)
  from 1(1) obtain mcr where step: "status_step (spec_names mc) (ensureClusterStatusRoles mc) mcr"
    and mc1: "mc1 = count_failure pu mcr" and ws: "list_all resolve_event ws" by (auto simp: resolved_def)
  have "admissible_status mc mc mc1" "admissible_status mc mc (mc_set_FailureCount 0 mc1)"
    by (rule admissible_statusI [OF valid step]; simp add: mc1 status_step_fields [OF step])+
  then show ?case
    using 1(3) ws status_patch_kinds(1,3) by (fastforce simp: list_all_iff split: option.splits)
next
  case (2 ws pu mc1 unr rest r)
  from 2(1) obtain mcr where step: "status_step (spec_names mc) (ensureClusterStatusRoles mc) mcr"
    and mc1: "mc1 = count_failure pu mcr" and ws: "list_all resolve_event ws" by (auto simp: resolved_def)
  from 2(3) obtain work tail where rest: "rest = work @ tail" and work: "list_all work_event work"
    and tail: "final_patch (spec_names mc) mc1 mc (primaryClusterName mc) unr r tail" by (auto simp: clusters_trace_def)
  have "list_all (\<lambda>e. case status_patch e of None \<Rightarrow> True | Some (a, b) \<Rightarrow> admissible_status mc a b) tail"
  proof -
    have "admissible_status mc mc (final_status mc' sp unr now)" if step': "status_step (spec_names mc) mc1 mc'" for mc' sp now
    proof -
      note steps = status_step_trans [OF step status_step_count [OF step' [unfolded mc1]]]
      have "mc_Spec mc' = mc_Spec mc"
        "st_PrimaryFailureCount (mc_Status mc') = (if pu then st_PrimaryFailureCount (mc_Status mc) + 1 else 0)"
        using status_step_fields [OF step'] resolved_fields [OF 2(1)] by simp_all
      then show ?thesis by (intro admissible_statusI [OF valid steps]) simp_all
    qed
    with tail show ?thesis by (auto simp: final_patch_def)
  qed
  then show ?case
    using work ws status_patch_kinds(1,2) by (auto simp: rest list_all_iff split: option.splits)
qed

definition failover_free_mc :: PostgresMC where
  "failover_free_mc = mc_set_CurrentPrimary ''eu'' sample_mc"

lemma sample_valid: "valid_spec (sp_Clusters (mc_Spec failover_free_mc))"
  by (simp add: valid_spec_def failover_free_mc_def sample_defs)

lemma reconcile_status_patches_witness:
  "list_all (\<lambda>e. case status_patch e of None \<Rightarrow> True | Some (a, b) \<Rightarrow> admissible_status failover_free_mc a b)
     (op_trace (snd (run_state (reconcile mem_api 1000 failover_free_mc) (mem_state sample_world))))"
proof -
  have "\<not> enters_failover failover_free_mc"
    by (simp add: enters_failover_def primaryClusterName_def failover_free_mc_def sample_defs)
  from emits_trace [OF reconcile_status_patches [OF sample_valid this, of mem_api 1000] mem_state_trace [of sample_world]]
  show ?thesis .
qed


text \<open>
  C36. The failure counter is a 32-bit number that counts consecutive reconciles with an
  unreachable primary: after \<open>n\<close> of them (for \<open>n\<close> below 2^31) an automatic failover is due exactly
  when it is enabled and the threshold is at most \<open>n\<close>, and a reconcile that reaches the primary
  starts the count again. At 2^31 the counter wraps around to a negative number and no failover
  is due, whatever the (positive) threshold.
\<close>

theorem failure_count_threshold:
  assumes "st_PrimaryFailureCount (mc_Status mc) = 0" and "0 < sint (failure_threshold mc)" and "n < 2 ^ 31"
  shows "(auto_failover_due True ((count_failure True ^^ n) mc) \<longleftrightarrow>
      af_Enabled (sp_AutoFailover (mc_Spec mc)) \<and> sint (failure_threshold mc) \<le> int n) \<and>
    st_PrimaryFailureCount (mc_Status (count_failure False ((count_failure True ^^ n) mc))) = 0 \<and>
    \<not> auto_failover_due True ((count_failure True ^^ (2 ^ 31)) mc)"
proof -
  have count: "st_PrimaryFailureCount (mc_Status ((count_failure True ^^ k) mc)) = of_nat k" for k
    by (induction k) (simp_all add: assms(1))
  have spec: "mc_Spec ((count_failure True ^^ k) mc) = mc_Spec mc" for k
    by (induction k) simp_all
  then have thr: "failure_threshold ((count_failure True ^^ k) mc) = failure_threshold mc" for k
    by (simp add: failure_threshold_def)
  have small: "sint (of_nat n :: int32) = int n"
    using assms(3) by (intro sint_of_nat) simp
  have wrap: "sint (of_nat (2 ^ 31) :: int32) < 0" by (simp add: sint_uint)
  show ?thesis
    using assms(2) wrap by (simp add: auto_failover_due_def count spec thr small)
qed

text \<open>Automatic failover enabled with the default threshold.\<close>

definition auto_mc :: PostgresMC where
  "auto_mc = failover_free_mc\<lparr>mc_Spec := (mc_Spec failover_free_mc)\<lparr>sp_AutoFailover :=
     \<lparr>af_Enabled = True, af_PrimaryUnreachableThreshold = 0\<rparr>\<rparr>\<rparr>"

lemma failure_count_threshold_witness:
  "\<not> auto_failover_due True ((count_failure True ^^ 2) auto_mc) \<and> auto_failover_due True ((count_failure True ^^ 3) auto_mc)"
proof -
  have "st_PrimaryFailureCount (mc_Status auto_mc) = 0" "failure_threshold auto_mc = 3" "af_Enabled (sp_AutoFailover (mc_Spec auto_mc))"
    by (simp_all add: auto_mc_def failover_free_mc_def sample_defs failure_threshold_def)
  then show ?thesis
    using failure_count_threshold [of auto_mc 2] failure_count_threshold [of auto_mc 3] by simp
qed

text \<open>
  C9. An automatic failover does not complete while the old primary is down: its spec patch
  makes every following reconcile enter the manual failover path, which needs a client for the
  old primary first, so each of them fails without touching any workload cluster, and the
  promoted standby is never promoted.
\<close>

theorem auto_failover_blocked:
  assumes "returns_patched A" and "valid_spec (sp_Clusters (mc_Spec mc))"
    and "old \<in> set (sp_Clusters (mc_Spec mc))" and "cluster_down A ttl (mc_Namespace mc) old"
    and "st_CurrentPrimary (mc_Status mc) = ct_Name old" and "ct_Name old \<noteq> []"
    and "n \<in> ct_Name ` set (sp_Clusters (mc_Spec mc))" and "n \<noteq> ct_Name old"
  shows "emits (reconcile A ttl (mc_set_SpecClusters (promote_roles n (sp_Clusters (mc_Spec mc))) mc)) (\<lambda>r es.
    (\<exists>e. r = Error e) \<and> list_all (\<lambda>e. ev_client e = None) es)"
proof -
  let ?mc = "mc_set_SpecClusters (promote_roles n (sp_Clusters (mc_Spec mc))) mc"
  have "primaryClusterName ?mc = n"
    using valid_promote_roles(2) assms(2,7) by (simp add: primaryClusterName_def valid_spec_def)
  then have enters: "enters_failover ?mc" using assms(5,6,8) by (simp add: enters_failover_def)
  obtain r where r: "old\<lparr>ct_Role := r\<rparr> \<in> set (promote_roles n (sp_Clusters (mc_Spec mc)))"
    using assms(3) by (auto simp: promote_roles_def)
  have "emits (runFailover A ttl (ensureClusterStatusRoles ?mc) ?mc) (\<lambda>r es.
      (\<exists>e. r = Error e) \<and> list_all (\<lambda>e. ev_client e = None) es)"
    by (rule runFailover_down [of A "old\<lparr>ct_Role := r\<rparr>"]) (use assms(1,4) r in \<open>simp_all add: cluster_down_role\<close>)
  then show ?thesis by (simp only: reconcile_failover [OF enters])
qed

lemma auto_failover_blocked_witness:
  "\<exists>e. fst (run_state (reconcile down_api 1000 (mc_set_SpecClusters (promote_roles ''us'' [sample_eu, sample_us]) failover_free_mc))
     (mem_state sample_world)) = Error e"
proof -
  have cs: "sp_Clusters (mc_Spec failover_free_mc) = [sample_eu, sample_us]"
    by (simp add: failover_free_mc_def sample_mc_def)
  have "cluster_down down_api 1000 (mc_Namespace failover_free_mc) sample_eu"
    by (rule down_api_down) (simp add: sample_defs)
  moreover have "sample_eu \<in> set (sp_Clusters (mc_Spec failover_free_mc))"
    "''us'' \<in> ct_Name ` set (sp_Clusters (mc_Spec failover_free_mc))" "ct_Name sample_eu \<noteq> []" "''us'' \<noteq> ct_Name sample_eu"
    "st_CurrentPrimary (mc_Status failover_free_mc) = ct_Name sample_eu"
    by (simp_all add: failover_free_mc_def sample_defs)
  ultimately show ?thesis
    using emits_trace [OF auto_failover_blocked [OF echo_returns(2) sample_valid, of sample_eu 1000 "''us''"]
        mem_state_trace [of sample_world]]
    by (simp add: cs)
qed

text \<open>
  C23. The gates before any work: without the finalizer the only call is the update that adds it
  (a deleted object without it is left alone), and with an invalid spec the only effects are a
  warning and a status patch to Failed with a false Ready condition. Neither touches a cluster.
\<close>

theorem Reconcile_object_gates:
  "emits (Reconcile_object A ttl mc) (\<lambda>r es.
     if \<not> containsFinalizer mc finalizerName
     then (if is_deleted mc then es = [] \<and> r = Ok zero_Result
           else \<exists>e. es = [TechCall (UpdateMC (mc\<lparr>mc_Finalizers := mc_Finalizers mc @ [finalizerName]\<rparr>)) e] \<and>
             (case e of None \<Rightarrow> r = Ok \<lparr>res_Requeue = True, res_RequeueAfter = 0\<rparr> | Some err \<Rightarrow> \<exists>err. r = Error err))
     else if \<not> is_deleted mc \<and> \<not> valid_spec (sp_Clusters (mc_Spec mc))
     then \<exists>msg b e. es = [Recorded ''Warning'' ReasonSpecInvalid msg, TechCall (PatchMCStatus mc b) e] \<and>
            r = Ok zero_Result \<and> st_Phase (mc_Status b) = PhaseFailed \<and> mc_Spec b = mc_Spec mc \<and>
            cond_look (st_Conditions (mc_Status b)) ConditionReady = Some (ConditionFalse, mc_Generation mc, ReasonSpecInvalid, msg)
     else True)"
proof (cases "containsFinalizer mc finalizerName \<and> (is_deleted mc \<or> valid_spec (sp_Clusters (mc_Spec mc)))")
  case True
  have "emits (handleDeletion A ttl mc) (\<lambda>r es. True)"
    unfolding handleDeletion_def Let_def by (intro emits_intro emits_mono [OF deletion_loop_emits]) simp_all
  moreover have "emits (reconcile A ttl mc) (\<lambda>r es. True)"
    by (cases "enters_failover mc") (simp_all add: emits_mono [OF reconcile_failover_starts] reconcile_rule)
  ultimately show ?thesis
    using True by (auto simp: Reconcile_object_def validateSpec_None [THEN iffD2])
next
  case False
  show ?thesis
  proof (cases "containsFinalizer mc finalizerName")
    case True
    with False obtain e where "validateSpec mc = Some e" "\<not> is_deleted mc" "\<not> valid_spec (sp_Clusters (mc_Spec mc))"
      using validateSpec_None [of mc] by (cases "validateSpec mc") auto
    with True show ?thesis
      by (simp add: Reconcile_object_def Let_def) (intro emits_intro, simp add: invalid_spec_status_def)
  next
    case no: False
    show ?thesis
      using no by (simp add: Reconcile_object_def handleDeletion_def Let_def) (auto intro!: emits_intro)
  qed
qed

end
