(* ===== verification/Scenario.thy ===== *)
theory Scenario
  imports Controller
begin

text \<open>
  A whole reconcile, evaluated: the sample resource on two healthy clusters whose Zalando
  operator has created the credentials of the primary. One call of \<open>Reconcile\<close> brings the
  resource to Ready and the standby object into place.
\<close>

definition ready_node :: "string \<Rightarrow> Node" where
  "ready_node address = \<lparr>node_Conditions = [(''Ready'', ''True'')], node_Addresses = [(''InternalIP'', address)]\<rparr>"

definition primary_credential :: "string \<Rightarrow> Secret" where
  "primary_credential role = sample_cred\<lparr>sec_Name := SecretName role ''app-eu''\<rparr>"

definition healthy_world :: mem_world where
  "healthy_world = sample_world\<lparr>
     mw_secrets := [(1, ''pg'', SecretName ''postgres'' ''app-eu'') \<mapsto> primary_credential ''postgres'',
                    (1, ''pg'', SecretName ''standby'' ''app-eu'') \<mapsto> primary_credential ''standby''],
     mw_nodes := (\<lambda>c. [ready_node (if c = 1 then ''n1.example'' else ''n2.example'')]),
     mw_mcs := [(''sys'', ''db'') \<mapsto> sample_mc]\<rparr>"

lemma atoi_short: "atoi ''1'' = Some 1" "atoi ''2'' = Some 2"
  by (simp_all add: atoi_def is_digit_def read_nat_def digit_val_def)

lemmas scenario_world_defs = healthy_world_def ready_node_def primary_credential_def sample_cred_def
  mem_defs sample_defs primitive_defs Let_def api_consts reason_consts

lemma healthy_reconcile:
  "\<exists>s. run_state (Reconcile mem_api registryTTL ''sys'' ''db'') (mem_state healthy_world) =
     (Ok \<lparr>res_Requeue = False, res_RequeueAfter = requeueDefault\<rparr>, s) \<and>
     map_option (\<lambda>mc. st_Phase (mc_Status mc)) (mw_mcs (op_world s) (''sys'', ''db'')) = Some PhaseReady \<and>
     map_option obj_standby (mw_postgresqls (op_world s) (1, ''pg'', ''app-eu'')) = Some None \<and>
     map_option obj_standby (mw_postgresqls (op_world s) (2, ''pg'', ''app-us'')) =
       Some (Some (standby_section (PrimaryAliasFQDN ''db'' ''pg'') 32432))"
  apply (simp add: Reconcile_def Reconcile_object_def is_deleted_def containsFinalizer_def finalizerName_def
      validateSpec_None [THEN iffD2] valid_spec_def tech_call_def mem_defs healthy_world_def sample_defs)
  apply (simp add: scenario_world_defs reconcile_def ensureClusterStatusRoles_def primaryClusterName_def
      zero_ClusterStatus_def GetClient_def atoi_short cache_key_def cache_store_def cache_hit_def
      cluster_condition_def count_failure_def auto_failover_due_def)
  apply (simp add: scenario_world_defs reconcile_clusters_def splitByRole_def Ensure_defs ClusterName_def
      ServiceName_def buildNodePortService_def isNodeReady_def updateClusterEndpoint_def format_endpoint_def)
  apply (simp add: scenario_world_defs primary_step_def reconcilePrimary_def BuildPrimary_def buildPostgresql_def
      ClusterName_def CredentialRoles_def SecretName_def setClusterReady_def obj_key_def)
  apply (simp add: scenario_world_defs standbys_step_def reconcileCredentials_def credential_plan_def
      credential_target_def SyncFromPrimary_def fetchCredentials_def ClusterName_def CredentialRoles_def
      SecretName_def applySecret_def rewriteClusterName_def buildTargetSecret_def HasErrors_def)
  apply (simp add: scenario_world_defs map_index_def reconcileStandby_def BuildStandby_def buildPostgresql_def
      EnsurePrimaryAlias_def ensureExternalName_def PrimaryAliasName_def externalname_service_def is_ip_def
      is_ipv4_def ClusterName_def setClusterReady_def)
  apply (simp add: scenario_world_defs final_status_def Aggregate_def ready_count_def obj_standby_def obj_spec_def
      standby_section_def PhaseReady_def PrimaryAliasFQDN_def PrimaryAliasName_def)
  done

end
