(* ===== verification/Quiescence.thy ===== *)
theory Quiescence
  imports Scenario
begin

text \<open>
  The controller watches its own resource without a filter, so a status patch that changes the
  resource starts the next reconcile at once. This theory says when a reconcile changes nothing:
  the status that a successful reconcile leaves is a fixed point. With the primary unreachable
  there is none, since every reconcile counts.
\<close>

section \<open>Setting what is set\<close>

lemma SetCondition_same: "cond_look cs t = Some (st, g, r, m) \<Longrightarrow> SetCondition cs t st g r m now = cs"
  by (induction cs) (auto simp: cond_look_def cond_value_def Let_def split: if_splits)

lemma SetClusterCondition_same:
  "cluster_look cs (n, t) = Some (st, g, r, m) \<Longrightarrow> SetClusterCondition cs n t st g r m now = cs"
  by (induction cs) (auto simp: cluster_look_def SetCondition_same split: if_splits)

text \<open>The entry of a cluster after a reconcile in which everything went well.\<close>

definition settled_cluster :: "PostgresMC \<Rightarrow> string \<Rightarrow> bool" where
  "settled_cluster mc n \<longleftrightarrow>
     cluster_look (st_Clusters (mc_Status mc)) (n, ConditionClusterReachable) =
       Some (ConditionTrue, mc_Generation mc, ReasonReconcileSuccess, []) \<and>
     cluster_look (st_Clusters (mc_Status mc)) (n, ConditionReady) =
       Some (ConditionTrue, mc_Generation mc, ReasonReconcileSuccess, [])"

lemma settled_reachable: "settled_cluster mc n \<Longrightarrow> cluster_condition mc n ConditionTrue ReasonReconcileSuccess [] now = mc"
  by (simp add: settled_cluster_def cluster_condition_def SetClusterCondition_same)

lemma settled_ready: "settled_cluster mc n \<Longrightarrow> setClusterReady mc n ConditionTrue ReasonReconcileSuccess [] now = mc"
  by (simp add: settled_cluster_def setClusterReady_def SetClusterCondition_same)

lemma find_cluster_name: "find_cluster cs n = Some c \<Longrightarrow> c \<in> set cs \<and> cs_Name c = n"
  by (induction cs) (auto split: if_splits)

lemma settled_name: "settled_cluster mc n \<Longrightarrow> n \<in> cs_Name ` set (st_Clusters (mc_Status mc))"
  by (auto simp: settled_cluster_def cluster_look_def split: option.splits dest!: find_cluster_name)

text \<open>Endpoints apart, and the clusters that are not ready.\<close>

definition without_endpoints :: "PostgresMC \<Rightarrow> PostgresMC" where
  "without_endpoints mc = mc_set_Clusters (map (\<lambda>c. c\<lparr>cs_Endpoint := []\<rparr>) (st_Clusters (mc_Status mc))) mc"

abbreviation endpoints :: "PostgresMC \<Rightarrow> string list" where
  "endpoints mc \<equiv> map cs_Endpoint (st_Clusters (mc_Status mc))"

definition unready :: "PostgresMC \<Rightarrow> string \<Rightarrow> bool" where
  "unready mc n \<longleftrightarrow> (\<exists>c \<in> set (st_Clusters (mc_Status mc)). cs_Name c = n \<and> \<not> cluster_ready c)"

lemma without_endpoints_update: "without_endpoints (updateClusterEndpoint mc n e) = without_endpoints mc"
proof -
  have "map (\<lambda>c. c\<lparr>cs_Endpoint := []\<rparr>) (set_endpoint cs n e) = map (\<lambda>c. c\<lparr>cs_Endpoint := []\<rparr>) cs" for cs
    by (induction cs) auto
  then show ?thesis by (simp add: without_endpoints_def updateClusterEndpoint_def)
qed

lemma same_clusters:
  "map (\<lambda>c. c\<lparr>cs_Endpoint := []\<rparr>) cs = map (\<lambda>c. c\<lparr>cs_Endpoint := []\<rparr>) cs' \<Longrightarrow> map cs_Endpoint cs = map cs_Endpoint cs' \<Longrightarrow>
   cs = (cs' :: ClusterStatus list)"
proof (induction cs cs' rule: list_induct2')
  case (4 c cs c' cs')
  then show ?case by (cases c; cases c') simp
qed simp_all

lemma same_without_endpoints:
  assumes "without_endpoints mc = without_endpoints mc'" "endpoints mc = endpoints mc'"
  shows "mc = mc'"
proof -
  have "st_Clusters (mc_Status (without_endpoints m)) = map (\<lambda>c. c\<lparr>cs_Endpoint := []\<rparr>) (st_Clusters (mc_Status m))"
    "mc_set_Clusters (st_Clusters (mc_Status m)) (without_endpoints m) = m" for m
    by (simp_all add: without_endpoints_def)
  with assms same_clusters show ?thesis by metis
qed

lemma cluster_look_endpoints: "cluster_look (map (\<lambda>c. c\<lparr>cs_Endpoint := []\<rparr>) cs) k = cluster_look cs k"
proof -
  have "find_cluster (map (\<lambda>c. c\<lparr>cs_Endpoint := []\<rparr>) cs) n = map_option (\<lambda>c. c\<lparr>cs_Endpoint := []\<rparr>) (find_cluster cs n)" for n
    by (induction cs) auto
  then show ?thesis by (simp add: cluster_look_def split: option.split)
qed

lemma settled_without_endpoints: "settled_cluster (without_endpoints mc) n = settled_cluster mc n"
  by (simp add: settled_cluster_def without_endpoints_def cluster_look_endpoints)

lemma settled_cong: "without_endpoints mc = without_endpoints mc' \<Longrightarrow> settled_cluster mc n = settled_cluster mc' n"
  by (metis settled_without_endpoints)

lemma SetClusterCondition_unready:
  assumes "st \<noteq> ConditionTrue"
  shows "unready (mc_set_Clusters (SetClusterCondition cs n ConditionReady st g r m now) mc) n"
proof -
  have "\<exists>c \<in> set (SetClusterCondition cs n ConditionReady st g r m now). cs_Name c = n \<and> \<not> cluster_ready c"
    using assms by (induction cs) (auto simp: cluster_ready_def conditionTrue_look zero_ClusterStatus_def simp del: SetCondition.simps)
  then show ?thesis by (simp add: unready_def)
qed

lemma unready_setClusterReady: "unready (setClusterReady mc n ConditionFalse r m now) n"
  unfolding setClusterReady_def by (rule SetClusterCondition_unready) simp

lemma endpoints_setClusterReady:
  "n \<in> cs_Name ` set (st_Clusters (mc_Status mc)) \<Longrightarrow> endpoints (setClusterReady mc n st r m now) = endpoints mc"
  using arg_cong [OF keep_SetClusterCondition [of n "st_Clusters (mc_Status mc)"], of "map (snd \<circ> snd)"]
  by (simp add: setClusterReady_def o_def)

lemma names_status_step:
  "status_step T mc mc' \<Longrightarrow> T \<subseteq> cs_Name ` set (st_Clusters (mc_Status mc)) \<Longrightarrow>
   cs_Name ` set (st_Clusters (mc_Status mc')) = cs_Name ` set (st_Clusters (mc_Status mc))"
  unfolding status_step_def using map_fst_names by blast

text \<open>A cluster that is not ready stays so while others are handled.\<close>

lemma unready_persists:
  "status_step T mc mc' \<Longrightarrow> T \<subseteq> cs_Name ` set (st_Clusters (mc_Status mc)) \<Longrightarrow> unready mc n \<Longrightarrow> n \<notin> T \<Longrightarrow> unready mc' n"
  unfolding status_step_def unready_def by blast

section \<open>The loops on a settled status\<close>

lemma resolve_loop_settled:
  "emits (resolve_loop A ttl targets rv) (\<lambda>rv' es.
     rv_unreachable rv' = rv_unreachable rv \<longrightarrow> (\<forall>t \<in> set targets. settled_cluster (rv_mc rv) (ct_Name t)) \<longrightarrow>
     rv_mc rv' = rv_mc rv \<and> rv_primaryUnreachable rv' = rv_primaryUnreachable rv)"
proof (induction targets arbitrary: rv)
  case Nil
  then show ?case by (simp add: emits_return)
next
  case (Cons target targets)
  have grows: "emits (resolve_loop A ttl targets rv) (\<lambda>rv' es. \<exists>us. rv_unreachable rv' = rv_unreachable rv @ us)" for rv
    by (rule emits_mono [OF resolve_loop_emits [OF order_refl]]) blast
  show ?case
    unfolding resolve_loop.simps Let_def
    by (rule emits_bind, rule emits_mono [OF GetClient_emits], intro emits_intro emits_mono [OF emits_conj [OF Cons.IH grows]])
       (auto simp: settled_reachable)
qed

lemma ensure_loop_settled:
  "emits (ensure_loop A rcs mc d requeue) (\<lambda>r es. case r of (mc', d', requeue') \<Rightarrow> without_endpoints mc' = without_endpoints mc)"
proof (induction rcs arbitrary: mc d requeue)
  case Nil
  then show ?case by (simp add: emits_return)
next
  case (Cons rc rcs)
  have any: "emits (Ensure A c mc t) (\<lambda>r es. True)" for c t
    by (rule emits_mono [OF replication_manager.op_emits [of A c "(mc, t)", simplified]]) simp
  show ?case
    unfolding ensure_loop.simps Let_def
    by (rule emits_bind, rule emits_mono [OF any], intro emits_intro emits_mono [OF Cons.IH])
       (auto simp: without_endpoints_update)
qed

lemma primary_step_settled:
  assumes "\<And>p. primary = Some p \<Longrightarrow> settled_cluster mc (ct_Name (rcl_Target p))"
  shows "emits (primary_step A mc primary requeue) (\<lambda>r es. \<forall>mc' ready requeue'. r = Ok (mc', ready, requeue') \<longrightarrow>
     endpoints mc' = endpoints mc \<and> (mc' = mc \<or> (\<exists>p. primary = Some p \<and> unready mc' (ct_Name (rcl_Target p)))))"
proof (cases primary)
  case None
  then show ?thesis by (simp add: primary_step_def emits_return)
next
  case (Some p)
  have any: "emits (reconcilePrimary A mc p) (\<lambda>r es. True)"
    by (rule emits_mono [OF reconcilePrimary_emits]) simp
  note settled = assms [OF Some]
  show ?thesis
    unfolding primary_step_def Some option.case
    by (rule emits_bind, rule emits_mono [OF any], intro emits_intro)
       (use settled in \<open>auto simp: settled_ready endpoints_setClusterReady [OF settled_name] unready_setClusterReady\<close>)
qed

abbreviation standby_names :: "resolvedCluster list \<Rightarrow> string set" where
  "standby_names rcs \<equiv> (\<lambda>rc. ct_Name (rcl_Target rc)) ` set rcs"

lemma standbys_loop_endpoints:
  assumes "standby_names rcs \<subseteq> cs_Name ` set (st_Clusters (mc_Status mc))"
  shows "emits (standbys_loop A ep rcs mc) (\<lambda>r es. \<forall>mc'. r = Ok mc' \<longrightarrow> endpoints mc' = endpoints mc)"
  using assms
proof (induction rcs arbitrary: mc)
  case Nil
  then show ?case by (simp add: emits_return)
next
  case (Cons rc rcs)
  let ?n = "ct_Name (rcl_Target rc)"
  from Cons.prems have n: "?n \<in> cs_Name ` set (st_Clusters (mc_Status mc))" by simp
  have "emits (standbys_loop A ep rcs (setClusterReady mc ?n st r m now)) (\<lambda>r es. \<forall>mc'. r = Ok mc' \<longrightarrow> endpoints mc' = endpoints mc)"
    for st r m now
  proof (rule emits_mono [OF Cons.IH])
    have "cs_Name ` set (st_Clusters (mc_Status (setClusterReady mc ?n st r m now))) = cs_Name ` set (st_Clusters (mc_Status mc))"
      by (rule names_status_step [OF status_step_ready [of ?n "{?n}"]]) (use n in auto)
    then show "standby_names rcs \<subseteq> cs_Name ` set (st_Clusters (mc_Status (setClusterReady mc ?n st r m now)))"
      using Cons.prems by simp
  qed (simp add: endpoints_setClusterReady [OF n])
  then show ?case
    unfolding standbys_loop.simps
    by (intro emits_bind [OF emits_mono [OF reconcileStandby_emits]] emits_intro) auto
qed

lemma standbys_loop_settled:
  assumes "distinct (map (\<lambda>rc. ct_Name (rcl_Target rc)) rcs)" "\<forall>n \<in> standby_names rcs. settled_cluster mc n"
  shows "emits (standbys_loop A ep rcs mc) (\<lambda>r es. \<forall>mc'. r = Ok mc' \<longrightarrow> mc' = mc \<or> (\<exists>n \<in> standby_names rcs. unready mc' n))"
  using assms
proof (induction rcs)
  case Nil
  then show ?case by (simp add: emits_return)
next
  case (Cons rc rcs)
  let ?n = "ct_Name (rcl_Target rc)"
  let ?names = "\<lambda>mc. cs_Name ` set (st_Clusters (mc_Status mc))"
  from Cons.prems have n: "settled_cluster mc ?n" "?n \<notin> standby_names rcs" by auto
  have good: "emits (standbys_loop A ep rcs mc) (\<lambda>r es. \<forall>mc'. r = Ok mc' \<longrightarrow>
      mc' = mc \<or> (\<exists>n \<in> standby_names (rc # rcs). unready mc' n))"
    by (rule emits_mono [OF Cons.IH]) (use Cons.prems in auto)
  have bad: "emits (standbys_loop A ep rcs (setClusterReady mc ?n ConditionFalse r m now)) (\<lambda>r es. \<forall>mc'. r = Ok mc' \<longrightarrow>
      mc' = mc \<or> (\<exists>n \<in> standby_names (rc # rcs). unready mc' n))" (is "emits (standbys_loop _ _ _ ?mc1) _") for r m now
  proof (rule emits_mono [OF standbys_loop_emits [OF order_refl]], clarify)
    fix mc'
    assume step: "case Ok mc' of Ok mc' \<Rightarrow> status_step (standby_names rcs) ?mc1 mc' | Error e \<Rightarrow> False | Panics \<Rightarrow> True"
    have "?names ?mc1 = ?names mc"
      by (rule names_status_step [OF status_step_ready [of ?n "{?n}"]]) (use settled_name [OF n(1)] in auto)
    with settled_name Cons.prems(2) have "standby_names rcs \<subseteq> ?names ?mc1" by (auto simp: subset_iff)
    from unready_persists [OF _ this unready_setClusterReady n(2)] step have "unready mc' ?n" by simp
    moreover assume "\<not> (\<exists>n \<in> standby_names (rc # rcs). unready mc' n)"
    ultimately show "mc' = mc" by simp
  qed
  show ?case
    unfolding standbys_loop.simps
    by (intro emits_bind [OF emits_mono [OF reconcileStandby_emits]] emits_intro)
       (use good bad in \<open>auto simp: settled_ready [OF n(1)]\<close>)
qed

lemma standbys_step_settled:
  assumes "distinct (map (\<lambda>rc. ct_Name (rcl_Target rc)) standbys)" "\<forall>n \<in> standby_names standbys. settled_cluster mc n"
  shows "emits (standbys_step A mc primary ready ep standbys requeue) (\<lambda>r es. \<forall>mc' requeue'. r = Ok (mc', requeue') \<longrightarrow>
     endpoints mc' = endpoints mc \<and> (mc' = mc \<or> (\<exists>n \<in> standby_names standbys. unready mc' n)))"
proof -
  have any: "emits (reconcileCredentials A mc p sts) (\<lambda>r es. True)" for p sts
    by (rule emits_mono [OF reconcileCredentials_footprint]) simp
  have names: "standby_names standbys \<subseteq> cs_Name ` set (st_Clusters (mc_Status mc))"
    using assms(2) settled_name by blast
  show ?thesis
    unfolding standbys_step_def
    by (intro emits_intro emits_bind [OF emits_mono [OF any]]
        emits_mono [OF emits_conj [OF standbys_loop_endpoints [OF names] standbys_loop_settled [OF assms]]]) auto
qed

section \<open>A reconcile of a settled resource\<close>

text \<open>Nothing has changed for the clusters: each is ready, at the endpoint that the status has.\<close>

definition same_outcome :: "PostgresMC \<Rightarrow> PostgresMC \<Rightarrow> bool" where
  "same_outcome a b \<longleftrightarrow> list_all cluster_ready (st_Clusters (mc_Status b)) \<and> endpoints b = endpoints a"

lemma reconcile_clusters_settled:
  assumes d: "distinct (map (\<lambda>rc. ct_Name (rcl_Target rc)) rcs)"
    and settled: "\<forall>n \<in> standby_names rcs. settled_cluster mc n"
  shows "emits (reconcile_clusters A mc orig sp rcs unr) (\<lambda>r es. \<forall>e a b. e \<in> set es \<longrightarrow> status_patch e = Some (a, b) \<longrightarrow>
    a = orig \<and> (same_outcome mc b \<longrightarrow> (\<exists>now. b = final_status mc sp unr now)))" (is "emits _ ?Q")
proof -
  obtain primary standbys where split: "splitByRole rcs = (primary, standbys)" by fastforce
  have primary: "ct_Name (rcl_Target p) \<in> standby_names rcs - standby_names standbys"
    if p: "primary = Some p" for p
  proof -
    from splitByRole_primary [of rcs p] p split have "p \<in> set rcs" "ct_Role (rcl_Target p) = ClusterRolePrimary" by auto
    moreover have "standbys = filter (\<lambda>rc. ct_Role (rcl_Target rc) \<noteq> ClusterRolePrimary) rcs"
      using splitByRole_standbys [of rcs] split by simp
    ultimately show ?thesis using d by (force simp: distinct_map inj_on_def)
  qed
  have standbys: "distinct (map (\<lambda>rc. ct_Name (rcl_Target rc)) standbys)" "standby_names standbys \<subseteq> standby_names rcs"
    using splitByRole_standbys [of rcs] split d by (auto simp: distinct_map_filter)
  have no_patch: "?Q r es" if "list_all work_event es" for r es
    using that status_patch_kinds(2) by (fastforce simp: list_all_iff)
  show ?thesis
    unfolding reconcile_clusters_def split prod.case Let_def
  proof (rule emits_bind, rule emits_mono [OF emits_conj [OF ensure_loop_emits [OF order_refl] ensure_loop_settled]],
      (rule emits_case_prod)+, goal_cases)
    case (1 x en mc1 y ends requeue1)
    then have en: "list_all work_event en" and s1: "status_step (standby_names rcs) mc mc1"
      and mc1: "without_endpoints mc1 = without_endpoints mc" by (auto simp: list_all_iff)
    have settled1: "\<forall>n \<in> standby_names rcs. settled_cluster mc1 n"
      using settled settled_cong [OF mc1] by blast
    have all1: "standby_names rcs \<subseteq> cs_Name ` set (st_Clusters (mc_Status mc1))"
      by (rule subsetI, rule settled_name, rule settled1 [rule_format])
    have p1: "ct_Name (rcl_Target p) \<in> standby_names rcs" if "primary = Some p" for p
      using primary [OF that] by blast
    have p2: "settled_cluster mc1 (ct_Name (rcl_Target p))" if "primary = Some p" for p
      by (rule settled1 [rule_format, OF p1 [OF that]])
    show ?case
    proof (rule emits_bind, rule emits_mono [OF emits_conj [OF primary_step_emits [OF p1] primary_step_settled [OF p2]]],
        assumption, assumption, rule emits_case_outcome, goal_cases)
      case (1 r pr z)
      obtain mc2 ready requeue2 where z: "z = (mc2, ready, requeue2)" by (cases z) auto
      with 1 have pr: "list_all work_event pr" and s2: "status_step (standby_names rcs) mc1 mc2" and e2: "endpoints mc2 = endpoints mc1"
        and mc2: "mc2 = mc1 \<or> (\<exists>p. primary = Some p \<and> unready mc2 (ct_Name (rcl_Target p)))"
        by (auto simp: list_all_iff)
      have names: "standby_names standbys \<subseteq> cs_Name ` set (st_Clusters (mc_Status mc2))"
        unfolding names_status_step [OF s2 all1] by (rule subset_trans [OF standbys(2) all1])
      have rest: "emits (standbys_step A mc2 primary ready ep standbys requeue2) (\<lambda>r es. list_all work_event es \<and>
          (\<forall>mc3 requeue3. r = Ok (mc3, requeue3) \<longrightarrow> same_outcome mc mc3 \<longrightarrow> mc3 = mc))" for ep
      proof (cases "mc2 = mc1")
        case True
        have ok: "\<forall>n \<in> standby_names standbys. settled_cluster mc1 n" using settled1 standbys(2) by auto
        have mc3: "mc3 = mc" if "endpoints mc3 = endpoints mc1" "mc3 = mc1 \<or> (\<exists>n \<in> standby_names standbys. unready mc3 n)"
          "same_outcome mc mc3" for mc3
        proof -
          from that(2,3) have "mc3 = mc1" by (auto simp: unready_def same_outcome_def list_all_iff)
          with that(3) same_without_endpoints [OF mc1] show ?thesis by (simp add: same_outcome_def)
        qed
        show ?thesis
          unfolding True
          by (rule emits_mono [OF emits_conj [OF standbys_step_emits [OF order_refl] standbys_step_settled [OF standbys(1) ok]]])
             (use mc3 in blast)
      next
        case False
        with mc2 obtain p where p: "primary = Some p" "unready mc2 (ct_Name (rcl_Target p))" by blast
        have "\<not> same_outcome mc mc3" if "status_step (standby_names standbys) mc2 mc3" for mc3
          using unready_persists [OF that names p(2)] primary [OF p(1)]
          by (auto simp: unready_def same_outcome_def list_all_iff)
        then show ?thesis
          by (intro emits_mono [OF standbys_step_emits [OF order_refl]]) auto
      qed
      show ?case
        unfolding z prod.case
      proof (rule emits_bind, rule emits_mono [OF rest], rule emits_case_outcome, goal_cases)
        case (1 r sb w)
        obtain mc3 requeue3 where w: "w = (mc3, requeue3)" by (cases w)
        with 1 have sb: "list_all work_event sb" and mc3: "same_outcome mc mc3 \<Longrightarrow> mc3 = mc" by auto
        have "?Q r (en @ pr @ sb @ [TechCall (PatchMCStatus orig (final_status mc3 sp unr now)) e])" for r now e
          using no_patch [of "en @ pr @ sb"] en pr sb mc3
          by (auto simp: same_outcome_def)
        then show ?case
          unfolding w prod.case
          by (intro emits_bind emits_now emits_tech_call emits_case_sum emits_return) auto
      next
        case (2 r sb e)
        then show ?case using no_patch [of "en @ pr @ sb"] en pr by (intro emits_return) simp
      next
        case (3 r sb)
        then show ?case using no_patch [of "en @ pr @ sb"] en pr by (intro emits_return) simp
      qed
    next
      case (2 r pr e)
      then show ?case using no_patch [of "en @ pr"] en by (intro emits_return) (auto simp: list_all_iff)
    next
      case (3 r pr)
      then show ?case using no_patch [of "en @ pr"] en by (intro emits_return) (auto simp: list_all_iff)
    qed
  qed
qed

text \<open>
  A settled resource: the status is the one that a reconcile leaves when every cluster is
  reachable and ready and nothing is pending.
\<close>

definition settled_resource :: "PostgresMC \<Rightarrow> bool" where
  "settled_resource mc \<longleftrightarrow> valid_spec (sp_Clusters (mc_Spec mc)) \<and>
     (\<forall>t \<in> set (sp_Clusters (mc_Spec mc)). settled_cluster mc (ct_Name t)) \<and>
     ensureClusterStatusRoles mc = mc \<and>
     st_CurrentPrimary (mc_Status mc) = primaryClusterName mc \<and>
     st_ObservedGeneration (mc_Status mc) = mc_Generation mc \<and>
     st_PrimaryFailureCount (mc_Status mc) = 0 \<and>
     st_Phase (mc_Status mc) = PhaseReady \<and>
     cond_look (st_Conditions (mc_Status mc)) ConditionReady = Some (ConditionTrue, mc_Generation mc, ReasonReconcileSuccess, [])"

lemma settled_final:
  assumes "settled_resource mc" "st_Clusters (mc_Status mc) \<noteq> []" "list_all cluster_ready (st_Clusters (mc_Status mc))"
  shows "final_status mc (primaryClusterName mc) [] now = mc"
proof -
  have "fst (Aggregate (st_Clusters (mc_Status mc)) False) = PhaseReady"
    using assms(2,3) by (simp add: Aggregate_Ready list_all_iff)
  with assms(1) show ?thesis
    by (cases mc; cases "mc_Status mc") (simp add: settled_resource_def final_status_def Let_def SetCondition_same)
qed

lemma reached_Cons: "reached (t # ts) (r # outs) =
    (case r of Inl e \<Rightarrow> reached ts outs | Inr c \<Rightarrow> \<lparr>rcl_Target = t, rcl_Client = c\<rparr> # reached ts outs)"
  by (simp add: reached_def split: sum.split)

lemma reached_names:
  assumes "length outs = length ts" "distinct (map ct_Name ts)"
  shows "distinct (map (\<lambda>rc. ct_Name (rcl_Target rc)) (reached ts outs))"
  using assms
proof (induction outs ts rule: list_induct2)
  case (Cons r outs t ts)
  have "ct_Name t \<notin> (\<lambda>rc. ct_Name (rcl_Target rc)) ` set (reached ts outs)"
    using reached_targets [of ts outs] Cons.prems by auto
  with Cons show ?case by (cases r) (auto simp: reached_Cons)
qed (simp add: reached_def)

lemma reconcile_clusters_fixed:
  assumes "settled_resource mc" "distinct (map (\<lambda>rc. ct_Name (rcl_Target rc)) rcs)"
    and "rcl_Target ` set rcs \<subseteq> set (sp_Clusters (mc_Spec mc))"
  shows "emits (reconcile_clusters A mc mc (primaryClusterName mc) rcs []) (\<lambda>r es. \<forall>e a b. e \<in> set es \<longrightarrow>
    status_patch e = Some (a, b) \<longrightarrow> a = mc \<and> (same_outcome mc b \<longrightarrow> b = mc))"
proof -
  have settled: "\<forall>t \<in> set (sp_Clusters (mc_Spec mc)). settled_cluster mc (ct_Name t)"
    using assms(1) by (simp add: settled_resource_def)
  then have names: "\<forall>n \<in> standby_names rcs. settled_cluster mc n" using assms(3) by auto
  have "st_Clusters (mc_Status mc) \<noteq> []"
    using assms(1) settled settled_name by (fastforce simp: settled_resource_def valid_spec_def)
  then have "b = mc" if "same_outcome mc b" "\<exists>now. b = final_status mc (primaryClusterName mc) [] now" for b
    using settled_final [OF assms(1)] that by (auto simp: same_outcome_def)
  then show ?thesis
    by (intro emits_mono [OF reconcile_clusters_settled [OF assms(2) names]]) blast
qed

definition no_warning :: "event \<Rightarrow> bool" where
  "no_warning e \<longleftrightarrow> (\<forall>t. \<not> unreachable_warning t e)"

section \<open>A reconcile that cannot reach the primary\<close>

lemma resolve_loop_down:
  assumes "t \<in> set targets" "cluster_down A ttl ns t" "ct_Role t = ClusterRolePrimary" "mc_Namespace (rv_mc rv) = ns"
  shows "emits (resolve_loop A ttl targets rv) (\<lambda>rv' es. rv_primaryUnreachable rv')"
  using assms(1,4)
proof (induction targets arbitrary: rv)
  case (Cons target targets)
  have stays: "emits (resolve_loop A ttl targets rv) (\<lambda>rv' es. rv_primaryUnreachable rv')"
    if "rv_primaryUnreachable rv" for rv
    by (rule emits_mono [OF resolve_loop_emits [OF order_refl]]) (use that in auto)
  have ns: "mc_Namespace (setClusterReady mc n st r m now) = mc_Namespace mc"
    "mc_Namespace (cluster_condition mc n st r m now) = mc_Namespace mc" for mc n st r m now
    by (simp_all add: setClusterReady_def cluster_condition_def)
  show ?case
  proof (cases "target = t")
    case True
    have "emits (GetClient A ttl t ns) (\<lambda>r es. \<exists>e. r = Inl e)"
      by (rule emits_mono [OF GetClient_down [OF assms(2)]]) simp
    then have down: "emits (GetClient A ttl target (mc_Namespace (rv_mc rv))) (\<lambda>r es. \<exists>e. r = Inl e)"
      using True Cons.prems(2) by simp
    show ?thesis
      unfolding resolve_loop.simps Let_def
      by (rule emits_bind, rule emits_mono [OF down], elim exE, simp only: sum.case, intro emits_intro stays)
         (simp add: True assms(3))
  next
    case False
    with Cons.prems have IH: "emits (resolve_loop A ttl targets rv') (\<lambda>rv' es. rv_primaryUnreachable rv')"
      if "mc_Namespace (rv_mc rv') = ns" for rv' using Cons.IH that by simp
    show ?thesis
      unfolding resolve_loop.simps Let_def
      by (rule emits_bind, rule emits_mono [OF GetClient_emits]) (auto intro!: emits_intro IH simp: ns Cons.prems)
  qed
qed simp

text \<open>A round that fails to reach the primary and does not lead to an automatic failover.\<close>

definition counted :: "PostgresMC \<Rightarrow> PostgresMC \<Rightarrow> bool" where
  "counted mc b \<longleftrightarrow> st_PrimaryFailureCount (mc_Status b) = st_PrimaryFailureCount (mc_Status mc) + 1 \<and>
     mc_Spec b = mc_Spec mc \<and> mc_Namespace b = mc_Namespace mc \<and>
     st_CurrentPrimary (mc_Status b) = primaryClusterName mc"

lemma counted_differs: "counted mc b \<Longrightarrow> b \<noteq> mc"
  unfolding counted_def by (metis add_cancel_left_right zero_neq_one)

lemma lost_round:
  assumes "\<not> enters_failover mc"
    and "t \<in> set (sp_Clusters (mc_Spec mc))" "ct_Role t = ClusterRolePrimary"
    and "cluster_down A ttl (mc_Namespace mc) t"
    and "\<not> (af_Enabled (sp_AutoFailover (mc_Spec mc)) \<and>
           sint (failure_threshold mc) \<le> sint (st_PrimaryFailureCount (mc_Status mc) + 1))"
  shows "emits (reconcile A ttl mc) (\<lambda>r es. list_all (\<lambda>e. \<not> spec_patch e) es \<and>
    (r = Panics \<and> list_all (\<lambda>e. status_patch e = None) es \<or>
     (\<exists>work b e. es = work @ [TechCall (PatchMCStatus mc b) e] \<and> counted mc b)))"
  unfolding reconcile_path [OF assms(1)]
proof (rule emits_bind, rule emits_mono [OF emits_conj [OF resolve_loop_emits [OF order_refl] resolve_loop_down [OF assms(2,4,3)]]],
    simp add: ensureClusterStatusRoles_def Let_def, elim conjE exE, goal_cases)
  case (1 rv ws outs)
  let ?mc1 = "count_failure (rv_primaryUnreachable rv) (rv_mc rv)"
  from 1 have mc1: "st_PrimaryFailureCount (mc_Status ?mc1) = st_PrimaryFailureCount (mc_Status mc) + 1"
    "mc_Spec ?mc1 = mc_Spec mc" "mc_Namespace ?mc1 = mc_Namespace mc"
    by (simp_all add: status_step_fields count_failure_def)
  then have "\<not> auto_failover_due (rv_primaryUnreachable rv) ?mc1"
    using assms(5) by (simp add: auto_failover_due_def failure_threshold_def)
  moreover have "emits (reconcile_clusters A ?mc1 mc (primaryClusterName mc) (rv_clients rv) (rv_unreachable rv)) (\<lambda>r es.
      list_all (\<lambda>e. \<not> spec_patch e) (ws @ es) \<and>
      (r = Panics \<and> list_all (\<lambda>e. status_patch e = None) (ws @ es) \<or>
       (\<exists>work b e. ws @ es = work @ [TechCall (PatchMCStatus mc b) e] \<and> counted mc b)))"
  proof (rule emits_mono [OF reconcile_clusters_emits [OF order_refl]], goal_cases)
    case (1 r es)
    then obtain work tail where es: "es = work @ tail" and work: "list_all work_event work"
      and tail: "final_patch (standby_names (rv_clients rv)) ?mc1 mc (primaryClusterName mc) (rv_unreachable rv) r tail"
      by (auto simp: clusters_trace_def)
    have ws: "list_all (\<lambda>e. \<not> spec_patch e \<and> status_patch e = None) (ws @ work)"
      using \<open>list_all resolve_event ws\<close> work event_kinds(1,3) status_patch_kinds(1,2) by (auto simp: list_all_iff)
    have "counted mc (final_status mc' sp unr now)"
      if "status_step (standby_names (rv_clients rv)) ?mc1 mc'" "sp = primaryClusterName mc" for mc' sp unr now
      using that mc1 by (simp add: counted_def status_step_fields) (simp add: final_status_def Let_def status_step_fields)
    with tail final_patch_kinds [OF tail] ws show ?case
      unfolding final_patch_def es by (auto simp: list_all_iff)
  qed
  ultimately show ?case by simp
qed

section \<open>Properties\<close>

text \<open>
  C12. Fixed point: a reconcile of a settled resource that reaches every cluster, finds each ready and
  each endpoint as the status has it, sends a status patch without a difference, so it does not
  start another reconcile: neither a condition nor a transition time moves.
\<close>

theorem reconcile_settles:
  assumes "settled_resource mc"
  shows "emits (reconcile A ttl mc) (\<lambda>r es. list_all no_warning es \<longrightarrow>
    list_all (\<lambda>e. case status_patch e of None \<Rightarrow> True | Some (a, b) \<Rightarrow> a = mc \<and> (same_outcome mc b \<longrightarrow> b = mc)) es)"
proof -
  have stays: "\<not> enters_failover mc" using assms by (simp add: settled_resource_def enters_failover_def)
  have roles: "ensureClusterStatusRoles mc = mc" and d: "distinct (map ct_Name (sp_Clusters (mc_Spec mc)))"
    and settled: "\<forall>t \<in> set (sp_Clusters (mc_Spec mc)). settled_cluster mc (ct_Name t)"
    and count: "count_failure False mc = mc"
    using assms by (simp_all add: settled_resource_def valid_spec_def count_failure_def)
  show ?thesis
    unfolding reconcile_path [OF stays] roles
  proof (rule emits_bind, rule emits_mono [OF emits_conj [OF resolve_loop_emits [OF order_refl] resolve_loop_settled]],
      elim conjE exE, goal_cases)
    case (1 rv ws outs)
    have warn: "\<not> list_all no_warning (ws @ es)" if "missed (sp_Clusters (mc_Spec mc)) outs \<noteq> []" for es
    proof -
      from that obtain t where "t \<in> set (missed (sp_Clusters (mc_Spec mc)) outs)" by (meson last_in_set)
      with 1 have "list_ex (unreachable_warning t) ws" by blast
      then show ?thesis by (auto simp: list_ex_iff list_all_iff no_warning_def)
    qed
    show ?case
    proof (cases "missed (sp_Clusters (mc_Spec mc)) outs = []")
      case False
      show ?thesis
        by (intro emits_if emits_mono [OF runAutoFailover_footprint] emits_mono [OF reconcile_clusters_emits [OF order_refl]])
           (rule impI, erule notE [OF warn [OF False]])+
    next
      case True
      with 1 settled count have rv: "rv_mc rv = mc" "\<not> rv_primaryUnreachable rv" "rv_unreachable rv = []"
        "rv_clients rv = reached (sp_Clusters (mc_Spec mc)) outs" by auto
      have names: "distinct (map (\<lambda>rc. ct_Name (rcl_Target rc)) (rv_clients rv))"
        unfolding rv(4) by (rule reached_names [OF _ d]) (use 1 in simp)
      have sub: "rcl_Target ` set (rv_clients rv) \<subseteq> set (sp_Clusters (mc_Spec mc))"
        unfolding rv(4) by (rule reached_targets)
      note rest = reconcile_clusters_fixed [OF assms names sub]
      have ws: "\<forall>e \<in> set ws. status_patch e = None"
        using 1 status_patch_kinds(1) by (auto simp: list_all_iff)
      have "emits (reconcile_clusters A mc mc (primaryClusterName mc) (rv_clients rv) []) (\<lambda>r es.
          list_all no_warning (ws @ es) \<longrightarrow> list_all (\<lambda>e. case status_patch e of None \<Rightarrow> True
            | Some (a, b) \<Rightarrow> a = mc \<and> (same_outcome mc b \<longrightarrow> b = mc)) (ws @ es))"
        by (rule emits_mono [OF rest]) (use ws in \<open>fastforce simp: list_all_iff split: option.split\<close>)
      with rv count show ?thesis by (simp add: auto_failover_due_def)
    qed
  qed
qed



section \<open>A fixed point, evaluated\<close>

text \<open>The sample resource with its primary only, in the healthy world of \<open>Scenario\<close>.\<close>

definition good :: "string \<Rightarrow> Condition" where
  "good t = \<lparr>cd_Type = t, cd_Status = ConditionTrue, cd_ObservedGeneration = 1, cd_LastTransitionTime = 50,
     cd_Reason = ReasonReconcileSuccess, cd_Message = []\<rparr>"

definition good_entry :: "string \<Rightarrow> string \<Rightarrow> string \<Rightarrow> ClusterStatus" where
  "good_entry name role endpoint = zero_ClusterStatus\<lparr>cs_Name := name, cs_Role := role, cs_Endpoint := endpoint,
     cs_Conditions := [good ConditionClusterReachable, good ConditionReady]\<rparr>"

definition settled_mc :: PostgresMC where
  "settled_mc = (mc_set_SpecClusters [sample_eu] sample_mc)\<lparr>mc_Status := \<lparr>st_Phase = PhaseReady, st_ObservedGeneration = 1, st_CurrentPrimary = ''eu'',
     st_Conditions = [good ConditionReady],
     st_Clusters = [good_entry ''eu'' ClusterRolePrimary ''n1.example:32432''],
     st_PrimaryFailureCount = 0\<rparr>\<rparr>"

lemma settled_mc: "settled_resource settled_mc"
  by (simp add: settled_resource_def settled_cluster_def settled_mc_def good_entry_def good_def sample_defs valid_spec_def
      zero_ClusterStatus_def cluster_look_def cond_look_def cond_value_def primaryClusterName_def
      ensureClusterStatusRoles_def Let_def api_consts)

lemma fmt_d_port: "fmt_d 32432 = ''32432''"
  by (simp add: fmt_d_def show_int_def show_nat.simps digit_char_def char_of_eq_iff take_bit_eq_mod)

lemma healthy_again:
  "\<exists>s b. run_state (reconcile mem_api registryTTL settled_mc) (mem_state healthy_world) =
     (Ok \<lparr>res_Requeue = False, res_RequeueAfter = requeueDefault\<rparr>, s) \<and>
     list_all no_warning (op_trace s) \<and> last (op_trace s) = TechCall (PatchMCStatus settled_mc b) None \<and>
     op_trace s \<noteq> [] \<and> same_outcome settled_mc b"
  apply (simp add: scenario_world_defs settled_mc_def good_entry_def good_def reconcile_def ensureClusterStatusRoles_def primaryClusterName_def
      zero_ClusterStatus_def GetClient_def atoi_short cache_key_def cache_store_def cache_hit_def
      cluster_condition_def count_failure_def auto_failover_due_def)
  apply (simp add: scenario_world_defs reconcile_clusters_def splitByRole_def Ensure_defs ClusterName_def
      ServiceName_def buildNodePortService_def isNodeReady_def updateClusterEndpoint_def format_endpoint_def)
  apply (simp add: scenario_world_defs primary_step_def reconcilePrimary_def BuildPrimary_def buildPostgresql_def
      ClusterName_def CredentialRoles_def SecretName_def setClusterReady_def obj_key_def)
  apply (simp add: scenario_world_defs standbys_step_def final_status_def Aggregate_def ready_count_def no_warning_def unreachable_warning_def
      same_outcome_def cluster_ready_def fmt_d_port)
  done

lemma reconcile_settles_witness:
  "last (op_trace (snd (run_state (reconcile mem_api registryTTL settled_mc) (mem_state healthy_world)))) =
     TechCall (PatchMCStatus settled_mc settled_mc) None"
proof -
  from healthy_again obtain s b where run: "snd (run_state (reconcile mem_api registryTTL settled_mc) (mem_state healthy_world)) = s"
    and s: "list_all no_warning (op_trace s)" "last (op_trace s) = TechCall (PatchMCStatus settled_mc b) None"
      "op_trace s \<noteq> []" "same_outcome settled_mc b" by fastforce
  from s(2,3) have "TechCall (PatchMCStatus settled_mc b) None \<in> set (op_trace s)" by (metis last_in_set)
  with emits_trace [OF reconcile_settles [OF settled_mc] mem_state_trace, of mem_api registryTTL healthy_world] run s
  have "b = settled_mc" by (fastforce simp: list_all_iff)
  with s(2) run show ?thesis by simp
qed

end
