(* ===== verification/Primaries.thy ===== *)
theory Primaries
  imports Controller
begin

text \<open>
  Which postgresql objects an operation may turn into a primary: for every operation of the
  controller the calls that write an object without a standby section, or remove that section,
  address one object only. The step relation of \<open>Operator\<close> rests on these footprints.
\<close>

section \<open>Promoting calls\<close>

text \<open>The identity of the postgresql object of a cluster: its namespace and its name.\<close>

type_synonym pg_key = "json option \<times> json option"

definition pg_named :: "string \<Rightarrow> string \<Rightarrow> pg_key" where
  "pg_named ns name = (Some (JString ns), Some (JString name))"

definition object_key :: "PostgresMC \<Rightarrow> ClusterTarget \<Rightarrow> pg_key" where
  "object_key mc t = pg_named (ct_Namespace t) (ClusterName (sp_TeamID (mc_Spec mc)) (ct_Name t))"

text \<open>
  An event that makes no object but \<open>k\<close> a primary: an object is applied without a standby section
  only under the key \<open>k\<close>, and the merge patch, which removes the section, addresses \<open>k\<close> only.
\<close>

definition promotes_only :: "pg_key \<Rightarrow> event \<Rightarrow> bool" where
  "promotes_only k e = (case e of
     Call c rq res \<Rightarrow>
       (case rq of
          ApplyPostgresql obj \<Rightarrow> obj_standby obj \<noteq> None \<or> obj_key obj = k
        | MergePatchPostgresql existing patch \<Rightarrow> obj_key existing = k
        | _ \<Rightarrow> True)
   | _ \<Rightarrow> True)"

lemma promotes_only_simps [simp]:
  "promotes_only k (Call c (ApplyPostgresql obj) res) \<longleftrightarrow> obj_standby obj \<noteq> None \<or> obj_key obj = k"
  "promotes_only k (Call c (MergePatchPostgresql existing patch) res) \<longleftrightarrow> obj_key existing = k"
  "promotes_only k (Call c (GetPostgresql ns n) res)" "promotes_only k (Call c (DeletePostgresql ns n) res)"
  "promotes_only k (TechCall trq res)" "promotes_only k (Recorded t r m)"
  by (simp_all add: promotes_only_def)

text \<open>An event that makes no object a primary.\<close>

definition promotes_nothing :: "event \<Rightarrow> bool" where
  "promotes_nothing e = (case e of
     Call c rq res \<Rightarrow>
       (case rq of
          ApplyPostgresql obj \<Rightarrow> obj_standby obj \<noteq> None
        | MergePatchPostgresql existing patch \<Rightarrow> False
        | _ \<Rightarrow> True)
   | _ \<Rightarrow> True)"

lemma promotes_nothing_simps [simp]:
  "promotes_nothing (Call c (ApplyPostgresql obj) res) \<longleftrightarrow> obj_standby obj \<noteq> None"
  "promotes_nothing (Call c (DeletePostgresql ns n) res)" "promotes_nothing (Call c (GetService ns n) res)"
  "promotes_nothing (Call c (DeleteService ns n) res)"
  "promotes_nothing (TechCall trq res)" "promotes_nothing (Recorded t r m)"
  by (simp_all add: promotes_nothing_def)

lemma promotes_nothing_only: "promotes_nothing e \<Longrightarrow> promotes_only k e"
  by (auto simp: promotes_nothing_def promotes_only_def split: event.splits request.splits)

lemma promotes_only_requests:
  "alias_request plan rq \<Longrightarrow> promotes_only k (Call c rq res)"
  "secret_request rq \<Longrightarrow> promotes_only k (Call c rq res)"
  "replication_request x rq \<Longrightarrow> promotes_only k (Call c rq res)"
  by (cases rq; cases x; auto simp: promotes_only_def)+

lemma promotes_only_read: "kubeconfig_read e \<Longrightarrow> promotes_only k e"
  by (auto simp: kubeconfig_read_iff)

text \<open>An API server that answers a get with the object that was asked for.\<close>

definition named_answers :: "'w api \<Rightarrow> bool" where
  "named_answers A \<longleftrightarrow>
     (\<forall>c ns n w obj w'. api_get_postgresql A c ns n w = (Inr obj, w') \<longrightarrow> obj_key obj = pg_named ns n)"

lemma named_answersD:
  "named_answers A \<Longrightarrow> api_get_postgresql A c ns n w = (Inr obj, w') \<Longrightarrow> obj_key obj = pg_named ns n"
  unfolding named_answers_def by blast

section \<open>The orchestrator\<close>

lemma BuildPrimary_object_key: "BuildPrimary mc t = Ok obj \<Longrightarrow> obj_key obj = object_key mc t"
  by (simp add: zalando.primary_key object_key_def pg_named_def)

lemma BuildStandby_object_key: "BuildStandby mc t h p = Ok obj \<Longrightarrow> obj_key obj = object_key mc t"
  by (simp add: zalando.standby_key object_key_def pg_named_def)

lemma promoteCluster_promotes:
  assumes "named_answers A"
  shows "footprint (promoteCluster A mc t) (promotes_only (object_key mc (frc_Target t)))"
  unfolding promoteCluster_def Let_def applyUnstructured_def
  by (intro emits_case_outcome emits_case_option emits_case_sum emits_bind emits_return emits_workload_call_answer)
     (auto simp: BuildPrimary_object_key object_key_def named_answersD [OF assms])

lemma demoteCluster_promotes: "footprint (demoteCluster A mc t h p) (promotes_only k)"
  unfolding demoteCluster_def applyUnstructured_def
  by (intro emits_intro) (auto simp: zalando.standby_points)

lemma repoint_loop_promotes: "footprint (repoint_loop A mc h p ts) (promotes_only k)"
proof (induction ts)
  case Nil
  then show ?case by (auto intro: emits_intro)
next
  case (Cons t ts)
  show ?case
    unfolding repoint_loop.simps repoint_demote
    by (rule emits_bind, rule emits_mono [OF demoteCluster_promotes], intro emits_intro emits_mono [OF Cons.IH]) auto
qed

lemma alias_loop_promotes: "footprint (alias_loop A mc h p ts) (promotes_only k)"
proof (induction ts)
  case Nil
  then show ?case by (auto intro: emits_intro)
next
  case (Cons t ts)
  show ?case
    unfolding alias_loop.simps EnsurePrimaryAlias_on_self
    apply (intro emits_case_option)
     apply (rule emits_return, simp)
    apply (rule emits_bind, rule emits_mono [OF alias_manager.op_emits], intro emits_intro emits_mono [OF Cons.IH])
     apply (fastforce dest: promotes_only_requests(1))+
    done
qed

text \<open>
  The shape of an orchestration, for every result: nothing at all, or the demotion of the old
  primary and then, only if it was accepted, calls that promote the new primary only.
\<close>

definition demotion :: "Plan \<Rightarrow> event \<Rightarrow> bool" where
  "demotion plan e \<longleftrightarrow> (\<exists>c obj res. frc_Client (pn_OldPrimary plan) = Some c \<and>
     e = Call c (ApplyPostgresql obj) res \<and> obj_standby obj \<noteq> None \<and>
     obj_key obj = object_key (pn_PostgresMC plan) (frc_Target (pn_OldPrimary plan)))"

lemma Run_shape:
  assumes "named_answers A"
  shows "emits (Run A plan) (\<lambda>r es.
     es = [] \<and> (\<forall>x. r \<noteq> Ok x) \<or>
     (\<exists>d rest. es = d # rest \<and> demotion plan d \<and> (ev_failed d \<longrightarrow> rest = [] \<and> (\<forall>x. r \<noteq> Ok x)) \<and>
        (\<forall>e \<in> set rest. promotes_only (object_key (pn_PostgresMC plan) (frc_Target (pn_NewPrimary plan))) e)))"
  unfolding Run_def Let_def
  apply (intro emits_if)
   apply (rule emits_return, simp)
  apply (rule emits_bind, rule emits_mono [OF demoteCluster_emits], rule emits_case_outcome)
    apply (rule emits_bind, rule emits_mono [OF promoteCluster_promotes [OF assms]], rule emits_case_outcome)
      apply (rule emits_bind, rule emits_mono [OF repoint_loop_promotes], rule emits_case_outcome)
        apply (rule emits_bind, rule emits_mono [OF alias_loop_promotes], rule emits_case_outcome)
          apply (rule emits_return, fastforce simp: applied_def demotion_def zalando.standby_points BuildStandby_object_key)+
  done

section \<open>A manual failover\<close>

lemma fold_place_old:
  assumes "length cs = length targets"
  shows "fs_oldPrimary (fold (place_cluster mc) (map2 (failover_cluster mc) targets cs) sides) = fs_oldPrimary sides \<or>
    (\<exists>t \<in> set targets. ct_Name t = st_CurrentPrimary (mc_Status mc) \<and>
       frc_Target (fs_oldPrimary (fold (place_cluster mc) (map2 (failover_cluster mc) targets cs) sides)) = t)"
  using assms
proof (induction cs targets arbitrary: sides rule: list_induct2)
  case (Cons c cs t ts)
  from Cons.IH [of "place_cluster mc (failover_cluster mc t c) sides"] show ?case
    by (auto simp: place_cluster_def)
qed simp

lemma new_primary_placed:
  assumes "length cs = length (sp_Clusters (mc_Spec mc))"
    and p: "filter (\<lambda>c. ct_Role c = ClusterRolePrimary) (sp_Clusters (mc_Spec mc)) = [p]"
    and "ct_Name p \<noteq> st_CurrentPrimary (mc_Status mc)"
  shows "frc_Target (fs_newPrimary (fold (place_cluster mc) (map2 (failover_cluster mc) (sp_Clusters (mc_Spec mc)) cs) sides)) = p"
proof (rule fold_place_new [OF assms(1)])
  have "filter (\<lambda>t. ct_Role t = ClusterRolePrimary \<and> ct_Name t \<noteq> st_CurrentPrimary (mc_Status mc)) (sp_Clusters (mc_Spec mc)) =
      filter (\<lambda>t. ct_Name t \<noteq> st_CurrentPrimary (mc_Status mc)) (filter (\<lambda>t. ct_Role t = ClusterRolePrimary) (sp_Clusters (mc_Spec mc)))"
    by (simp add: conj_commute)
  with p assms(3) show "filter (\<lambda>t. ct_Role t = ClusterRolePrimary \<and> ct_Name t \<noteq> st_CurrentPrimary (mc_Status mc))
      (sp_Clusters (mc_Spec mc)) = [p]" by simp
qed

text \<open>
  The calls of a failover and the events after them: nothing, or the demotion of a cluster that
  the status names as the current primary, and only if it was accepted calls that promote the
  spec's primary only, and at the end the status patch that makes it the current one.
\<close>

definition failover_tail :: "PostgresMC \<Rightarrow> ClusterTarget \<Rightarrow> event \<Rightarrow> bool" where
  "failover_tail mc p e \<longleftrightarrow>
     (\<exists>t reason msg. e = Recorded t reason msg) \<or>
     (\<exists>t1 t2 res. e = TechCall (PatchMCStatus mc (failed_over mc (ct_Name p) t1 t2)) res)"

lemma failover_tail_simps [simp]:
  "failover_tail mc p (Recorded t reason msg)"
  "failover_tail mc p (TechCall (PatchMCStatus mc (failed_over mc (ct_Name p) t1 t2)) res)"
  by (auto simp: failover_tail_def)

definition demotes :: "PostgresMC \<Rightarrow> event \<Rightarrow> bool" where
  "demotes mc e \<longleftrightarrow>
     (\<exists>c obj res t. e = Call c (ApplyPostgresql obj) res \<and> obj_standby obj \<noteq> None \<and> obj_key obj = object_key mc t \<and>
        t \<in> set (sp_Clusters (mc_Spec mc)) \<and> ct_Name t = st_CurrentPrimary (mc_Status mc))"

definition failover_calls :: "PostgresMC \<Rightarrow> ClusterTarget \<Rightarrow> event list \<Rightarrow> event list \<Rightarrow> bool" where
  "failover_calls mc p calls tail \<longleftrightarrow>
     calls = [] \<and> tail = [] \<or>
     (\<exists>d rest. calls = d # rest \<and> demotes mc d \<and> (ev_failed d \<longrightarrow> rest = [] \<and> tail = []) \<and>
        (\<forall>e \<in> set rest. promotes_only (object_key mc p) e \<and> ev_client e \<noteq> None) \<and>
        (\<forall>e \<in> set tail. failover_tail mc p e))"

lemma completeFailover_shape:
  assumes "named_answers A"
    and p: "filter (\<lambda>c. ct_Role c = ClusterRolePrimary) (sp_Clusters (mc_Spec mc)) = [p]"
    and differs: "ct_Name p \<noteq> st_CurrentPrimary (mc_Status mc)"
  shows "emits (completeFailover A ttl mc) (\<lambda>r es. \<exists>reads calls tail. es = reads @ calls @ tail \<and>
    list_all kubeconfig_read reads \<and> failover_calls mc p calls tail)"
  unfolding completeFailover_def Let_def
proof (rule emits_bind, rule emits_mono [OF failover_targets_emits], rule emits_case_sum, goal_cases)
  case (1 r es e)
  then show ?case
    by (intro emits_return exI [of _ es] exI [of _ "[]"]) (simp add: failover_calls_def)
next
  case (2 r reads sides)
  then obtain cs where cs: "length cs = length (sp_Clusters (mc_Spec mc))"
    and sides: "sides = fold (place_cluster mc) (map2 (failover_cluster mc) (sp_Clusters (mc_Spec mc)) cs) no_sides" by auto
  from 2 have reads: "list_all kubeconfig_read reads" by simp
  let ?plan = "failover_plan mc sides"
  have new: "frc_Target (pn_NewPrimary ?plan) = p"
    using new_primary_placed [OF cs p differs] by (simp add: failover_plan_def sides)
  have old: "demotes mc d" if "demotion ?plan d" for d
    using that fold_place_old [OF cs, of mc no_sides]
    by (auto simp: demotion_def demotes_def failover_plan_def sides no_sides_def zero_ResolvedCluster_def)
  have shape: "\<exists>reads' calls' tail'. reads @ calls @ tail = reads' @ calls' @ tail' \<and>
      list_all kubeconfig_read reads' \<and> failover_calls mc p calls' tail'"
    if "calls = [] \<and> tail = [] \<or> (\<exists>d rest. calls = d # rest \<and> demotion ?plan d \<and> (ev_failed d \<longrightarrow> rest = [] \<and> tail = []) \<and>
        (\<forall>e \<in> set rest. promotes_only (object_key mc p) e \<and> ev_client e \<noteq> None) \<and>
        (\<forall>e \<in> set tail. failover_tail mc p e))" for calls tail
    using that reads old unfolding failover_calls_def
    by (intro exI [of _ reads] exI [of _ calls] exI [of _ tail]) blast
  have mc: "pn_PostgresMC ?plan = mc" by (simp add: failover_plan_def)
  show ?case
  proof (rule emits_bind, rule emits_mono [OF emits_conj [OF Run_shape [OF assms(1)] emits_conj [OF Run_sequence Run_calls]]],
      intro emits_intro, goal_cases)
    case (1 f calls result t1 t2 a e)
    then show ?case
      using shape [of calls "[TechCall (PatchMCStatus mc (failed_over mc (fr_NewPrimaryName result) t1 t2)) (Some e)]"]
      by (auto simp: mc new)
  next
    case (2 f calls result t1 t2 a stored)
    then show ?case
      using shape [of calls "[TechCall (PatchMCStatus mc (failed_over mc (fr_NewPrimaryName result) t1 t2)) None,
        Recorded ''Normal'' ReasonFailoverCompleted (''failover completed, new primary: '' @ fr_NewPrimaryName result)]"]
      by (auto simp: mc new)
  next
    case (3 f calls e)
    then show ?case using shape [of calls "[]"] by (auto simp: mc new)
  next
    case (4 f calls)
    then show ?case using shape [of calls "[]"] by (auto simp: mc new)
  qed
qed

section \<open>A reconcile outside a failover\<close>

lemma ensure_loop_promotes: "footprint (ensure_loop A rcs mc d requeue) (promotes_only k)"
proof (induction rcs arbitrary: mc d requeue)
  case Nil
  then show ?case by (auto intro: emits_return)
next
  case (Cons rc rcs)
  have ens: "footprint (Ensure A c mc t) (promotes_only k)" for c t mc
    by (rule emits_mono [OF replication_manager.op_emits [of A c "(mc, t)", simplified]])
       (auto dest: promotes_only_requests(3))
  show ?case
    unfolding ensure_loop.simps Let_def
    by (rule emits_bind, rule emits_mono [OF ens], intro emits_intro emits_mono [OF Cons.IH]) auto
qed

lemma primary_step_promotes:
  assumes "\<And>p. primary = Some p \<Longrightarrow> object_key mc (rcl_Target p) = k"
  shows "footprint (primary_step A mc primary requeue) (promotes_only k)"
proof (cases primary)
  case None
  then show ?thesis by (simp add: primary_step_def emits_return)
next
  case (Some p)
  have rec: "footprint (reconcilePrimary A mc p) (promotes_only k)"
    using assms [OF Some]
    by (intro emits_mono [OF reconcilePrimary_emits])
       (fastforce simp: Let_def BuildPrimary_object_key credential_read_def promotes_only_def)
  show ?thesis
    unfolding primary_step_def Some option.case
    by (rule emits_bind, rule emits_mono [OF rec], intro emits_intro) auto
qed

lemma standbys_step_promotes: "footprint (standbys_step A mc primary ready ep standbys requeue) (promotes_only k)"
proof -
  have creds: "footprint (reconcileCredentials A mc p sts) (promotes_only k)" for p sts
    by (rule emits_mono [OF reconcileCredentials_footprint])
       (fastforce simp: sync_event_def promotes_only_def dest: promotes_only_requests(2))
  have one: "footprint (reconcileStandby A mc ep rc) (promotes_only k)" for mc rc
    by (rule emits_mono [OF reconcileStandby_emits])
       (fastforce simp: standby_trace_def dest: promotes_only_requests(1))
  have loop: "footprint (standbys_loop A ep rcs mc) (promotes_only k)" for rcs
  proof (induction rcs arbitrary: mc)
    case Nil
    then show ?case by (auto intro: emits_return)
  next
    case (Cons rc rcs)
    show ?case
      unfolding standbys_loop.simps
      by (rule emits_bind, rule emits_mono [OF one], intro emits_intro emits_mono [OF Cons.IH]) auto
  qed
  show ?thesis
    unfolding standbys_step_def
    by (intro emits_case_option emits_if emits_return emits_bind emits_mono [OF creds] emits_mono [OF loop]
        emits_case_outcome) auto
qed

lemma reconcile_clusters_promotes:
  assumes "\<And>rc. rc \<in> set rcs \<Longrightarrow> ct_Role (rcl_Target rc) = ClusterRolePrimary \<Longrightarrow> object_key mc (rcl_Target rc) = k"
  shows "footprint (reconcile_clusters A mc orig sp rcs unr) (promotes_only k)"
proof -
  obtain primary standbys where split: "splitByRole rcs = (primary, standbys)" by fastforce
  have prim: "object_key mc' (rcl_Target p) = k" if "primary = Some p" "mc_Spec mc' = mc_Spec mc" for p mc'
    using splitByRole_primary [of rcs p] that split assms by (auto simp: object_key_def)
  show ?thesis
    unfolding reconcile_clusters_def split prod.case Let_def
    apply (rule emits_bind, rule emits_mono [OF emits_conj [OF ensure_loop_promotes ensure_loop_emits [OF order_refl]]])
    apply (intro emits_case_prod)
    apply (rule emits_bind, rule emits_mono [OF primary_step_promotes [OF prim]], assumption)
     apply (clarsimp simp: status_step_fields)
    apply (rule emits_case_outcome, intro emits_case_prod)
      apply (rule emits_bind, rule emits_mono [OF standbys_step_promotes], intro emits_intro)
         apply (auto intro: emits_return)
    done
qed

section \<open>A whole reconcile\<close>

text \<open>
  What a reconcile outside a failover does to the things the single primary depends on: an
  automatic failover rewrites the roles and keeps the current primary; otherwise only the spec's
  primary is promoted and at most one status patch is sent, which makes it the current one.
\<close>

definition auto_step :: "PostgresMC \<Rightarrow> event \<Rightarrow> bool" where
  "auto_step mc e \<longleftrightarrow>
     (\<exists>t reason msg. e = Recorded t reason msg) \<or> (\<exists>trq res. e = TechCall trq res \<and>
        (kubeconfig_read e \<or>
         (\<exists>a b. trq = PatchMCStatus a b \<and> st_CurrentPrimary (mc_Status a) = st_CurrentPrimary (mc_Status mc) \<and>
            st_CurrentPrimary (mc_Status b) = st_CurrentPrimary (mc_Status mc)) \<or>
         (\<exists>a n. trq = PatchMC a (mc_set_SpecClusters (promote_roles n (sp_Clusters (mc_Spec mc))) a) \<and>
            mc_Spec a = mc_Spec mc \<and> n \<in> spec_names mc)))"

definition plain_step :: "PostgresMC \<Rightarrow> pg_key \<Rightarrow> event \<Rightarrow> bool" where
  "plain_step mc k e \<longleftrightarrow> promotes_only k e \<and>
     (\<forall>trq res. e = TechCall trq res \<longrightarrow> kubeconfig_read e \<or>
        (\<exists>b. trq = PatchMCStatus mc b \<and> st_CurrentPrimary (mc_Status b) = primaryClusterName mc))"

lemma resolve_event_step:
  "resolve_event e \<Longrightarrow> auto_step mc e" "resolve_event e \<Longrightarrow> plain_step mc k e"
  by (auto simp: resolve_event_def kubeconfig_read_iff unreachable_warning_def auto_step_def plain_step_def)

lemma runAutoFailover_steps:
  assumes "mc_Spec mc = mc_Spec orig" and "st_CurrentPrimary (mc_Status mc) = st_CurrentPrimary (mc_Status orig)"
    and "rcl_Target ` set rcs \<subseteq> set (sp_Clusters (mc_Spec orig))"
  shows "footprint (runAutoFailover A mc orig rcs) (auto_step orig)"
proof -
  have name: "ct_Name (rcl_Target rc) \<in> spec_names orig" if "first_standby rcs = Some rc" for rc
    using that assms(3) find_Some_mem [of _ rcs rc] by (auto simp: first_standby_def)
  have spec: "mc_Spec mc = mc_Spec orig" "st_CurrentPrimary (mc_Status mc) = st_CurrentPrimary (mc_Status orig)"
    by (fact assms)+
  show ?thesis
    unfolding runAutoFailover_def Let_def
    by (intro emits_intro) (use name in \<open>auto simp: auto_step_def spec\<close>)
qed

lemma reconcile_steps:
  assumes stays: "\<not> enters_failover mc" and valid: "valid_spec (sp_Clusters (mc_Spec mc))"
    and p: "filter (\<lambda>c. ct_Role c = ClusterRolePrimary) (sp_Clusters (mc_Spec mc)) = [p]"
  shows "emits (reconcile A ttl mc) (\<lambda>r es.
    (\<exists>mc1. auto_failover_due True mc1 \<and> mc_Spec mc1 = mc_Spec mc \<and>
       st_PrimaryFailureCount (mc_Status mc1) = st_PrimaryFailureCount (mc_Status mc) + 1 \<and> (\<forall>e \<in> set es. auto_step mc e)) \<or>
    (\<forall>e \<in> set es. plain_step mc (object_key mc p) e))"
proof (unfold reconcile_path [OF stays], rule emits_bind, rule emits_mono [OF resolve_loop_emits [OF order_refl]],
    elim conjE exE, goal_cases)
  case (1 rv ws outs)
  let ?pu = "rv_primaryUnreachable rv" and ?mc1 = "count_failure (rv_primaryUnreachable rv) (rv_mc rv)"
  have fields: "mc_Spec ?mc1 = mc_Spec mc"
    "st_CurrentPrimary (mc_Status ?mc1) = st_CurrentPrimary (mc_Status mc)"
    "st_PrimaryFailureCount (mc_Status ?mc1) = (if ?pu then st_PrimaryFailureCount (mc_Status mc) + 1 else 0)"
    using 1(2) by (simp_all add: status_step_fields count_failure_def)
  have clients: "rcl_Target ` set (rv_clients rv) \<subseteq> set (sp_Clusters (mc_Spec mc))"
    using 1 reached_targets [of "sp_Clusters (mc_Spec mc)" outs] by auto
  have ws: "\<forall>e \<in> set ws. auto_step mc e \<and> plain_step mc (object_key mc p) e"
    using 1(1) resolve_event_step by (auto simp: list_all_iff)
  have key: "object_key ?mc1 (rcl_Target rc) = object_key mc p"
    if "rc \<in> set (rv_clients rv)" "ct_Role (rcl_Target rc) = ClusterRolePrimary" for rc
  proof -
    from that clients have "rcl_Target rc \<in> set (filter (\<lambda>c. ct_Role c = ClusterRolePrimary) (sp_Clusters (mc_Spec mc)))"
      by auto
    with p have "rcl_Target rc = p" by simp
    then show ?thesis using fields(1) by (simp add: object_key_def)
  qed
  show ?case
  proof (rule emits_if, goal_cases)
    case 1
    then have pu: "?pu" by (simp add: auto_failover_due_def)
    with 1 ws show ?case
      by (intro emits_mono [OF runAutoFailover_steps [OF fields(1,2) clients]] disjI1 exI [of _ ?mc1])
         (use fields(1) fields(3) in auto)
  next
    case 2
    have no: False if "TechCall trq res \<in> set es" "\<forall>e \<in> set es. work_event e" for trq res and es :: "event list"
      using that by fastforce
    have final: "plain_step mc (object_key mc p) e"
      if "clusters_trace T ?mc1 mc (primaryClusterName mc) unr r es" "e \<in> set es" "promotes_only (object_key mc p) e"
      for T unr r es e
      using that by (auto simp: clusters_trace_def final_patch_def plain_step_def list_all_iff dest: no)
    from ws show ?case
      by (intro emits_mono [OF emits_conj [OF reconcile_clusters_promotes [OF key] reconcile_clusters_emits [OF order_refl]]]
          disjI2) (use final in fastforce)+
  qed
qed

section \<open>Deletion\<close>

lemma deletion_loop_promotes:
  "footprint (deletion_loop A ttl mc targets) (\<lambda>e. promotes_nothing e \<and> (ev_client e \<noteq> None \<or> kubeconfig_read e))"
proof (induction targets)
  case Nil
  then show ?case by (auto intro: emits_return)
next
  case (Cons target targets)
  have read: "footprint (GetClient A ttl target ns) (\<lambda>e. promotes_nothing e \<and> (ev_client e \<noteq> None \<or> kubeconfig_read e))" for ns
    by (rule emits_mono [OF GetClient_read]) auto
  have service: "footprint (remove_service A c ns n) (\<lambda>e. promotes_nothing e \<and> (ev_client e \<noteq> None \<or> kubeconfig_read e))" for c ns n
    unfolding remove_service_def by (intro emits_intro) auto
  have object: "footprint (deletePostgresql A mc target c) (\<lambda>e. promotes_nothing e \<and> (ev_client e \<noteq> None \<or> kubeconfig_read e))" for c
    by (rule emits_mono [OF deletePostgresql_emits]) auto
  have cluster: "footprint (deleteOnCluster A mc target c) (\<lambda>e. promotes_nothing e \<and> (ev_client e \<noteq> None \<or> kubeconfig_read e))" for c
    unfolding deleteOnCluster_def remove_service_eqs
    apply (rule emits_bind, rule emits_mono [OF object], rule emits_case_option)
     apply (rule emits_bind, rule emits_mono [OF service], rule emits_case_option, rule emits_if)
       apply (rule emits_bind, rule emits_mono [OF service], intro emits_intro)
        apply (auto intro: emits_return)
    done
  show ?case
    unfolding deletion_loop.simps
    apply (rule emits_bind, rule emits_mono [OF read], rule emits_case_sum)
     apply (rule emits_mono [OF Cons.IH], fastforce)
    apply (rule emits_bind, rule emits_mono [OF cluster], rule emits_case_option)
     apply (rule emits_mono [OF Cons.IH], fastforce)
    apply (rule emits_return, fastforce)
    done
qed

end
