(* ===== verification/Operator.thy ===== *)
theory Operator
  imports Primaries Scenario "HOL-Library.Sublist"
begin

text \<open>
  The operator over time: runs of \<open>Reconcile\<close> on a stored PostgresMC, interleaved with edits of
  the spec by users and with the deletion of the resource. A run may be cut off after any event
  (the process may crash), servers may fail at any call (a run starts in an arbitrary world), and
  a call whose answer was an error may have taken effect nevertheless. The state is the stored
  resource and the set of postgresql objects that may be running as a primary.
\<close>

section \<open>The effect of events\<close>

text \<open>
  A patch is the difference between two objects: a field that is equal in both is left as it is
  stored.
\<close>

definition patch_field :: "'a \<Rightarrow> 'a \<Rightarrow> 'a \<Rightarrow> 'a" where
  "patch_field a b stored = (if a = b then stored else b)"

definition patch_status :: "PostgresMCStatus \<Rightarrow> PostgresMCStatus \<Rightarrow> PostgresMCStatus \<Rightarrow> PostgresMCStatus" where
  "patch_status a b s =
     \<lparr>st_Phase = patch_field (st_Phase a) (st_Phase b) (st_Phase s),
      st_ObservedGeneration = patch_field (st_ObservedGeneration a) (st_ObservedGeneration b) (st_ObservedGeneration s),
      st_CurrentPrimary = patch_field (st_CurrentPrimary a) (st_CurrentPrimary b) (st_CurrentPrimary s),
      st_Conditions = patch_field (st_Conditions a) (st_Conditions b) (st_Conditions s),
      st_Clusters = patch_field (st_Clusters a) (st_Clusters b) (st_Clusters s),
      st_PrimaryFailureCount = patch_field (st_PrimaryFailureCount a) (st_PrimaryFailureCount b) (st_PrimaryFailureCount s)\<rparr>"

definition patch_spec :: "PostgresMCSpec \<Rightarrow> PostgresMCSpec \<Rightarrow> PostgresMCSpec \<Rightarrow> PostgresMCSpec" where
  "patch_spec a b s =
     \<lparr>sp_TeamID = patch_field (sp_TeamID a) (sp_TeamID b) (sp_TeamID s),
      sp_Clusters = patch_field (sp_Clusters a) (sp_Clusters b) (sp_Clusters s),
      sp_PostgresqlSpec = patch_field (sp_PostgresqlSpec a) (sp_PostgresqlSpec b) (sp_PostgresqlSpec s),
      sp_Replication = patch_field (sp_Replication a) (sp_Replication b) (sp_Replication s),
      sp_ReplicationService = patch_field (sp_ReplicationService a) (sp_ReplicationService b) (sp_ReplicationService s),
      sp_AutoFailover = patch_field (sp_AutoFailover a) (sp_AutoFailover b) (sp_AutoFailover s)\<rparr>"

text \<open>The stored resource after a call took effect. The status is a subresource: only its own patches change it.\<close>

fun mc_after :: "event \<Rightarrow> PostgresMC \<Rightarrow> PostgresMC" where
  "mc_after (TechCall (UpdateMC b) res) mc = b\<lparr>mc_Status := mc_Status mc\<rparr>"
| "mc_after (TechCall (PatchMC a b) res) mc =
     mc\<lparr>mc_Finalizers := patch_field (mc_Finalizers a) (mc_Finalizers b) (mc_Finalizers mc),
        mc_Spec := patch_spec (mc_Spec a) (mc_Spec b) (mc_Spec mc)\<rparr>"
| "mc_after (TechCall (PatchMCStatus a b) res) mc =
     mc\<lparr>mc_Status := patch_status (mc_Status a) (mc_Status b) (mc_Status mc)\<rparr>"
| "mc_after e mc = mc"

text \<open>
  The objects that may run as a primary after an event. A write that makes one counts even when
  it failed (its answer may have been lost); a write that ends one counts only when accepted.
  The one merge patch of the operator removes the standby section.
\<close>

fun primaries_after :: "event \<Rightarrow> pg_key set \<Rightarrow> pg_key set" where
  "primaries_after (Call c (ApplyPostgresql obj) res) P =
     (if obj_standby obj = None then insert (obj_key obj) P else if res = None then P - {obj_key obj} else P)"
| "primaries_after (Call c (MergePatchPostgresql existing patch) res) P = insert (obj_key existing) P"
| "primaries_after (Call c (DeletePostgresql ns n) res) P = (if res = None then P - {pg_named ns n} else P)"
| "primaries_after e P = P"

record operator_state =
  os_mc :: PostgresMC
  os_primaries :: "pg_key set"

definition apply_event :: "bool \<Rightarrow> event \<Rightarrow> operator_state \<Rightarrow> operator_state" where
  "apply_event lost e \<sigma> =
     \<sigma>\<lparr>os_mc := (if ev_failed e \<and> \<not> lost then os_mc \<sigma> else mc_after e (os_mc \<sigma>)),
       os_primaries := primaries_after e (os_primaries \<sigma>)\<rparr>"

definition apply_events :: "(bool \<times> event) list \<Rightarrow> operator_state \<Rightarrow> operator_state" where
  "apply_events les \<sigma> = fold (\<lambda>(lost, e). apply_event lost e) les \<sigma>"

section \<open>Steps\<close>

text \<open>
  The specs that the operator is used with: valid, with named clusters (the schema of the resource
  demands a name), and with an automatic failover only after at least two failures.
\<close>

definition usable_spec :: "PostgresMCSpec \<Rightarrow> bool" where
  "usable_spec sp \<longleftrightarrow> valid_spec (sp_Clusters sp) \<and> [] \<notin> ct_Name ` set (sp_Clusters sp) \<and>
     (af_Enabled (sp_AutoFailover sp) \<longrightarrow>
        af_PrimaryUnreachableThreshold (sp_AutoFailover sp) = 0 \<or> 2 \<le> sint (af_PrimaryUnreachableThreshold (sp_AutoFailover sp)))"

text \<open>
  A user edits the spec. The team stays (it names the objects). While the status names the spec's
  primary, the clusters may be changed in any way that does not move the current primary to
  another namespace; while it does not, a failover is pending and the clusters stay as they are.
\<close>

definition settled :: "PostgresMC \<Rightarrow> bool" where
  "settled mc \<longleftrightarrow> st_CurrentPrimary (mc_Status mc) = primaryClusterName mc"

definition allowed_edit :: "PostgresMC \<Rightarrow> PostgresMCSpec \<Rightarrow> bool" where
  "allowed_edit mc sp \<longleftrightarrow> usable_spec sp \<and> sp_TeamID sp = sp_TeamID (mc_Spec mc) \<and>
     (if settled mc then
        (\<forall>t \<in> set (sp_Clusters sp). \<forall>t' \<in> set (sp_Clusters (mc_Spec mc)).
           ct_Name t = st_CurrentPrimary (mc_Status mc) \<and> ct_Name t' = ct_Name t \<longrightarrow> ct_Namespace t = ct_Namespace t')
      else sp_Clusters sp = sp_Clusters (mc_Spec mc))"

inductive op_step :: "'w api \<Rightarrow> time \<Rightarrow> operator_state \<Rightarrow> operator_state \<Rightarrow> bool" for A ttl where
  run: "op_trace s = [] \<Longrightarrow>
     prefix (map snd les) (op_trace (snd (run_state (Reconcile_object A ttl (os_mc \<sigma>)) s))) \<Longrightarrow>
     op_step A ttl \<sigma> (apply_events les \<sigma>)"
| edit: "allowed_edit (os_mc \<sigma>) sp \<Longrightarrow> op_step A ttl \<sigma> (\<sigma>\<lparr>os_mc := (os_mc \<sigma>)\<lparr>mc_Spec := sp, mc_Generation := g\<rparr>\<rparr>)"
| delete: "op_step A ttl \<sigma> (\<sigma>\<lparr>os_mc := (os_mc \<sigma>)\<lparr>mc_DeletionTimestamp := Some t\<rparr>\<rparr>)"

text \<open>A new resource: no object is there yet and the status is empty.\<close>

definition initial :: "operator_state \<Rightarrow> bool" where
  "initial \<sigma> \<longleftrightarrow> usable_spec (mc_Spec (os_mc \<sigma>)) \<and> st_CurrentPrimary (mc_Status (os_mc \<sigma>)) = [] \<and>
     st_PrimaryFailureCount (mc_Status (os_mc \<sigma>)) = 0 \<and> os_primaries \<sigma> = {}"

inductive reachable :: "'w api \<Rightarrow> time \<Rightarrow> operator_state \<Rightarrow> bool" for A ttl where
  start: "initial \<sigma> \<Longrightarrow> reachable A ttl \<sigma>"
| step: "reachable A ttl \<sigma> \<Longrightarrow> op_step A ttl \<sigma> \<sigma>' \<Longrightarrow> reachable A ttl \<sigma>'"

inductive_cases op_stepE [elim]: "op_step A ttl \<sigma> \<sigma>'"

section \<open>The invariant\<close>

text \<open>
  At most one object may run as a primary, and it belongs to the primary of the spec or to the
  cluster that the status names as the current one.
\<close>

definition single_primary :: "operator_state \<Rightarrow> bool" where
  "single_primary \<sigma> \<longleftrightarrow>
     (let mc = os_mc \<sigma>; cs = sp_Clusters (mc_Spec mc); cp = st_CurrentPrimary (mc_Status mc)
      in \<exists>k. os_primaries \<sigma> \<subseteq> {k} \<and>
           ((\<forall>t \<in> set cs. ct_Role t = ClusterRolePrimary \<longrightarrow> object_key mc t = k) \<or>
            cp \<noteq> [] \<and> (\<forall>t \<in> set cs. ct_Name t = cp \<longrightarrow> object_key mc t = k)))"

definition op_inv :: "operator_state \<Rightarrow> bool" where
  "op_inv \<sigma> \<longleftrightarrow> usable_spec (mc_Spec (os_mc \<sigma>)) \<and> single_primary \<sigma> \<and>
     (st_CurrentPrimary (mc_Status (os_mc \<sigma>)) = [] \<longrightarrow> st_PrimaryFailureCount (mc_Status (os_mc \<sigma>)) = 0)"

lemma initial_inv: "initial \<sigma> \<Longrightarrow> op_inv \<sigma>"
proof -
  assume init: "initial \<sigma>"
  then have valid: "valid_spec (sp_Clusters (mc_Spec (os_mc \<sigma>)))" by (simp add: initial_def usable_spec_def)
  from valid_spec_primary [OF valid] obtain p where
    p: "filter (\<lambda>c. ct_Role c = ClusterRolePrimary) (sp_Clusters (mc_Spec (os_mc \<sigma>))) = [p]" by blast
  have "t = p" if "t \<in> set (sp_Clusters (mc_Spec (os_mc \<sigma>)))" "ct_Role t = ClusterRolePrimary" for t
  proof -
    from that have "t \<in> set (filter (\<lambda>c. ct_Role c = ClusterRolePrimary) (sp_Clusters (mc_Spec (os_mc \<sigma>))))" by simp
    with p show ?thesis by simp
  qed
  with init show ?thesis
    by (auto simp: op_inv_def initial_def single_primary_def Let_def simp del: split_paired_Ex
        intro!: exI [of _ "object_key (os_mc \<sigma>) p"])
qed

text \<open>Runs of events: a predicate that every event keeps is kept by every part of a run.\<close>

lemma apply_events_simps [simp]:
  "apply_events [] \<sigma> = \<sigma>" "apply_events ((lost, e) # les) \<sigma> = apply_events les (apply_event lost e \<sigma>)"
  "apply_events (les @ les') \<sigma> = apply_events les' (apply_events les \<sigma>)"
  by (simp_all add: apply_events_def)

lemma apply_events_keep:
  assumes "\<And>lost e \<sigma>. e \<in> set es \<Longrightarrow> J \<sigma> \<Longrightarrow> J (apply_event lost e \<sigma>)" and "prefix (map snd les) es" and "J \<sigma>"
  shows "J (apply_events les \<sigma>)"
proof -
  have "\<forall>e \<in> set (map snd les). e \<in> set es" using assms(2) set_mono_prefix by blast
  then show ?thesis using assms(3)
  proof (induction les arbitrary: \<sigma>)
    case (Cons le les)
    obtain lost e where le: "le = (lost, e)" by fastforce
    with Cons.prems have "J (apply_event lost e \<sigma>)" by (intro assms(1)) auto
    with Cons le show ?case by simp
  qed simp
qed

lemma prefix_append_events:
  assumes "prefix (map snd les) (xs @ ys)"
  obtains "prefix (map snd les) xs"
  | les1 les2 where "les = les1 @ les2" "map snd les1 = xs" "prefix (map snd les2) ys"
proof (cases "prefix (map snd les) xs")
  case False
  with assms obtain zs where zs: "map snd les = xs @ zs" "prefix zs ys" by (auto simp: prefix_append)
  then obtain l1 l2 where "les = l1 @ l2" "map snd l1 = xs" "map snd l2 = zs" by (metis map_eq_append_conv)
  with zs(2) that(2) show ?thesis by metis
qed (use that(1) in blast)

section \<open>Preservation\<close>

text \<open>The primary of a usable spec.\<close>

lemma usable_primary:
  assumes "usable_spec (mc_Spec mc)"
  obtains p where "filter (\<lambda>c. ct_Role c = ClusterRolePrimary) (sp_Clusters (mc_Spec mc)) = [p]"
    "p \<in> set (sp_Clusters (mc_Spec mc))" "ct_Name p = primaryClusterName mc" "primaryClusterName mc \<noteq> []"
    "\<forall>t \<in> set (sp_Clusters (mc_Spec mc)). ct_Role t = ClusterRolePrimary \<longrightarrow> t = p"
    "\<forall>t \<in> set (sp_Clusters (mc_Spec mc)). ct_Name t = ct_Name p \<longrightarrow> t = p"
proof -
  from assms have valid: "valid_spec (sp_Clusters (mc_Spec mc))" and named: "[] \<notin> spec_names mc"
    by (simp_all add: usable_spec_def)
  from valid_spec_primary [OF valid] obtain p where
    p: "filter (\<lambda>c. ct_Role c = ClusterRolePrimary) (sp_Clusters (mc_Spec mc)) = [p]" "p \<in> set (sp_Clusters (mc_Spec mc))"
    by blast
  have name: "ct_Name p = primaryClusterName mc" using p(1) by (simp add: primaryClusterName_def primaryName_filter)
  have "t = p" if "t \<in> set (sp_Clusters (mc_Spec mc))" "ct_Role t = ClusterRolePrimary" for t
  proof -
    from that have "t \<in> set (filter (\<lambda>c. ct_Role c = ClusterRolePrimary) (sp_Clusters (mc_Spec mc)))" by simp
    with p(1) show ?thesis by simp
  qed
  moreover have "t = p" if "t \<in> set (sp_Clusters (mc_Spec mc))" "ct_Name t = ct_Name p" for t
    using valid that p(2) by (auto simp: valid_spec_def dest: inj_onD [OF iffD1 [OF distinct_map, THEN conjunct2]])
  moreover have "primaryClusterName mc \<noteq> []" using p(2) named name by force
  ultimately show ?thesis using that p name by blast
qed

text \<open>
  An event that changes nothing the invariant depends on, and makes no object a primary. Where
  the invariant holds before, it holds after any part of a run of such events.
\<close>

definition quiet :: "PostgresMC \<Rightarrow> event \<Rightarrow> bool" where
  "quiet mc e \<longleftrightarrow> promotes_nothing e \<and>
     (\<forall>trq res. e = TechCall trq res \<longrightarrow> kubeconfig_read e \<or>
        (case trq of
           UpdateMC b \<Rightarrow> mc_Spec b = mc_Spec mc
         | PatchMC a b \<Rightarrow> mc_Spec a = mc_Spec b
         | PatchMCStatus a b \<Rightarrow>
             st_CurrentPrimary (mc_Status a) = st_CurrentPrimary (mc_Status b) \<and>
             st_PrimaryFailureCount (mc_Status a) = st_PrimaryFailureCount (mc_Status b)
         | _ \<Rightarrow> True))"

text \<open>The fields that the invariant reads.\<close>

definition same_view :: "operator_state \<Rightarrow> operator_state \<Rightarrow> bool" where
  "same_view \<sigma> \<sigma>' \<longleftrightarrow> mc_Spec (os_mc \<sigma>') = mc_Spec (os_mc \<sigma>) \<and>
     st_CurrentPrimary (mc_Status (os_mc \<sigma>')) = st_CurrentPrimary (mc_Status (os_mc \<sigma>)) \<and>
     st_PrimaryFailureCount (mc_Status (os_mc \<sigma>')) = st_PrimaryFailureCount (mc_Status (os_mc \<sigma>)) \<and>
     os_primaries \<sigma>' \<subseteq> os_primaries \<sigma>"

lemma object_key_spec: "mc_Spec mc' = mc_Spec mc \<Longrightarrow> object_key mc' t = object_key mc t"
  by (simp add: object_key_def)

lemma same_view_inv: "op_inv \<sigma> \<Longrightarrow> same_view \<sigma> \<sigma>' \<Longrightarrow> op_inv \<sigma>'"
  unfolding op_inv_def same_view_def single_primary_def Let_def
  by (auto simp: object_key_spec [of "os_mc \<sigma>'" "os_mc \<sigma>"] simp del: split_paired_Ex)

lemma patch_field_same [simp]: "patch_field a a s = s"
  by (simp add: patch_field_def)

lemma patch_spec_same [simp]: "patch_spec a a s = s"
  by (simp add: patch_spec_def)

lemma patch_spec_clusters:
  "patch_spec a (a\<lparr>sp_Clusters := cs\<rparr>) s = s\<lparr>sp_Clusters := patch_field (sp_Clusters a) cs (sp_Clusters s)\<rparr>"
  by (cases s) (simp add: patch_spec_def)

lemma patch_status_fields [simp]:
  "st_CurrentPrimary (patch_status a b s) = patch_field (st_CurrentPrimary a) (st_CurrentPrimary b) (st_CurrentPrimary s)"
  "st_PrimaryFailureCount (patch_status a b s) =
     patch_field (st_PrimaryFailureCount a) (st_PrimaryFailureCount b) (st_PrimaryFailureCount s)"
  by (simp_all add: patch_status_def)

lemma promotes_only_insert:
  "promotes_only k e \<Longrightarrow> primaries_after e P \<subseteq> insert k P"
  by (induction e P rule: primaries_after.induct) (auto simp: promotes_only_def)

lemma promotes_none: "promotes_nothing e \<Longrightarrow> primaries_after e P \<subseteq> P"
  by (induction e P rule: primaries_after.induct) (auto simp: promotes_nothing_def)

lemma quiet_same_view:
  assumes "quiet mc e" "mc_Spec mc = mc_Spec (os_mc \<sigma>)" "same_view \<sigma> \<sigma>'"
  shows "same_view \<sigma> (apply_event lost e \<sigma>')"
proof -
  have "primaries_after e (os_primaries \<sigma>') \<subseteq> os_primaries \<sigma>'"
    using assms(1) by (intro promotes_none) (simp add: quiet_def)
  with assms show ?thesis
    by (cases "(e, os_mc \<sigma>')" rule: mc_after.cases)
       (auto simp: same_view_def apply_event_def quiet_def)
qed

lemma quiet_run:
  assumes "op_inv \<sigma>" "\<forall>e \<in> set es. quiet (os_mc \<sigma>) e" "prefix (map snd les) es"
  shows "same_view \<sigma> (apply_events les \<sigma>)" and "op_inv (apply_events les \<sigma>)"
proof -
  have "same_view \<sigma> (apply_event lost e \<sigma>')" if "e \<in> set es" "same_view \<sigma> \<sigma>'" for lost e \<sigma>'
    using assms(2) that by (intro quiet_same_view) auto
  then show view: "same_view \<sigma> (apply_events les \<sigma>)"
    by (rule apply_events_keep [OF _ assms(3)]) (simp_all add: same_view_def)
  show "op_inv (apply_events les \<sigma>)" by (rule same_view_inv [OF assms(1) view])
qed

text \<open>Where the spec's primary is the only object that may be a primary, the invariant holds.\<close>

lemma op_invI:
  assumes "usable_spec (mc_Spec (os_mc \<sigma>))"
    and p: "filter (\<lambda>c. ct_Role c = ClusterRolePrimary) (sp_Clusters (mc_Spec (os_mc \<sigma>))) = [p]"
    and "os_primaries \<sigma> \<subseteq> {object_key (os_mc \<sigma>) p}"
    and "st_CurrentPrimary (mc_Status (os_mc \<sigma>)) = [] \<Longrightarrow> st_PrimaryFailureCount (mc_Status (os_mc \<sigma>)) = 0"
  shows "op_inv \<sigma>"
proof -
  have "t = p" if "t \<in> set (sp_Clusters (mc_Spec (os_mc \<sigma>)))" "ct_Role t = ClusterRolePrimary" for t
  proof -
    from that have "t \<in> set (filter (\<lambda>c. ct_Role c = ClusterRolePrimary) (sp_Clusters (mc_Spec (os_mc \<sigma>))))" by simp
    with p show ?thesis by simp
  qed
  with assms(1,3,4) show ?thesis
    by (auto simp: op_inv_def single_primary_def Let_def simp del: split_paired_Ex
        intro!: exI [of _ "object_key (os_mc \<sigma>) p"])
qed

lemma op_inv_currentI:
  assumes "usable_spec (mc_Spec (os_mc \<sigma>))" and "st_CurrentPrimary (mc_Status (os_mc \<sigma>)) \<noteq> []"
    and "os_primaries \<sigma> \<subseteq> {k}"
    and "\<forall>t \<in> set (sp_Clusters (mc_Spec (os_mc \<sigma>))).
      ct_Name t = st_CurrentPrimary (mc_Status (os_mc \<sigma>)) \<longrightarrow> object_key (os_mc \<sigma>) t = k"
  shows "op_inv \<sigma>"
  using assms unfolding op_inv_def single_primary_def Let_def by blast

text \<open>Before and after a reconcile outside a failover the only primary is the spec's.\<close>

lemma stays_primaries:
  assumes inv: "op_inv \<sigma>" and stays: "\<not> enters_failover (os_mc \<sigma>)"
    and p: "filter (\<lambda>c. ct_Role c = ClusterRolePrimary) (sp_Clusters (mc_Spec (os_mc \<sigma>))) = [p]"
  shows "os_primaries \<sigma> \<subseteq> {object_key (os_mc \<sigma>) p}"
proof -
  let ?mc = "os_mc \<sigma>"
  from p have "p \<in> set (filter (\<lambda>c. ct_Role c = ClusterRolePrimary) (sp_Clusters (mc_Spec ?mc)))" by simp
  then have mem: "p \<in> set (sp_Clusters (mc_Spec ?mc))" "ct_Role p = ClusterRolePrimary" by simp_all
  have name: "ct_Name p = primaryClusterName ?mc" using p by (simp add: primaryClusterName_def primaryName_filter)
  from inv obtain k where k: "os_primaries \<sigma> \<subseteq> {k}"
    "(\<forall>t \<in> set (sp_Clusters (mc_Spec ?mc)). ct_Role t = ClusterRolePrimary \<longrightarrow> object_key ?mc t = k) \<or>
     st_CurrentPrimary (mc_Status ?mc) \<noteq> [] \<and>
       (\<forall>t \<in> set (sp_Clusters (mc_Spec ?mc)). ct_Name t = st_CurrentPrimary (mc_Status ?mc) \<longrightarrow> object_key ?mc t = k)"
    unfolding op_inv_def single_primary_def Let_def by blast
  from k(2) stays mem name have "object_key ?mc p = k" by (auto simp: enters_failover_def)
  with k(1) show ?thesis by simp
qed

lemma plain_run:
  assumes inv: "op_inv \<sigma>" and stays: "\<not> enters_failover (os_mc \<sigma>)"
    and p: "filter (\<lambda>c. ct_Role c = ClusterRolePrimary) (sp_Clusters (mc_Spec (os_mc \<sigma>))) = [p]"
    and es: "\<forall>e \<in> set es. plain_step (os_mc \<sigma>) (object_key (os_mc \<sigma>) p) e" "prefix (map snd les) es"
  shows "op_inv (apply_events les \<sigma>)"
proof -
  let ?mc = "os_mc \<sigma>"
  define J where "J \<sigma>' \<longleftrightarrow> mc_Spec (os_mc \<sigma>') = mc_Spec ?mc \<and> os_primaries \<sigma>' \<subseteq> {object_key ?mc p} \<and>
    (st_CurrentPrimary (mc_Status (os_mc \<sigma>')) = st_CurrentPrimary (mc_Status ?mc) \<and>
       st_PrimaryFailureCount (mc_Status (os_mc \<sigma>')) = st_PrimaryFailureCount (mc_Status ?mc) \<or>
     st_CurrentPrimary (mc_Status (os_mc \<sigma>')) = primaryClusterName ?mc)" for \<sigma>' :: operator_state
  have usable: "usable_spec (mc_Spec ?mc)" using inv by (simp add: op_inv_def)
  from usable_primary [OF usable] have named: "primaryClusterName ?mc \<noteq> []" by blast
  have cp: "st_CurrentPrimary (mc_Status ?mc) = [] \<or> st_CurrentPrimary (mc_Status ?mc) = primaryClusterName ?mc"
    using stays by (auto simp: enters_failover_def)
  have keep: "J (apply_event lost e \<sigma>')" if e: "e \<in> set es" and J: "J \<sigma>'" for lost e \<sigma>'
  proof -
    from es(1) e have step: "plain_step ?mc (object_key ?mc p) e" by blast
    then have "primaries_after e (os_primaries \<sigma>') \<subseteq> {object_key ?mc p}"
      using J promotes_only_insert unfolding plain_step_def J_def by blast
    with step J cp named show ?thesis
      by (cases "(e, os_mc \<sigma>')" rule: mc_after.cases)
         (auto simp: J_def apply_event_def plain_step_def patch_field_def)
  qed
  have "J \<sigma>" using stays_primaries [OF inv stays p] by (simp add: J_def)
  with keep have J: "J (apply_events les \<sigma>)" by (rule apply_events_keep [OF _ es(2)])
  with usable p show ?thesis
    using named inv object_key_spec [of "os_mc (apply_events les \<sigma>)" ?mc]
    by (intro op_invI [of _ p]) (auto simp: J_def op_inv_def)
qed

lemma promoted_usable:
  assumes "usable_spec sp" "n \<in> ct_Name ` set (sp_Clusters sp)"
  shows "usable_spec (sp\<lparr>sp_Clusters := promote_roles n (sp_Clusters sp)\<rparr>)"
proof -
  from assms(1) have "distinct (map ct_Name (sp_Clusters sp))" by (simp add: usable_spec_def valid_spec_def)
  moreover have "ct_Name ` set (promote_roles n (sp_Clusters sp)) = ct_Name ` set (sp_Clusters sp)"
    by (simp add: promote_roles_def image_image)
  ultimately show ?thesis
    using valid_promote_roles(1) [of "sp_Clusters sp" n] assms by (simp add: usable_spec_def)
qed

text \<open>
  An automatic failover keeps the current primary in the status, so what was the primary of the
  spec is now the primary of the status.
\<close>

lemma auto_run:
  assumes inv: "op_inv \<sigma>" and stays: "\<not> enters_failover (os_mc \<sigma>)"
    and cp: "st_CurrentPrimary (mc_Status (os_mc \<sigma>)) \<noteq> []"
    and es: "\<forall>e \<in> set es. auto_step (os_mc \<sigma>) e" "prefix (map snd les) es"
  shows "op_inv (apply_events les \<sigma>)"
proof -
  let ?mc = "os_mc \<sigma>" and ?cs = "sp_Clusters (mc_Spec (os_mc \<sigma>))"
  have usable: "usable_spec (mc_Spec ?mc)" using inv by (simp add: op_inv_def)
  obtain p where p: "filter (\<lambda>c. ct_Role c = ClusterRolePrimary) ?cs = [p]" and "p \<in> set ?cs"
    and name: "ct_Name p = primaryClusterName ?mc" "primaryClusterName ?mc \<noteq> []"
    and "\<forall>t \<in> set ?cs. ct_Role t = ClusterRolePrimary \<longrightarrow> t = p"
    and only: "\<forall>t \<in> set ?cs. ct_Name t = ct_Name p \<longrightarrow> t = p"
    by (rule usable_primary [OF usable])
  define J where "J \<sigma>' \<longleftrightarrow>
    (mc_Spec (os_mc \<sigma>') = mc_Spec ?mc \<or>
     (\<exists>n \<in> ct_Name ` set ?cs. mc_Spec (os_mc \<sigma>') = (mc_Spec ?mc)\<lparr>sp_Clusters := promote_roles n ?cs\<rparr>)) \<and>
    st_CurrentPrimary (mc_Status (os_mc \<sigma>')) = st_CurrentPrimary (mc_Status ?mc) \<and>
    os_primaries \<sigma>' \<subseteq> {object_key ?mc p}" for \<sigma>' :: operator_state
  have keep: "J (apply_event lost e \<sigma>')" if e: "e \<in> set es" and J: "J \<sigma>'" for lost e \<sigma>'
  proof -
    from es(1) e have "auto_step ?mc e" by blast
    then consider "\<exists>t r m. e = Recorded t r m" | "kubeconfig_read e"
      | a b res where "e = TechCall (PatchMCStatus a b) res" "st_CurrentPrimary (mc_Status a) = st_CurrentPrimary (mc_Status ?mc)"
          "st_CurrentPrimary (mc_Status b) = st_CurrentPrimary (mc_Status ?mc)"
      | a n res where "e = TechCall (PatchMC a (mc_set_SpecClusters (promote_roles n ?cs) a)) res"
          "mc_Spec a = mc_Spec ?mc" "n \<in> ct_Name ` set ?cs"
      unfolding auto_step_def by blast
    then show ?thesis
    proof cases
      case (4 a n res)
      then show ?thesis
        using J by (auto simp: J_def apply_event_def patch_spec_clusters patch_field_def)
    qed (use J in \<open>auto simp: J_def apply_event_def kubeconfig_read_iff\<close>)
  qed
  have "J \<sigma>" using stays_primaries [OF inv stays p] by (simp add: J_def)
  with keep have J: "J (apply_events les \<sigma>)" by (rule apply_events_keep [OF _ es(2)])
  let ?mc' = "os_mc (apply_events les \<sigma>)"
  have team: "sp_TeamID (mc_Spec ?mc') = sp_TeamID (mc_Spec ?mc)" using J by (auto simp: J_def)
  have "object_key ?mc' t = object_key ?mc p"
    if "t \<in> set (sp_Clusters (mc_Spec ?mc'))" "ct_Name t = st_CurrentPrimary (mc_Status ?mc)" for t
  proof -
    from that(1) J obtain t' where t': "t' \<in> set ?cs" "ct_Name t = ct_Name t'" "ct_Namespace t = ct_Namespace t'"
      by (auto simp: J_def promote_roles_def)
    moreover from that(2) stays cp name have "ct_Name t = ct_Name p" by (simp add: enters_failover_def)
    ultimately have "t' = p" using only by simp
    with t' team show ?thesis by (simp add: object_key_def)
  qed
  moreover have "usable_spec (mc_Spec ?mc')" using J usable promoted_usable by (auto simp: J_def)
  ultimately show ?thesis
    using J cp by (intro op_inv_currentI [where k = "object_key ?mc p"]) (auto simp: J_def)
qed

text \<open>
  A failover: up to and including the demotion nothing becomes a primary; after an accepted
  demotion only the spec's primary can be one, and it may then become the current one.
\<close>

lemma failover_rest_run:
  assumes usable: "usable_spec (mc_Spec (os_mc \<sigma>))"
    and p: "filter (\<lambda>c. ct_Role c = ClusterRolePrimary) (sp_Clusters (mc_Spec (os_mc \<sigma>))) = [p]"
    and prim: "os_primaries \<sigma> \<subseteq> {object_key (os_mc \<sigma>) p}"
    and cp: "st_CurrentPrimary (mc_Status (os_mc \<sigma>)) \<noteq> []" "ct_Name p \<noteq> []"
    and es: "\<forall>e \<in> set es. promotes_only (object_key (os_mc \<sigma>) p) e \<and> (ev_client e \<noteq> None \<or> failover_tail mc2 p e)"
    and les: "prefix (map snd les) es"
  shows "op_inv (apply_events les \<sigma>)"
proof -
  let ?mc = "os_mc \<sigma>"
  define J where "J \<sigma>' \<longleftrightarrow> mc_Spec (os_mc \<sigma>') = mc_Spec ?mc \<and> os_primaries \<sigma>' \<subseteq> {object_key ?mc p} \<and>
    st_CurrentPrimary (mc_Status (os_mc \<sigma>')) \<noteq> []" for \<sigma>' :: operator_state
  have keep: "J (apply_event lost e \<sigma>')" if e: "e \<in> set es" and J: "J \<sigma>'" for lost e \<sigma>'
  proof -
    from es e have step: "promotes_only (object_key ?mc p) e" "ev_client e \<noteq> None \<or> failover_tail mc2 p e" by blast+
    then have "primaries_after e (os_primaries \<sigma>') \<subseteq> {object_key ?mc p}"
      using J promotes_only_insert unfolding J_def by blast
    with step(2) J cp(2) show ?thesis
      by (cases "(e, os_mc \<sigma>')" rule: mc_after.cases)
         (auto simp: J_def apply_event_def failover_tail_def patch_field_def)
  qed
  have "J \<sigma>" using prim cp(1) by (simp add: J_def)
  with keep have J: "J (apply_events les \<sigma>)" by (rule apply_events_keep [OF _ les])
  with usable p show ?thesis
    using object_key_spec [of "os_mc (apply_events les \<sigma>)" ?mc]
    by (intro op_invI [of _ p]) (auto simp: J_def)
qed

lemma demotes_primaries:
  assumes inv: "op_inv \<sigma>" and d: "demotes mc d" "\<not> ev_failed d"
    and same: "mc_Spec mc = mc_Spec (os_mc \<sigma>)" "st_CurrentPrimary (mc_Status mc) = st_CurrentPrimary (mc_Status (os_mc \<sigma>))"
    and p: "filter (\<lambda>c. ct_Role c = ClusterRolePrimary) (sp_Clusters (mc_Spec (os_mc \<sigma>))) = [p]"
  shows "primaries_after d (os_primaries \<sigma>) \<subseteq> {object_key (os_mc \<sigma>) p}"
proof -
  let ?mc = "os_mc \<sigma>"
  from p have "p \<in> set (filter (\<lambda>c. ct_Role c = ClusterRolePrimary) (sp_Clusters (mc_Spec ?mc)))" by simp
  then have mem: "p \<in> set (sp_Clusters (mc_Spec ?mc))" "ct_Role p = ClusterRolePrimary" by simp_all
  from inv obtain k where k: "os_primaries \<sigma> \<subseteq> {k}"
    "(\<forall>t \<in> set (sp_Clusters (mc_Spec ?mc)). ct_Role t = ClusterRolePrimary \<longrightarrow> object_key ?mc t = k) \<or>
     (\<forall>t \<in> set (sp_Clusters (mc_Spec ?mc)). ct_Name t = st_CurrentPrimary (mc_Status ?mc) \<longrightarrow> object_key ?mc t = k)"
    unfolding op_inv_def single_primary_def Let_def by blast
  from d(1) obtain c obj res t where d': "d = Call c (ApplyPostgresql obj) res" "obj_standby obj \<noteq> None"
      "obj_key obj = object_key mc t" and t: "t \<in> set (sp_Clusters (mc_Spec mc))" "ct_Name t = st_CurrentPrimary (mc_Status mc)"
    unfolding demotes_def by blast
  have key: "object_key mc t = object_key ?mc t" using same(1) by (rule object_key_spec)
  have after: "primaries_after d (os_primaries \<sigma>) = os_primaries \<sigma> - {object_key ?mc t}"
    using d' d(2) key by auto
  show ?thesis
  proof (cases "k = object_key ?mc t")
    case True
    with k(1) after show ?thesis by auto
  next
    case False
    with k(2) t same have "\<forall>t \<in> set (sp_Clusters (mc_Spec ?mc)). ct_Role t = ClusterRolePrimary \<longrightarrow> object_key ?mc t = k"
      by auto
    with mem have "object_key ?mc p = k" by blast
    with k(1) after show ?thesis by auto
  qed
qed

definition failover_start :: "PostgresMC \<Rightarrow> time \<Rightarrow> event list \<Rightarrow> bool" where
  "failover_start mc now es \<longleftrightarrow>
     (\<exists>t reason msg e. es = [Recorded t reason msg,
        TechCall (PatchMCStatus mc (failing_over (ensureClusterStatusRoles mc) now)) e])"

lemma runFailover_shape:
  assumes A: "named_answers A" "returns_patched A"
    and p: "filter (\<lambda>c. ct_Role c = ClusterRolePrimary) (sp_Clusters (mc_Spec mc)) = [p]"
    and differs: "ct_Name p \<noteq> st_CurrentPrimary (mc_Status mc)"
  shows "emits (runFailover A ttl (ensureClusterStatusRoles mc) mc) (\<lambda>r es. \<exists>now begins reads calls tail.
    es = begins @ reads @ calls @ tail \<and> failover_start mc now begins \<and> list_all kubeconfig_read reads \<and>
    failover_calls (failing_over (ensureClusterStatusRoles mc) now) p calls tail)"
proof -
  let ?ok = "\<lambda>mc2. filter (\<lambda>c. ct_Role c = ClusterRolePrimary) (sp_Clusters (mc_Spec mc2)) = [p] \<and>
    ct_Name p \<noteq> st_CurrentPrimary (mc_Status mc2)"
  have "emits (completeFailover A ttl mc2) (\<lambda>r es. ?ok mc2 \<longrightarrow>
      (\<exists>reads calls tail. es = reads @ calls @ tail \<and> list_all kubeconfig_read reads \<and> failover_calls mc2 p calls tail))" for mc2
  proof (cases "?ok mc2")
    case True
    then show ?thesis
      by (intro emits_mono [OF completeFailover_shape [OF A(1), of mc2 p]]) auto
  qed (auto intro: emits_mono [OF completeFailover_emits])
  then show ?thesis
  proof (rule runFailover_reduce, goal_cases)
    case (1 now e mc2 r es)
    from 1(1) [OF A(2)] have mc2: "mc2 = failing_over (ensureClusterStatusRoles mc) now" .
    with 1(2) p differs obtain reads calls tail where
      "es = reads @ calls @ tail" "list_all kubeconfig_read reads" "failover_calls mc2 p calls tail" by auto
    then have "failover_calls (failing_over (ensureClusterStatusRoles mc) now) p calls tail" by (simp only: mc2)
    moreover define begins where "begins = [Recorded ''Normal'' ReasonFailoverStarted
        (''failover from '' @ st_CurrentPrimary (mc_Status (ensureClusterStatusRoles mc)) @ '' to '' @
         primaryClusterName (ensureClusterStatusRoles mc)),
      TechCall (PatchMCStatus mc (failing_over (ensureClusterStatusRoles mc) now)) e]"
    moreover have "failover_start mc now begins" unfolding failover_start_def begins_def by blast
    ultimately show ?case
      using \<open>es = reads @ calls @ tail\<close> \<open>list_all kubeconfig_read reads\<close>
      by (intro exI [of _ now] exI [of _ begins] exI [of _ reads] exI [of _ calls] exI [of _ tail])
         (simp add: begins_def del: ensure_fields)
  qed
qed

lemma failing_over_count [simp]:
  "st_PrimaryFailureCount (mc_Status (failing_over mc now)) = st_PrimaryFailureCount (mc_Status mc)"
  by (simp add: failing_over_def Let_def)

lemma failover_run:
  assumes inv: "op_inv \<sigma>" and enters: "enters_failover (os_mc \<sigma>)"
    and p: "filter (\<lambda>c. ct_Role c = ClusterRolePrimary) (sp_Clusters (mc_Spec (os_mc \<sigma>))) = [p]" "ct_Name p \<noteq> []"
    and es: "es = begins @ reads @ calls @ tail" "failover_start (os_mc \<sigma>) now begins" "list_all kubeconfig_read reads"
      "failover_calls (failing_over (ensureClusterStatusRoles (os_mc \<sigma>)) now) p calls tail"
    and les: "prefix (map snd les) es"
  shows "op_inv (apply_events les \<sigma>)"
proof -
  let ?mc = "os_mc \<sigma>" and ?mc2 = "failing_over (ensureClusterStatusRoles (os_mc \<sigma>)) now"
  have calm: "\<forall>e \<in> set (begins @ reads). quiet ?mc e"
    using es(2,3) by (auto simp: failover_start_def quiet_def list_all_iff kubeconfig_read_iff)
  have demote: "quiet ?mc d" if "demotes ?mc2 d" for d
    using that by (auto simp: demotes_def quiet_def)
  consider "calls = []" "tail = []"
    | d rest where "calls = d # rest" "demotes ?mc2 d" "ev_failed d \<longrightarrow> rest = [] \<and> tail = []"
        "\<forall>e \<in> set rest. promotes_only (object_key ?mc2 p) e \<and> ev_client e \<noteq> None" "\<forall>e \<in> set tail. failover_tail ?mc2 p e"
    using es(4) unfolding failover_calls_def by blast
  then show ?thesis
  proof cases
    case 1
    with calm les show ?thesis by (intro quiet_run(2) [OF inv]) (auto simp: es(1))
  next
    case (2 d rest)
    note after = 2(3-5)
    have pre: "\<forall>e \<in> set ((begins @ reads) @ [d]). quiet ?mc e" using calm demote [OF 2(2)] by auto
    from les have "prefix (map snd les) (((begins @ reads) @ [d]) @ rest @ tail)" by (simp add: es(1) 2(1))
    then show ?thesis
    proof (cases rule: prefix_append_events)
      case 1
      then show ?thesis by (rule quiet_run(2) [OF inv pre])
    next
      case (2 les1 les2)
      from map_eq_append_conv [THEN iffD1, OF 2(2)] obtain l0 ld where
        l0': "les1 = l0 @ ld" "map snd l0 = begins @ reads" "map snd ld = [d]" by metis
      from l0'(3) obtain lost where "ld = [(lost, d)]" by (auto simp: map_eq_Cons_conv)
      with l0' have l0: "les1 = l0 @ [(lost, d)]" "map snd l0 = begins @ reads" by simp_all
      let ?\<sigma>0 = "apply_events l0 \<sigma>"
      have l0p: "prefix (map snd l0) (begins @ reads)" by (simp add: l0(2))
      note inv0 = quiet_run(2) [OF inv calm l0p] and view = quiet_run(1) [OF inv calm l0p]
      show ?thesis
      proof (cases "ev_failed d")
        case True
        with after(1) 2(3) have "les2 = []" by simp
        then have "prefix (map snd les) ((begins @ reads) @ [d])" by (simp add: 2(1,2))
        then show ?thesis by (rule quiet_run(2) [OF inv pre])
      next
        case False
        let ?\<sigma>1 = "apply_event lost d ?\<sigma>0"
        have spec: "mc_Spec (os_mc ?\<sigma>0) = mc_Spec ?mc"
          "st_CurrentPrimary (mc_Status (os_mc ?\<sigma>0)) = st_CurrentPrimary (mc_Status ?mc)"
          using view by (simp_all add: same_view_def)
        have mc1: "os_mc ?\<sigma>1 = os_mc ?\<sigma>0"
          using \<open>demotes ?mc2 d\<close> by (auto simp: apply_event_def demotes_def)
        have prim: "os_primaries ?\<sigma>1 \<subseteq> {object_key (os_mc ?\<sigma>1) p}"
          unfolding mc1
          using demotes_primaries [OF inv0 \<open>demotes ?mc2 d\<close> False, of p] spec p(1) by (simp add: apply_event_def)
        have keys: "object_key ?mc2 p = object_key (os_mc ?\<sigma>1) p"
          using spec(1) mc1 by (simp add: object_key_def)
        have rest: "\<forall>e \<in> set (rest @ tail). promotes_only (object_key (os_mc ?\<sigma>1) p) e \<and>
            (ev_client e \<noteq> None \<or> failover_tail ?mc2 p e)"
          using after(2,3) keys by (auto simp: failover_tail_def)
        have "op_inv (apply_events les2 ?\<sigma>1)"
          by (rule failover_rest_run [OF _ _ prim _ p(2) rest 2(3)])
             (use inv0 enters spec mc1 p(1) in \<open>auto simp: op_inv_def enters_failover_def\<close>)
        then show ?thesis by (simp add: 2(1) l0(1))
      qed
    qed
  qed
qed

text \<open>Every run of the operator on the stored resource keeps the invariant, however it is cut off.\<close>

lemma deletion_quiet: "footprint (handleDeletion A ttl mc) (quiet mc)"
proof -
  have "footprint (deletion_loop A ttl mc targets) (quiet mc)" for targets
    by (rule emits_mono [OF deletion_loop_promotes]) (auto simp: quiet_def)
  then show ?thesis
    unfolding handleDeletion_def Let_def
    apply (intro emits_if)
     apply (rule emits_return, simp)
    apply (rule emits_bind, rule emits_mono, assumption, intro emits_intro)
       apply (auto simp: quiet_def)
    done
qed

lemma auto_due_current:
  assumes inv: "op_inv \<sigma>" and due: "auto_failover_due True mc1" and spec: "mc_Spec mc1 = mc_Spec (os_mc \<sigma>)"
    and count: "st_PrimaryFailureCount (mc_Status mc1) = st_PrimaryFailureCount (mc_Status (os_mc \<sigma>)) + 1"
  shows "st_CurrentPrimary (mc_Status (os_mc \<sigma>)) \<noteq> []"
proof
  assume "st_CurrentPrimary (mc_Status (os_mc \<sigma>)) = []"
  with inv count have "st_PrimaryFailureCount (mc_Status mc1) = 1" by (simp add: op_inv_def)
  with due have "af_Enabled (sp_AutoFailover (mc_Spec mc1))" "sint (failure_threshold mc1) \<le> 1"
    by (simp_all add: auto_failover_due_def)
  moreover have "usable_spec (mc_Spec mc1)" using inv spec by (simp add: op_inv_def)
  ultimately show False
    by (auto simp: failure_threshold_def Let_def usable_spec_def split: if_splits)
qed

lemma reconcile_run:
  assumes A: "named_answers A" "returns_patched A" and inv: "op_inv \<sigma>"
    and s: "op_trace s = []" "prefix (map snd les) (op_trace (snd (run_state (reconcile A ttl (os_mc \<sigma>)) s)))"
  shows "op_inv (apply_events les \<sigma>)"
proof -
  let ?mc = "os_mc \<sigma>" and ?es = "op_trace (snd (run_state (reconcile A ttl (os_mc \<sigma>)) s))"
  have usable: "usable_spec (mc_Spec ?mc)" using inv by (simp add: op_inv_def)
  obtain p where p: "filter (\<lambda>c. ct_Role c = ClusterRolePrimary) (sp_Clusters (mc_Spec ?mc)) = [p]"
    and "p \<in> set (sp_Clusters (mc_Spec ?mc))" and name: "ct_Name p = primaryClusterName ?mc" "primaryClusterName ?mc \<noteq> []"
    and "\<forall>t \<in> set (sp_Clusters (mc_Spec ?mc)). ct_Role t = ClusterRolePrimary \<longrightarrow> t = p"
    and "\<forall>t \<in> set (sp_Clusters (mc_Spec ?mc)). ct_Name t = ct_Name p \<longrightarrow> t = p"
    by (rule usable_primary [OF usable])
  show ?thesis
  proof (cases "enters_failover ?mc")
    case True
    then have differs: "ct_Name p \<noteq> st_CurrentPrimary (mc_Status ?mc)" using name by (auto simp: enters_failover_def)
    from emits_trace [OF runFailover_shape [OF A p differs, of ttl] s(1), folded reconcile_failover [OF True]]
    obtain now begins reads calls tail where "?es = begins @ reads @ calls @ tail" "failover_start ?mc now begins"
      "list_all kubeconfig_read reads" "failover_calls (failing_over (ensureClusterStatusRoles ?mc) now) p calls tail"
      by blast
    from failover_run [OF inv True p _ this s(2)] name show ?thesis by simp
  next
    case False
    have valid: "valid_spec (sp_Clusters (mc_Spec ?mc))" using usable by (simp add: usable_spec_def)
    from emits_trace [OF reconcile_steps [OF False valid p, of A ttl] s(1)]
    consider mc1 where "auto_failover_due True mc1" "mc_Spec mc1 = mc_Spec ?mc"
        "st_PrimaryFailureCount (mc_Status mc1) = st_PrimaryFailureCount (mc_Status ?mc) + 1" "\<forall>e \<in> set ?es. auto_step ?mc e"
      | "\<forall>e \<in> set ?es. plain_step ?mc (object_key ?mc p) e" by blast
    then show ?thesis
    proof cases
      case 1
      from auto_run [OF inv False auto_due_current [OF inv 1(1-3)] 1(4) s(2)] show ?thesis .
    next
      case 2
      from plain_run [OF inv False p 2 s(2)] show ?thesis .
    qed
  qed
qed

lemma object_run:
  assumes A: "named_answers A" "returns_patched A" and inv: "op_inv \<sigma>"
    and s: "op_trace s = []" "prefix (map snd les) (op_trace (snd (run_state (Reconcile_object A ttl (os_mc \<sigma>)) s)))"
  shows "op_inv (apply_events les \<sigma>)"
proof -
  let ?mc = "os_mc \<sigma>"
  have valid: "validateSpec ?mc = None" using inv by (simp add: op_inv_def usable_spec_def validateSpec_None)
  consider "is_deleted ?mc" | "\<not> is_deleted ?mc" "\<not> containsFinalizer ?mc finalizerName"
    | "\<not> is_deleted ?mc" "containsFinalizer ?mc finalizerName" by blast
  then show ?thesis
  proof cases
    case 1
    then have op: "Reconcile_object A ttl ?mc = handleDeletion A ttl ?mc" by (simp add: Reconcile_object_def)
    from emits_trace [OF deletion_quiet s(1), of A ttl ?mc] show ?thesis
      using s(2) unfolding op by (intro quiet_run(2) [OF inv])
  next
    case 2
    have "footprint (Reconcile_object A ttl ?mc) (quiet ?mc)"
      using 2 unfolding Reconcile_object_def Let_def by (simp, intro emits_intro) (auto simp: quiet_def)
    from emits_trace [OF this s(1)] show ?thesis by (rule quiet_run(2) [OF inv _ s(2)])
  next
    case 3
    with valid have "Reconcile_object A ttl ?mc = reconcile A ttl ?mc" by (simp add: Reconcile_object_def)
    with s(2) reconcile_run [OF A inv s(1)] show ?thesis by simp
  qed
qed

section \<open>At most one primary\<close>

text \<open>An edit of the spec: what was the current primary keeps its object.\<close>

lemma edit_inv:
  assumes inv: "op_inv \<sigma>" and edit: "allowed_edit (os_mc \<sigma>) sp"
  shows "op_inv (\<sigma>\<lparr>os_mc := (os_mc \<sigma>)\<lparr>mc_Spec := sp, mc_Generation := g\<rparr>\<rparr>)"
proof (cases "settled (os_mc \<sigma>)")
  case True
  let ?mc = "os_mc \<sigma>"
  have usable: "usable_spec (mc_Spec ?mc)" using inv by (simp add: op_inv_def)
  obtain p where p: "filter (\<lambda>c. ct_Role c = ClusterRolePrimary) (sp_Clusters (mc_Spec ?mc)) = [p]"
    and mem: "p \<in> set (sp_Clusters (mc_Spec ?mc))" and name: "ct_Name p = primaryClusterName ?mc" "primaryClusterName ?mc \<noteq> []"
    by (rule usable_primary [OF usable])
  have cp: "st_CurrentPrimary (mc_Status ?mc) = ct_Name p" using True name by (simp add: settled_def)
  have "\<not> enters_failover ?mc" using True by (simp add: settled_def enters_failover_def)
  from stays_primaries [OF inv this p] have prim: "os_primaries \<sigma> \<subseteq> {object_key ?mc p}" .
  show ?thesis
    by (rule op_inv_currentI [where k = "object_key ?mc p"])
       (use edit True prim name cp mem in \<open>auto simp: allowed_edit_def object_key_def\<close>)
next
  case False
  with edit have "sp_Clusters sp = sp_Clusters (mc_Spec (os_mc \<sigma>))" "sp_TeamID sp = sp_TeamID (mc_Spec (os_mc \<sigma>))"
    "usable_spec sp"
    by (simp_all add: allowed_edit_def)
  with inv show ?thesis
    by (simp add: op_inv_def single_primary_def Let_def object_key_def)
qed

lemma op_step_inv:
  assumes "named_answers A" "returns_patched A" "op_step A ttl \<sigma> \<sigma>'" "op_inv \<sigma>"
  shows "op_inv \<sigma>'"
  using assms(3)
proof cases
  case (run s les)
  with object_run [OF assms(1,2,4)] show ?thesis by blast
next
  case (edit sp g)
  with edit_inv [OF assms(4)] show ?thesis by simp
next
  case (delete t)
  with assms(4) show ?thesis
    by (simp add: op_inv_def single_primary_def Let_def object_key_def)
qed

lemma reachable_inv:
  assumes "named_answers A" "returns_patched A" "reachable A ttl \<sigma>"
  shows "op_inv \<sigma>"
  using assms(3)
  by (induction rule: reachable.induct) (auto intro: initial_inv op_step_inv [OF assms(1,2)])


lemma apply_events_primaries: "os_primaries (apply_events les \<sigma>) = fold primaries_after (map snd les) (os_primaries \<sigma>)"
  by (induction les arbitrary: \<sigma>) (auto simp: apply_event_def)

text \<open>
  The first run on the sample resource, from nothing: afterwards the object of \<open>eu\<close> is the
  primary. The API server answers a get with the object that was asked for.
\<close>

definition keyed_api :: "mem_world api" where
  "keyed_api = echo_api\<lparr>api_get_postgresql := mem_get (\<lambda>w k. case mw_postgresqls w k of
     None \<Rightarrow> None | Some obj \<Rightarrow> if obj_key obj = pg_named (fst (snd k)) (snd (snd k)) then Some obj else None)\<rparr>"

lemma keyed_api_laws: "named_answers keyed_api" "returns_patched keyed_api"
  by (auto simp: named_answers_def returns_patched_def keyed_api_def echo_api_def mem_get_def split: if_splits option.splits)

lemma first_run_primaries:
  "fold primaries_after (op_trace (snd (run_state (Reconcile_object keyed_api registryTTL sample_mc) (mem_state healthy_world)))) {} =
     {pg_named ''pg'' ''app-eu''}"
  apply (simp add: keyed_api_def echo_api_def Reconcile_object_def is_deleted_def containsFinalizer_def finalizerName_def
      validateSpec_None [THEN iffD2] valid_spec_def tech_call_def mem_defs healthy_world_def sample_defs)
  apply (simp add: scenario_world_defs reconcile_def ensureClusterStatusRoles_def primaryClusterName_def
      zero_ClusterStatus_def GetClient_def atoi_short cache_key_def cache_store_def cache_hit_def
      cluster_condition_def count_failure_def auto_failover_due_def)
  apply (simp add: scenario_world_defs reconcile_clusters_def splitByRole_def Ensure_defs ClusterName_def
      ServiceName_def buildNodePortService_def isNodeReady_def updateClusterEndpoint_def format_endpoint_def)
  apply (simp add: scenario_world_defs primary_step_def reconcilePrimary_def BuildPrimary_def buildPostgresql_def
      ClusterName_def CredentialRoles_def SecretName_def setClusterReady_def obj_key_def)
  apply (simp add: scenario_world_defs standbys_step_def reconcileCredentials_def credential_plan_def
      credential_target_def SyncFromPrimary_def fetchCredentials_def ClusterName_def CredentialRoles_def
      SecretName_def applySecret_def rewriteClusterName_def buildTargetSecret_def HasErrors_def)
  apply (simp add: scenario_world_defs map_index_def reconcileStandby_def BuildStandby_def buildPostgresql_def
      EnsurePrimaryAlias_def ensureExternalName_def PrimaryAliasName_def externalname_service_def is_ip_def
      is_ipv4_def ClusterName_def setClusterReady_def)
  apply (simp add: scenario_world_defs final_status_def Aggregate_def ready_count_def obj_standby_def obj_spec_def
      standby_section_def PhaseReady_def PrimaryAliasFQDN_def PrimaryAliasName_def)
  apply (simp add: obj_key_def pg_named_def)
  done

definition first_state :: operator_state where
  "first_state = \<lparr>os_mc = sample_mc, os_primaries = {}\<rparr>"

end
