(* ===== verification/Progress.thy ===== *)
theory Progress
  imports Operator
begin

text \<open>
  What a pending failover needs to complete. Whatever state the operator and the servers are in,
  and whatever earlier runs have left behind, a failover whose clusters can be reached comes to an
  end with the new primary in the status unless a call was refused.
\<close>

section \<open>Refused calls\<close>

text \<open>
  A call that failed, apart from the answers that the operator expects: that an object is not
  there, and any answer to the read before a promotion.
\<close>

fun refused :: "event \<Rightarrow> bool" where
  "refused (Call c (GetPostgresql ns n) res) = False"
| "refused (Call c rq res) = (case res of None \<Rightarrow> False | Some e \<Rightarrow> is_write rq \<or> \<not> IsNotFound e)"
| "refused (TechCall rq res) = (res \<noteq> None)"
| "refused (Recorded t r m) = False"

lemma refused_writes [simp]: "is_write rq \<Longrightarrow> refused (Call c rq res) \<longleftrightarrow> res \<noteq> None"
  by (cases rq) (auto split: option.splits)

lemma refused_reads [simp]:
  "refused (Call c (GetService ns n) res) \<longleftrightarrow> (\<exists>e. res = Some e \<and> \<not> IsNotFound e)"
  "refused (Call c (GetEndpoints ns n) res) \<longleftrightarrow> (\<exists>e. res = Some e \<and> \<not> IsNotFound e)"
  "refused (Call c (GetPostgresql ns n) res) \<longleftrightarrow> False"
  by (cases res; simp)+

declare refused.simps(2-) [simp del]

lemma refused_others [simp]: "refused (TechCall rq res) \<longleftrightarrow> res \<noteq> None" "\<not> refused (Recorded t r m)"
  by (simp_all add: refused.simps)

section \<open>The orchestrator\<close>

lemma EnsurePrimaryAlias_progress: "emits (EnsurePrimaryAlias A plan) (\<lambda>r es. r = None \<or> list_ex refused es)"
  unfolding alias_op_defs Let_def by (intro emits_intro) (auto split: if_splits)

lemma apply_progress: "emits (applyUnstructured A (Some c) obj) (\<lambda>r es. r = Ok () \<or> list_ex refused es)"
  unfolding applyUnstructured_def by (simp, intro emits_intro) (auto split: sum.splits)

text \<open>A cluster that the failover can work on: it has a client.\<close>

definition has_client :: "ResolvedCluster \<Rightarrow> bool" where
  "has_client rc \<longleftrightarrow> frc_Client rc \<noteq> None"

text \<open>The blob can be built; whether it can does not depend on the cluster.\<close>

definition buildable :: "PostgresMC \<Rightarrow> bool" where
  "buildable mc \<longleftrightarrow> (\<exists>t obj. BuildPrimary mc t = Ok obj)"

lemma buildable_any:
  assumes "buildable mc"
  shows "\<exists>obj. BuildPrimary mc t = Ok obj" "\<exists>obj. BuildStandby mc t h p = Ok obj"
  using assms zalando.same_verdict unfolding buildable_def by metis+

lemma demoteCluster_progress:
  assumes "buildable mc" "has_client rc"
  shows "emits (demoteCluster A mc rc h p) (\<lambda>r es. r = Ok () \<or> list_ex refused es)"
proof -
  from buildable_any(2) [OF assms(1)] obtain obj where obj: "BuildStandby mc (frc_Target rc) h p = Ok obj" by blast
  from assms(2) obtain c where "frc_Client rc = Some c" by (auto simp: has_client_def)
  with obj apply_progress show ?thesis by (simp add: demoteCluster_def)
qed

lemma promoteCluster_progress:
  assumes "buildable mc" "has_client rc"
  shows "emits (promoteCluster A mc rc) (\<lambda>r es. r = Ok () \<or> list_ex refused es)"
proof -
  from buildable_any(1) [OF assms(1)] obtain obj where obj: "BuildPrimary mc (frc_Target rc) = Ok obj" by blast
  from assms(2) obtain c where c: "frc_Client rc = Some c" by (auto simp: has_client_def)
  show ?thesis
    unfolding promoteCluster_def obj c outcome.case option.case Let_def
    by (rule emits_bind, rule emits_workload_call, rule emits_case_sum, rule emits_mono [OF apply_progress],
        auto intro!: emits_intro split: sum.splits)
qed

lemma repoint_loop_progress:
  assumes "buildable mc" "list_all has_client ts"
  shows "emits (repoint_loop A mc h p ts) (\<lambda>r es. r = Ok () \<or> list_ex refused es)"
  using assms(2)
proof (induction ts)
  case (Cons t ts)
  have t: "has_client t" and ts: "list_all has_client ts" using Cons.prems by simp_all
  show ?case
    unfolding repoint_loop.simps repoint_demote
    by (rule emits_bind, rule emits_mono [OF demoteCluster_progress [OF assms(1) t]],
        intro emits_case_outcome emits_return emits_mono [OF Cons.IH [OF ts]]) auto
qed (simp add: emits_return)

lemma alias_loop_progress:
  assumes "list_all has_client ts"
  shows "emits (alias_loop A mc h p ts) (\<lambda>r es. r = Ok () \<or> list_ex refused es)"
  using assms
proof (induction ts)
  case (Cons t ts)
  then obtain c where c: "frc_Client t = Some c" by (auto simp: has_client_def)
  have ts: "list_all has_client ts" using Cons.prems by simp
  show ?case
    unfolding alias_loop.simps c option.case
    by (rule emits_bind, rule emits_mono [OF EnsurePrimaryAlias_progress],
        intro emits_case_option emits_return emits_mono [OF Cons.IH [OF ts]]) auto
qed (simp add: emits_return)

lemma Run_progress:
  assumes "buildable (pn_PostgresMC plan)" "has_client (pn_OldPrimary plan)" "has_client (pn_NewPrimary plan)"
    "list_all has_client (pn_OtherStandbys plan)" "frc_Host (pn_NewPrimary plan) \<noteq> []"
  shows "emits (Run A plan) (\<lambda>r es. r = Ok \<lparr>fr_NewPrimaryName = ct_Name (frc_Target (pn_NewPrimary plan))\<rparr> \<or> list_ex refused es)"
proof -
  have all: "list_all has_client (pn_OtherStandbys plan @ [pn_OldPrimary plan])" using assms by simp
  show ?thesis
    unfolding Run_def Let_def if_not_P [OF assms(5)]
    by (rule emits_bind, rule emits_mono [OF demoteCluster_progress [OF assms(1,2)]],
        intro emits_case_outcome emits_return emits_bind emits_mono [OF promoteCluster_progress [OF assms(1,3)]]
          emits_mono [OF repoint_loop_progress [OF assms(1,4)]] emits_mono [OF alias_loop_progress [OF all]]) auto
qed

section \<open>The whole failover\<close>

lemma failed_over_primary: "st_CurrentPrimary (mc_Status (failed_over mc n t1 t2)) = n"
  by (simp add: failed_over_def Let_def)

text \<open>A cluster for which a client can always be had.\<close>

definition cluster_up :: "'w api \<Rightarrow> time \<Rightarrow> string \<Rightarrow> ClusterTarget \<Rightarrow> bool" where
  "cluster_up A ttl ns target \<longleftrightarrow> (\<forall>s. \<exists>c. fst (run_state (GetClient A ttl target ns) s) = Inr c)"

lemma GetClient_up:
  assumes "cluster_up A ttl ns t"
  shows "emits (GetClient A ttl t ns) (\<lambda>r es. \<exists>c. r = Inr c)"
  unfolding emits_def
proof
  fix s
  from GetClient_read have "\<exists>es. op_trace (snd (run_state (GetClient A ttl t ns) s)) = op_trace s @ es"
    unfolding emits_def by blast
  with assms show "\<exists>es. op_trace (snd (run_state (GetClient A ttl t ns) s)) = op_trace s @ es \<and>
      (\<exists>c. fst (run_state (GetClient A ttl t ns) s) = Inr c)"
    unfolding cluster_up_def by blast
qed

lemma failover_targets_up:
  assumes "\<forall>t \<in> set targets. cluster_up A ttl (mc_Namespace mc) t"
  shows "emits (failover_targets A ttl mc targets sides) (\<lambda>r es. \<exists>s. r = Inr s)"
  using assms
proof (induction targets arbitrary: sides)
  case (Cons t ts)
  then have up: "cluster_up A ttl (mc_Namespace mc) t" by simp
  show ?case
    unfolding failover_targets.simps
    by (rule emits_bind, rule emits_mono [OF GetClient_up [OF up]], intro emits_case_sum emits_mono [OF Cons.IH])
       (use Cons.prems in auto)
qed (simp add: emits_return)

text \<open>The host by which the others will reach a cluster: the override or the discovered endpoint.\<close>

definition known_host :: "PostgresMC \<Rightarrow> ClusterTarget \<Rightarrow> bool" where
  "known_host mc t \<longleftrightarrow> ct_ExternalHost t \<noteq> [] \<or> ept_Host (clusterEndpointFromStatus mc (ct_Name t)) \<noteq> []"

lemma fold_place_clients:
  assumes "length cs = length ts" "list_all has_client (fs_others sides)"
    and "s = fold (place_cluster mc) (map2 (failover_cluster mc) ts cs) sides"
  shows "list_all has_client (fs_others s) \<and>
    (has_client (fs_oldPrimary sides) \<or> st_CurrentPrimary (mc_Status mc) \<in> ct_Name ` set ts \<longrightarrow> has_client (fs_oldPrimary s)) \<and>
    (fs_newPrimary s = fs_newPrimary sides \<or> (\<exists>c. \<exists>t \<in> set ts. fs_newPrimary s = failover_cluster mc t c))"
  using assms
proof (induction cs ts arbitrary: sides rule: list_induct2)
  case (Cons c cs t ts)
  have client: "has_client (failover_cluster mc t c)" by (simp add: has_client_def failover_cluster_def Let_def)
  have name: "ct_Name (frc_Target (failover_cluster mc t c)) = ct_Name t" by (simp add: failover_cluster_def Let_def)
  from Cons.prems client have "list_all has_client (fs_others (place_cluster mc (failover_cluster mc t c) sides))"
    by (simp add: place_cluster_def)
  with Cons.IH [of "place_cluster mc (failover_cluster mc t c) sides"] Cons.prems client name show ?case
    by (auto simp: place_cluster_def split: if_splits)
qed simp

lemma known_host_status:
  assumes "known_host mc t" "distinct (map ct_Name (sp_Clusters (mc_Spec mc)))"
  shows "frc_Host (failover_cluster (failing_over (ensureClusterStatusRoles mc) now) t c) \<noteq> []"
proof -
  have keep: "endpoint_loop (map (set_role ts) xs @ map new_entry ys) n = endpoint_loop xs n" for ts xs ys n
  proof (induction xs)
    case Nil
    show ?case by (induction ys) auto
  next
    case (Cons x xs)
    then show ?case by (simp add: Let_def cong: if_cong option.case_cong)
  qed
  then have "clusterEndpointFromStatus (failing_over (ensureClusterStatusRoles mc) now) n = clusterEndpointFromStatus mc n" for n
    by (simp add: clusterEndpointFromStatus_def ensureClusterStatusRoles_eq [OF assms(2)])
  with assms(1) show ?thesis by (simp add: known_host_def failover_cluster_def Let_def)
qed


text \<open>
  The sample resource with a moved primary role, on a technical cluster that always has the
  kubeconfigs: no call is refused in a run of the sample world.
\<close>

definition calm_api :: "mem_world api" where
  "calm_api = echo_api\<lparr>tech_get_secret := \<lambda>ns n w. (Inr (kubeconfig_secret n (if n = ''kc-eu'' then ''1'' else ''2'')), w)\<rparr>"

lemma calm_up: "cluster_up calm_api ttl ns t"
  by (simp add: cluster_up_def GetClient_def calm_api_def echo_api_def mem_api_def tech_call_def cache_read_def
      world_step_def clock_now_def cache_modify_def mem_new_client_def Let_def atoi_short kubeconfig_secret_def
      split: option.split)

lemma failover_mc_enters: "enters_failover failover_mc"
  by (simp add: enters_failover_def)

lemma calm_run: "\<not> list_ex refused (op_trace (snd (run_state (reconcile calm_api 1000 failover_mc) (mem_state sample_world))))"
  unfolding reconcile_failover [OF failover_mc_enters]
  apply (simp add: failover_run_defs failing_over_def calm_api_def ensureClusterStatusRoles_def zero_ClusterStatus_def)
  done


end
