(* ===== verification/Auto_Failover.thy ===== *)
theory Auto_Failover
  imports Quiescence Progress
begin

text \<open>
  The automatic failover over several reconciles: each round reads what the one before has
  stored, while the primary stays out of reach.
\<close>

section \<open>Rounds\<close>

text \<open>
  \<open>rounds n mc m\<close>: after \<open>n\<close> reconciles, from any states of operator and servers, each of the
  object that the one before has stored with its last call, the object is \<open>m\<close>.
\<close>

inductive rounds :: "'w api \<Rightarrow> time \<Rightarrow> nat \<Rightarrow> PostgresMC \<Rightarrow> PostgresMC \<Rightarrow> bool" for A ttl where
  none: "rounds A ttl 0 mc mc"
| more: "rounds A ttl n mc m \<Longrightarrow> run_state (reconcile A ttl m) s = (r, s') \<Longrightarrow>
    op_trace s' = op_trace s @ es @ [TechCall (PatchMCStatus m m') None] \<Longrightarrow> rounds A ttl (Suc n) mc m'"

inductive_cases rounds_SucE: "rounds A ttl (Suc n) mc m"

text \<open>The primary \<open>t\<close> of the spec is the one of the status, if that has one, and no client can be had for it.\<close>

definition primary_lost :: "'w api \<Rightarrow> time \<Rightarrow> ClusterTarget \<Rightarrow> PostgresMC \<Rightarrow> bool" where
  "primary_lost A ttl t mc \<longleftrightarrow> \<not> enters_failover mc \<and> valid_spec (sp_Clusters (mc_Spec mc)) \<and>
     t \<in> set (sp_Clusters (mc_Spec mc)) \<and> ct_Role t = ClusterRolePrimary \<and> cluster_down A ttl (mc_Namespace mc) t"

lemma primary_lost_counted: "primary_lost A ttl t mc \<Longrightarrow> counted mc b \<Longrightarrow> primary_lost A ttl t b"
  by (simp add: primary_lost_def counted_def enters_failover_def primaryClusterName_def)

lemma counted_threshold: "counted mc b \<Longrightarrow> failure_threshold b = failure_threshold mc"
  by (simp add: counted_def failure_threshold_def)

lemma rounds_count:
  assumes "rounds A ttl n mc m" "primary_lost A ttl t mc" "st_PrimaryFailureCount (mc_Status mc) = 0"
    and "int n < sint (failure_threshold mc)"
  shows "primary_lost A ttl t m \<and> st_PrimaryFailureCount (mc_Status m) = of_nat n \<and> mc_Spec m = mc_Spec mc \<and>
    mc_Namespace m = mc_Namespace mc"
  using assms
proof (induction rule: rounds.induct)
  case (more n mc m s r s' es m')
  then have IH: "primary_lost A ttl t m" "st_PrimaryFailureCount (mc_Status m) = of_nat n" "mc_Spec m = mc_Spec mc"
    "mc_Namespace m = mc_Namespace mc" by auto
  have "sint (of_nat (Suc n) :: int32) = int (Suc n)"
    using more.prems(3) sint_less [of "failure_threshold mc"] by (intro sint_of_nat) simp
  then have "\<not> sint (failure_threshold m) \<le> sint (st_PrimaryFailureCount (mc_Status m) + 1)"
    using more.prems(3) IH(2,3) by (simp add: failure_threshold_def add.commute)
  with lost_round [of m t A ttl] IH(1) have "emits (reconcile A ttl m) (\<lambda>r es.
      r = Panics \<and> list_all (\<lambda>e. status_patch e = None) es \<or>
      (\<exists>work b e. es = work @ [TechCall (PatchMCStatus m b) e] \<and> counted m b))"
    by (auto simp: primary_lost_def elim: emits_mono)
  from emits_run [OF this more.hyps(2)] more.hyps(3) have "counted m m'" by auto
  with IH primary_lost_counted [OF IH(1)] show ?case by (simp add: counted_def add.commute)
qed simp

section \<open>The last round\<close>

lemma resolve_loop_up:
  assumes "u \<in> set targets" "cluster_up A ttl ns u" "mc_Namespace (rv_mc rv) = ns"
  shows "emits (resolve_loop A ttl targets rv) (\<lambda>rv' es. \<exists>c. \<lparr>rcl_Target = u, rcl_Client = c\<rparr> \<in> set (rv_clients rv'))"
  using assms(1,3)
proof (induction targets arbitrary: rv)
  case (Cons target targets)
  have stays: "emits (resolve_loop A ttl targets rv) (\<lambda>rv' es. \<exists>c. \<lparr>rcl_Target = u, rcl_Client = c\<rparr> \<in> set (rv_clients rv'))"
    if "\<exists>c. \<lparr>rcl_Target = u, rcl_Client = c\<rparr> \<in> set (rv_clients rv)" for rv
    by (rule emits_mono [OF resolve_loop_emits [OF order_refl]]) (use that in auto)
  have ns: "mc_Namespace (setClusterReady mc n st r m now) = mc_Namespace mc"
    "mc_Namespace (cluster_condition mc n st r m now) = mc_Namespace mc" for mc n st r m now
    by (simp_all add: setClusterReady_def cluster_condition_def)
  show ?case
  proof (cases "target = u")
    case True
    then have up: "emits (GetClient A ttl target (mc_Namespace (rv_mc rv))) (\<lambda>r es. \<exists>c. r = Inr c)"
      using GetClient_up [OF assms(2)] Cons.prems(2) by simp
    show ?thesis
      unfolding resolve_loop.simps Let_def
      by (rule emits_bind, rule emits_mono [OF up], elim exE, simp only: sum.case, intro emits_intro stays)
         (simp add: True, blast)
  next
    case False
    with Cons.prems have IH: "emits (resolve_loop A ttl targets rv') (\<lambda>rv' es. \<exists>c. \<lparr>rcl_Target = u, rcl_Client = c\<rparr> \<in> set (rv_clients rv'))"
      if "mc_Namespace (rv_mc rv') = ns" for rv' using Cons.IH that by simp
    show ?thesis
      unfolding resolve_loop.simps Let_def
      by (rule emits_bind, rule emits_mono [OF GetClient_emits]) (auto intro!: emits_intro IH simp: ns Cons.prems)
  qed
qed simp

text \<open>The roles are rewritten by one spec patch to a valid spec with another primary than \<open>t\<close>.\<close>

definition promotes_other :: "ClusterTarget \<Rightarrow> event list \<Rightarrow> bool" where
  "promotes_other t es \<longleftrightarrow> (\<exists>ws a new e rest. es = ws @ [TechCall (PatchMC a (mc_set_SpecClusters new a)) e] @ rest \<and>
     list_all (\<lambda>e. \<not> spec_patch e) (ws @ rest) \<and> valid_spec new \<and> primaryName new \<noteq> ct_Name t \<and>
     map (\<lambda>c. c\<lparr>ct_Role := []\<rparr>) new = map (\<lambda>c. c\<lparr>ct_Role := []\<rparr>) (sp_Clusters (mc_Spec a)))"

lemma runAutoFailover_rewrites:
  assumes "first_standby rcs = Some rc" "distinct (map ct_Name (sp_Clusters (mc_Spec m)))"
    and "rcl_Target rc \<in> set (sp_Clusters (mc_Spec m))" "ct_Name (rcl_Target rc) \<noteq> ct_Name t"
    and "list_all (\<lambda>e. \<not> spec_patch e) ws"
  shows "emits (runAutoFailover A m orig rcs) (\<lambda>r es. promotes_other t (ws @ es))"
proof -
  note new = valid_promote_roles [OF assms(2) imageI [OF assms(3)]]
  have promotes: "promotes_other t (ws @ Recorded kind reason msg #
      TechCall (PatchMC m (mc_set_SpecClusters (promote_roles (ct_Name (rcl_Target rc)) (sp_Clusters (mc_Spec m))) m)) e # rest)"
    if "list_all (\<lambda>e. \<not> spec_patch e) rest" for kind reason msg e rest
    unfolding promotes_other_def using that assms(4,5) new
    by (intro exI [of _ "ws @ [Recorded kind reason msg]"] exI [of _ m]
        exI [of _ "promote_roles (ct_Name (rcl_Target rc)) (sp_Clusters (mc_Spec m))"] exI [of _ e] exI [of _ rest])
       (simp add: spec_patch_def promote_roles_def)
  show ?thesis
    unfolding runAutoFailover_def assms(1) option.case Let_def
    by (intro emits_intro; unfold append_Cons append_Nil; rule promotes) (simp_all add: spec_patch_def)
qed

lemma due_round:
  assumes lost: "primary_lost A ttl t mc"
    and due: "af_Enabled (sp_AutoFailover (mc_Spec mc))"
      "sint (failure_threshold mc) \<le> sint (st_PrimaryFailureCount (mc_Status mc) + 1)"
    and u: "u \<in> set (sp_Clusters (mc_Spec mc))" "ct_Role u = ClusterRoleStandby" "cluster_up A ttl (mc_Namespace mc) u"
  shows "emits (reconcile A ttl mc) (\<lambda>r es. promotes_other t es)"
proof -
  have stays: "\<not> enters_failover mc" and d: "distinct (map ct_Name (sp_Clusters (mc_Spec mc)))"
    and t: "t \<in> set (sp_Clusters (mc_Spec mc))" "ct_Role t = ClusterRolePrimary" "cluster_down A ttl (mc_Namespace mc) t"
    using lost by (simp_all add: primary_lost_def valid_spec_def)
  have ns: "mc_Namespace (rv_mc \<lparr>rv_mc = ensureClusterStatusRoles mc, rv_clients = [], rv_unreachable = [],
      rv_primaryUnreachable = False\<rparr>) = mc_Namespace mc" by simp
  show ?thesis
    unfolding reconcile_path [OF stays]
  proof (rule emits_bind, rule emits_mono [OF emits_conj [OF emits_conj [OF resolve_loop_emits [OF order_refl]
        resolve_loop_down [OF t(1,3,2) ns]] resolve_loop_up [OF u(1,3) ns]]], elim conjE exE, goal_cases)
    case (1 rv ws c outs)
    let ?mc1 = "count_failure (rv_primaryUnreachable rv) (rv_mc rv)"
    from 1 have mc1: "mc_Spec ?mc1 = mc_Spec mc"
      "st_PrimaryFailureCount (mc_Status ?mc1) = st_PrimaryFailureCount (mc_Status mc) + 1"
      by (simp_all add: status_step_fields)
    with 1 due have now: "auto_failover_due (rv_primaryUnreachable rv) ?mc1"
      by (simp add: auto_failover_due_def failure_threshold_def)
    have clients: "rcl_Target ` set (rv_clients rv) \<subseteq> set (sp_Clusters (mc_Spec mc))"
      using 1 reached_targets [of "sp_Clusters (mc_Spec mc)" outs] by simp
    have "first_standby (rv_clients rv) \<noteq> None"
      unfolding first_standby_def find_None_iff using 1 u(2) by fastforce
    then obtain rc where rc: "first_standby (rv_clients rv) = Some rc" by blast
    then have "rc \<in> set (rv_clients rv)" "ct_Role (rcl_Target rc) = ClusterRoleStandby"
      by (auto simp: first_standby_def find_Some_iff)
    with clients t(1,2) d have other: "ct_Name (rcl_Target rc) \<noteq> ct_Name t"
      by (metis distinct_map image_subset_iff inj_onD roles_distinct(1))
    have ws: "list_all (\<lambda>e. \<not> spec_patch e) ws" using 1 event_kinds(1) by (auto simp: list_all_iff)
    have "rcl_Target rc \<in> set (sp_Clusters (mc_Spec ?mc1))"
      using clients \<open>rc \<in> set (rv_clients rv)\<close> mc1(1) by auto
    from runAutoFailover_rewrites [OF rc _ this other ws] d mc1(1)
    have "emits (runAutoFailover A ?mc1 mc (rv_clients rv)) (\<lambda>r es. promotes_other t (ws @ es))" by simp
    with now show ?case by simp
  qed
qed

section \<open>Properties\<close>

text \<open>
  C10. The automatic failover starts in the round that reaches the threshold and in none before.
  Let it be enabled, the primary stay out of reach and a standby in reach, and let every round
  read the status that the one before has stored, starting with a count of zero. Then the first
  rounds up to the threshold leave the spec alone, and the round whose number is the threshold
  rewrites the roles by one spec patch to a valid spec with another primary.
\<close>

theorem auto_failover_at_threshold:
  assumes "primary_lost A ttl t mc" and "st_PrimaryFailureCount (mc_Status mc) = 0"
    and "af_Enabled (sp_AutoFailover (mc_Spec mc))"
    and "u \<in> set (sp_Clusters (mc_Spec mc))" "ct_Role u = ClusterRoleStandby" "cluster_up A ttl (mc_Namespace mc) u"
    and "rounds A ttl n mc m" and "int n < sint (failure_threshold mc)"
  shows "emits (reconcile A ttl m) (\<lambda>r es.
    if int n + 1 < sint (failure_threshold mc) then list_all (\<lambda>e. \<not> spec_patch e) es else promotes_other t es)"
proof -
  from rounds_count [OF assms(7,1,2,8)] have m: "primary_lost A ttl t m" "st_PrimaryFailureCount (mc_Status m) = of_nat n"
    "mc_Spec m = mc_Spec mc" "mc_Namespace m = mc_Namespace mc" by auto
  then have thr: "failure_threshold m = failure_threshold mc" by (simp add: failure_threshold_def)
  have "sint (of_nat (Suc n) :: int32) = int (Suc n)"
    using assms(8) sint_less [of "failure_threshold mc"] by (intro sint_of_nat) simp
  then have count: "sint (st_PrimaryFailureCount (mc_Status m) + 1) = int n + 1" using m(2) by (simp add: add.commute)
  show ?thesis
  proof (cases "int n + 1 < sint (failure_threshold mc)")
    case True
    with lost_round [of m t A ttl] m(1) count thr have "emits (reconcile A ttl m) (\<lambda>r es. list_all (\<lambda>e. \<not> spec_patch e) es)"
      by (auto simp: primary_lost_def elim: emits_mono)
    with True show ?thesis by simp
  next
    case False
    with due_round [OF m(1), of u] assms(3-6) m(3,4) count thr show ?thesis by simp
  qed
qed

text \<open>The sample clusters, the primary \<open>eu\<close> out of reach and the standby \<open>us\<close> in reach.\<close>

definition lost_api :: "mem_world api" where
  "lost_api = calm_api\<lparr>tech_get_secret := \<lambda>ns n w.
     if n = ''kc-eu'' then (Inl timeout_err, w) else (Inr (kubeconfig_secret n ''2''), w)\<rparr>"

definition threshold_mc :: "int32 \<Rightarrow> PostgresMC" where
  "threshold_mc n = failover_free_mc\<lparr>mc_Spec := (mc_Spec failover_free_mc)\<lparr>sp_AutoFailover :=
     \<lparr>af_Enabled = True, af_PrimaryUnreachableThreshold = n\<rparr>\<rparr>\<rparr>"

lemma threshold_mc_facts:
  "primary_lost lost_api ttl sample_eu (threshold_mc n)" "st_PrimaryFailureCount (mc_Status (threshold_mc n)) = 0"
  "af_Enabled (sp_AutoFailover (mc_Spec (threshold_mc n)))" "sample_us \<in> set (sp_Clusters (mc_Spec (threshold_mc n)))"
  "ct_Role sample_us = ClusterRoleStandby" "cluster_up lost_api ttl (mc_Namespace (threshold_mc n)) sample_us"
proof -
  have "cluster_down lost_api ttl ns sample_eu" for ns
    by (simp add: cluster_down_def GetClient_def lost_api_def tech_call_def Let_def sample_defs)
  then show "primary_lost lost_api ttl sample_eu (threshold_mc n)"
    by (simp add: primary_lost_def enters_failover_def primaryClusterName_def threshold_mc_def failover_free_mc_def
        valid_spec_def sample_defs)
  show "cluster_up lost_api ttl (mc_Namespace (threshold_mc n)) sample_us"
    by (simp add: cluster_up_def GetClient_def lost_api_def calm_api_def echo_api_def mem_api_def tech_call_def cache_read_def
        world_step_def clock_now_def cache_modify_def mem_new_client_def Let_def atoi_short sample_defs
        split: option.split)
qed (simp_all add: threshold_mc_def failover_free_mc_def sample_defs)

lemma lost_run:
  "\<exists>s' m. run_state (reconcile lost_api 1000 (threshold_mc 2)) (mem_state sample_world) =
     (Ok \<lparr>res_Requeue = False, res_RequeueAfter = requeueProgress\<rparr>, s') \<and>
     last (op_trace s') = TechCall (PatchMCStatus (threshold_mc 2) m) None \<and> op_trace s' \<noteq> []"
  apply (simp add: scenario_world_defs lost_api_def calm_api_def echo_api_def threshold_mc_def failover_free_mc_def
      reconcile_def ensureClusterStatusRoles_def primaryClusterName_def
      zero_ClusterStatus_def GetClient_def atoi_short cache_key_def cache_store_def cache_hit_def
      cluster_condition_def count_failure_def auto_failover_due_def failure_threshold_def setClusterReady_def)
  apply (simp add: scenario_world_defs reconcile_clusters_def splitByRole_def Ensure_defs ClusterName_def
      ServiceName_def buildNodePortService_def clusterEndpointFromStatus_def zero_clusterEndpoint_def
      primary_step_def standbys_step_def)
  done

lemma second_round: "\<exists>m. rounds lost_api 1000 1 (threshold_mc 2) m"
proof -
  from lost_run obtain s' m where run: "run_state (reconcile lost_api 1000 (threshold_mc 2)) (mem_state sample_world) =
      (Ok \<lparr>res_Requeue = False, res_RequeueAfter = requeueProgress\<rparr>, s')"
    and last: "last (op_trace s') = TechCall (PatchMCStatus (threshold_mc 2) m) None" "op_trace s' \<noteq> []" by blast
  from last have "op_trace s' = op_trace (mem_state sample_world) @ butlast (op_trace s') @
      [TechCall (PatchMCStatus (threshold_mc 2) m) None]"
    by (simp add: mem_state_trace flip: last(1))
  from rounds.more [OF rounds.none run this] show ?thesis by auto
qed

lemma auto_failover_at_threshold_witness:
  "list_all (\<lambda>e. \<not> spec_patch e) (op_trace (snd (run_state (reconcile lost_api 1000 (threshold_mc 2)) (mem_state sample_world)))) \<and>
   (\<exists>m. rounds lost_api 1000 1 (threshold_mc 2) m \<and>
      promotes_other sample_eu (op_trace (snd (run_state (reconcile lost_api 1000 m) (mem_state sample_world)))))"
proof -
  have thr: "failure_threshold (threshold_mc 2) = 2"
    by (simp add: failure_threshold_def threshold_mc_def)
  obtain m where m: "rounds lost_api 1000 1 (threshold_mc 2) m" using second_round by blast
  note at = auto_failover_at_threshold [OF threshold_mc_facts]
  from emits_trace [OF at [OF rounds.none] mem_state_trace [of sample_world]]
    emits_trace [OF at [OF m] mem_state_trace [of sample_world]] m
  show ?thesis by (auto simp: thr)
qed

end
