(* ===== verification/Confinement.thy ===== *)
theory Confinement
  imports Operator
begin

text \<open>
  What the operator touches on the workload clusters: every object that a reconcile of a resource
  creates, updates, patches or deletes has a namespace of one of the resource's clusters and a name
  that is made of the resource's or the cluster's name.
\<close>

section \<open>The objects of a resource\<close>

definition pg_name :: "PostgresMC \<Rightarrow> ClusterTarget \<Rightarrow> string" where
  "pg_name mc t = ClusterName (sp_TeamID (mc_Spec mc)) (ct_Name t)"

definition own_secret :: "PostgresMC \<Rightarrow> string \<Rightarrow> string \<Rightarrow> bool" where
  "own_secret mc ns n \<longleftrightarrow> (\<exists>t \<in> set (sp_Clusters (mc_Spec mc)). ns = ct_Namespace t \<and>
     (\<exists>role \<in> set CredentialRoles. n = SecretName role (pg_name mc t)))"

definition own_service :: "PostgresMC \<Rightarrow> string \<Rightarrow> string \<Rightarrow> bool" where
  "own_service mc ns n \<longleftrightarrow> ns \<in> ct_Namespace ` set (sp_Clusters (mc_Spec mc)) \<and>
     (n = ServiceName (mc_Name mc) \<or> n = PrimaryAliasName (mc_Name mc))"

definition own_endpoints :: "PostgresMC \<Rightarrow> string \<Rightarrow> string \<Rightarrow> bool" where
  "own_endpoints mc ns n \<longleftrightarrow> ns \<in> ct_Namespace ` set (sp_Clusters (mc_Spec mc)) \<and> n = PrimaryAliasName (mc_Name mc)"

definition own_postgresql :: "PostgresMC \<Rightarrow> pg_key \<Rightarrow> bool" where
  "own_postgresql mc k \<longleftrightarrow> k \<in> object_key mc ` set (sp_Clusters (mc_Spec mc))"

fun own_request :: "PostgresMC \<Rightarrow> request \<Rightarrow> bool" where
  "own_request mc (CreateSecret x) = own_secret mc (sec_Namespace x) (sec_Name x)"
| "own_request mc (UpdateSecret x) = own_secret mc (sec_Namespace x) (sec_Name x)"
| "own_request mc (CreateService x) = own_service mc (svc_Namespace x) (svc_Name x)"
| "own_request mc (UpdateService x) = own_service mc (svc_Namespace x) (svc_Name x)"
| "own_request mc (DeleteService ns n) = own_service mc ns n"
| "own_request mc (CreateEndpoints x) = own_endpoints mc (ep_Namespace x) (ep_Name x)"
| "own_request mc (UpdateEndpoints x) = own_endpoints mc (ep_Namespace x) (ep_Name x)"
| "own_request mc (ApplyPostgresql obj) = own_postgresql mc (obj_key obj)"
| "own_request mc (MergePatchPostgresql obj patch) = own_postgresql mc (obj_key obj)"
| "own_request mc (DeletePostgresql ns n) = own_postgresql mc (pg_named ns n)"
| "own_request mc _ = True"

definition own_event :: "PostgresMC \<Rightarrow> event \<Rightarrow> bool" where
  "own_event mc e = (case e of Call c rq res \<Rightarrow> own_request mc rq | _ \<Rightarrow> True)"

lemma own_event_simps [simp]:
  "own_event mc (Call c rq res) = own_request mc rq" "own_event mc (TechCall trq res)" "own_event mc (Recorded t r m)"
  by (simp_all add: own_event_def)

text \<open>API servers that answer a get with the object that was asked for.\<close>

definition gets_named :: "'w api \<Rightarrow> bool" where
  "gets_named A \<longleftrightarrow> named_answers A \<and>
     (\<forall>c ns n w x w'. api_get_service A c ns n w = (Inr x, w') \<longrightarrow> svc_Namespace x = ns \<and> svc_Name x = n) \<and>
     (\<forall>c ns n w x w'. api_get_endpoints A c ns n w = (Inr x, w') \<longrightarrow> ep_Namespace x = ns \<and> ep_Name x = n) \<and>
     (\<forall>c ns n w x w'. api_get_secret A c ns n w = (Inr x, w') \<longrightarrow> sec_Namespace x = ns \<and> sec_Name x = n)"

lemma gets_namedD:
  "gets_named A \<Longrightarrow> named_answers A"
  "gets_named A \<Longrightarrow> api_get_service A c ns n w = (Inr x, w') \<Longrightarrow> svc_Namespace x = ns \<and> svc_Name x = n"
  "gets_named A \<Longrightarrow> api_get_endpoints A c ns n w = (Inr y, w') \<Longrightarrow> ep_Namespace y = ns \<and> ep_Name y = n"
  "gets_named A \<Longrightarrow> api_get_secret A c ns n w = (Inr z, w') \<Longrightarrow> sec_Namespace z = ns \<and> sec_Name z = n"
  unfolding gets_named_def by blast+

text \<open>Only the name and the spec of the resource matter.\<close>

lemma own_event_cong:
  assumes "mc_Name mc' = mc_Name mc" "mc_Spec mc' = mc_Spec mc"
  shows "own_event mc' = own_event mc"
proof
  fix e
  have "own_request mc' rq = own_request mc rq" for rq
    using assms by (cases rq) (simp_all add: own_secret_def own_service_def own_endpoints_def own_postgresql_def
        pg_name_def object_key_def [abs_def])
  then show "own_event mc' e = own_event mc e" by (cases e) simp_all
qed

lemma own_read: "kubeconfig_read e \<Longrightarrow> own_event mc e"
  by (auto simp: kubeconfig_read_iff)

lemmas emits_answers = emits_workload_call_answer emits_bind emits_return emits_if emits_case_sum emits_case_option
  emits_case_outcome emits_case_prod

section \<open>The managers\<close>

lemma own_serviceI:
  "t \<in> set (sp_Clusters (mc_Spec mc)) \<Longrightarrow> own_service mc (ct_Namespace t) (ServiceName (mc_Name mc))"
  "t \<in> set (sp_Clusters (mc_Spec mc)) \<Longrightarrow> own_service mc (ct_Namespace t) (PrimaryAliasName (mc_Name mc))"
  "t \<in> set (sp_Clusters (mc_Spec mc)) \<Longrightarrow> own_endpoints mc (ct_Namespace t) (PrimaryAliasName (mc_Name mc))"
  by (auto simp: own_service_def own_endpoints_def)

lemma Ensure_own:
  assumes "gets_named A" "t \<in> set (sp_Clusters (mc_Spec mc))"
  shows "footprint (Ensure A c mc t) (own_event mc)"
  unfolding Ensure_defs Let_def
  by (intro emits_answers) (auto simp: own_serviceI [OF assms(2)] dest!: gets_namedD(2) [OF assms(1)])

lemma Delete_own:
  assumes "gets_named A" "t \<in> set (sp_Clusters (mc_Spec mc))"
  shows "footprint (Delete A c mc t) (own_event mc)"
  unfolding Delete_def
  by (intro emits_answers) (auto simp: own_serviceI [OF assms(2)] dest!: gets_namedD(2) [OF assms(1)])

lemma DeleteAlias_own:
  assumes "gets_named A" "t \<in> set (sp_Clusters (mc_Spec mc))"
  shows "footprint (DeleteAlias A c (ct_Namespace t) (mc_Name mc)) (own_event mc)"
  unfolding DeleteAlias_def Let_def
  by (intro emits_answers) (auto simp: own_serviceI [OF assms(2)] dest!: gets_namedD(2) [OF assms(1)])

lemma EnsurePrimaryAlias_own:
  assumes "gets_named A" "t \<in> set (sp_Clusters (mc_Spec mc))"
    and "al_PostgresMCName plan = mc_Name mc" "al_StandbyNS plan = ct_Namespace t"
  shows "footprint (EnsurePrimaryAlias A plan) (own_event mc)"
  unfolding alias_op_defs Let_def
  by (intro emits_answers)
    (auto simp: externalname_service_def headless_service_def alias_endpoints_def assms(3,4) own_serviceI [OF assms(2)]
      dest!: gets_namedD(2) [OF assms(1)] gets_namedD(3) [OF assms(1)])

text \<open>The credentials of the primary are written under the names of the standbys' credentials.\<close>

lemma applySecret_own:
  assumes "gets_named A" "own_secret mc (sec_Namespace secret) (sec_Name secret)"
  shows "footprint (applySecret A c secret) (own_event mc)"
  unfolding applySecret_def Let_def
  by (intro emits_answers) (auto simp: assms(2) dest!: gets_namedD(4) [OF assms(1)])

lemma syncToStandby_own:
  assumes "gets_named A" "t \<in> set (sp_Clusters (mc_Spec mc))"
    and "stb_Namespace standby = ct_Namespace t" "stb_ClusterName standby = pg_name mc t"
    and "\<forall>src \<in> set sources. \<exists>role \<in> set CredentialRoles. sec_Name src = SecretName role primary"
  shows "footprint (syncToStandby A sources name standby) (own_event mc)"
  using assms(5)
proof (induction sources)
  case (Cons src sources)
  then obtain role where role: "role \<in> set CredentialRoles" "sec_Name src = SecretName role primary" by auto
  then have "rewriteClusterName (sec_Name src) (pg_name mc t) = SecretName role (pg_name mc t)"
    using rewriteClusterName_SecretName [of primary "pg_name mc t"] by auto
  then have "own_secret mc (sec_Namespace (buildTargetSecret src (rewriteClusterName (sec_Name src) (stb_ClusterName standby))
      (stb_Namespace standby) name (stb_ClusterName standby))) (sec_Name (buildTargetSecret src
      (rewriteClusterName (sec_Name src) (stb_ClusterName standby)) (stb_Namespace standby) name (stb_ClusterName standby)))"
    using assms(2-4) role(1) by (auto simp: buildTargetSecret_def own_secret_def)
  from applySecret_own [OF assms(1) this] have one: "footprint (applySecret A (stb_Client standby)
      (buildTargetSecret src (rewriteClusterName (sec_Name src) (stb_ClusterName standby)) (stb_Namespace standby) name
        (stb_ClusterName standby))) (own_event mc)" .
  show ?case
    unfolding syncToStandby.simps Let_def
    by (rule emits_bind, rule emits_mono [OF one], intro emits_case_option emits_return emits_mono [OF Cons.IH]) (use Cons.prems in auto)
qed (simp add: emits_return)

lemma fetched_names:
  assumes "gets_named A"
  shows "emits (fetchCredentials_loop A c ns name roles out) (\<lambda>r es. (\<forall>e \<in> set es. own_event mc e) \<and>
    (case r of Inl e \<Rightarrow> True | Inr secrets \<Rightarrow>
       \<forall>src \<in> set secrets. src \<in> set out \<or> (\<exists>role \<in> set roles. sec_Name src = SecretName role name)))"
proof (induction roles arbitrary: out)
  case (Cons role roles)
  show ?case
    unfolding fetchCredentials_loop.simps Let_def
    by (intro emits_answers emits_mono [OF Cons.IH]) (fastforce split: sum.splits dest!: gets_namedD(4) [OF assms])+
qed (simp add: emits_return)

lemma SyncFromPrimary_own:
  assumes A: "gets_named A" and primary: "rcl_Target p \<in> set (sp_Clusters (mc_Spec mc))"
    and standbys: "rcl_Target ` set sts \<subseteq> set (sp_Clusters (mc_Spec mc))"
  shows "footprint (reconcileCredentials A mc p sts) (own_event mc)"
proof -
  have loop: "footprint (SyncFromPrimary_loop A sources name (map (credential_target mc) sts) result) (own_event mc)"
    if "\<forall>src \<in> set sources. \<exists>role \<in> set CredentialRoles. sec_Name src = SecretName role primary"
    for sources name result primary
    using standbys
  proof (induction sts arbitrary: result)
    case (Cons s sts)
    have "footprint (syncToStandby A sources name (credential_target mc s)) (own_event mc)"
      by (rule syncToStandby_own [OF A _ _ _ that, of "rcl_Target s"])
        (use Cons.prems in \<open>auto simp: credential_target_def pg_name_def\<close>)
    with Cons show ?case by (auto intro!: footprint_bind)
  qed (simp add: emits_return)
  have events: "footprint (sync_events_loop entries) (own_event mc)" for entries
    by (induction entries) (auto intro!: footprint_intro split: prod.split)
  have sync: "footprint (SyncFromPrimary A (credential_plan mc p sts)) (own_event mc)"
    unfolding SyncFromPrimary_def fetchCredentials_def
  proof (rule emits_bind, rule emits_mono [OF fetched_names [where mc = mc, OF A]], rule emits_case_sum, goal_cases)
    case (1 r es e)
    then show ?case by (intro emits_return) simp
  next
    case (2 r es secrets)
    then have "\<forall>src \<in> set secrets. \<exists>role \<in> set CredentialRoles. sec_Name src = SecretName role (pl_ClusterName (credential_plan mc p sts))"
      by simp
    note each = loop [OF this, of "mc_Name mc" "\<lparr>sr_PerCluster = []\<rparr>"]
    have "footprint (SyncFromPrimary_loop A secrets (pl_PostgresMCName (credential_plan mc p sts))
        (pl_Standbys (credential_plan mc p sts)) \<lparr>sr_PerCluster = []\<rparr>) (own_event mc)"
      using each by (simp add: credential_plan_def)
    from this show ?case
      by (intro emits_bind, rule emits_mono, intro emits_return) (use 2 in auto)
  qed
  show ?thesis
    unfolding reconcileCredentials_def
    by (intro footprint_bind [OF sync] footprint_intro events) simp_all
qed

section \<open>The steps of a reconcile\<close>

lemma own_object: "t \<in> set (sp_Clusters (mc_Spec mc)) \<Longrightarrow> own_postgresql mc (object_key mc t)"
  by (simp add: own_postgresql_def)

lemma reconcilePrimary_own:
  assumes "rcl_Target p \<in> set (sp_Clusters (mc_Spec mc))"
  shows "footprint (reconcilePrimary A mc p) (own_event mc)"
proof -
  have loop: "footprint (credentials_loop A c ns n roles) (own_event mc)" for c ns n roles
    by (induction roles) (auto intro!: footprint_intro simp: Let_def)
  show ?thesis
    unfolding reconcilePrimary_def Let_def
    by (intro footprint_intro loop) (simp_all add: BuildPrimary_object_key own_object [OF assms])
qed

lemma reconcileStandby_own:
  assumes "gets_named A" "rcl_Target s \<in> set (sp_Clusters (mc_Spec mc))"
  shows "footprint (reconcileStandby A mc ep s) (own_event mc)"
  unfolding reconcileStandby_def Let_def
  by (intro footprint_intro EnsurePrimaryAlias_own [OF assms])
    (simp_all add: BuildStandby_object_key own_object [OF assms(2)])

text \<open>The steps run on a resource whose status has changed, with the same name and spec.\<close>

definition same_resource :: "PostgresMC \<Rightarrow> PostgresMC \<Rightarrow> bool" where
  "same_resource mc mc' \<longleftrightarrow> mc_Name mc' = mc_Name mc \<and> mc_Spec mc' = mc_Spec mc"

lemma same_resource_event: "same_resource mc mc' \<Longrightarrow> own_event mc' = own_event mc"
  unfolding same_resource_def by (blast intro: own_event_cong)

lemma same_resource_spec: "same_resource mc mc' \<Longrightarrow> mc_Spec mc' = mc_Spec mc"
  by (simp add: same_resource_def)

lemma status_step_same: "status_step T mc mc' \<Longrightarrow> same_resource mc mc'"
  by (simp add: same_resource_def status_step_fields)

lemma same_resource_simps [simp]:
  "same_resource mc mc" "same_resource mc (setClusterReady mc' n st r m now) = same_resource mc mc'"
  "same_resource mc (updateClusterEndpoint mc' n e) = same_resource mc mc'"
  "same_resource mc (count_failure pu mc') = same_resource mc mc'"
  by (simp_all add: same_resource_def count_failure_def setClusterReady_def updateClusterEndpoint_def)

lemma ensure_loop_own:
  assumes "gets_named A" "rcl_Target ` set rcs \<subseteq> set (sp_Clusters (mc_Spec mc))" "same_resource mc mc'"
  shows "emits (ensure_loop A rcs mc' d requeue) (\<lambda>(mc2, d2, r2) es. same_resource mc mc2 \<and> (\<forall>e \<in> set es. own_event mc e))"
  using assms(2,3)
proof (induction rcs arbitrary: mc' d requeue)
  case (Cons rc rcs)
  have "footprint (Ensure A (rcl_Client rc) mc' (rcl_Target rc)) (own_event mc')"
    by (rule Ensure_own [OF assms(1)]) (use Cons.prems in \<open>simp add: same_resource_spec\<close>)
  with Cons.prems have one: "footprint (Ensure A (rcl_Client rc) mc' (rcl_Target rc)) (own_event mc)"
    by (simp add: same_resource_event)
  show ?case
    unfolding ensure_loop.simps Let_def
    by (rule emits_bind, rule emits_mono [OF one], intro emits_case_sum emits_case_prod emits_mono [OF Cons.IH])
      (use Cons.prems in auto)
qed (simp add: emits_return)

lemma primary_step_own:
  assumes "\<And>p. primary = Some p \<Longrightarrow> rcl_Target p \<in> set (sp_Clusters (mc_Spec mc))" "same_resource mc mc'"
  shows "emits (primary_step A mc' primary requeue) (\<lambda>r es. (\<forall>e \<in> set es. own_event mc e) \<and>
    (\<forall>mc2 ready rq. r = Ok (mc2, ready, rq) \<longrightarrow> same_resource mc mc2))"
proof (cases primary)
  case (Some p)
  with assms have "footprint (reconcilePrimary A mc' p) (own_event mc')"
    by (intro reconcilePrimary_own) (simp add: same_resource_spec)
  then have one: "footprint (reconcilePrimary A mc' p) (own_event mc)" using assms(2) by (simp add: same_resource_event)
  show ?thesis
    unfolding primary_step_def Some option.case
    by (rule emits_bind, rule emits_mono [OF one], intro emits_intro) (use assms(2) in auto)
qed (use assms(2) in \<open>simp add: primary_step_def emits_return\<close>)

lemma standbys_step_own:
  assumes A: "gets_named A" and primary: "\<And>p. primary = Some p \<Longrightarrow> rcl_Target p \<in> set (sp_Clusters (mc_Spec mc))"
    and standbys: "rcl_Target ` set standbys \<subseteq> set (sp_Clusters (mc_Spec mc))" and "same_resource mc mc'"
  shows "footprint (standbys_step A mc' primary ready ep standbys requeue) (own_event mc)"
proof -
  have one: "footprint (reconcileStandby A mc1 ep s) (own_event mc)"
    if "s \<in> set standbys" "same_resource mc mc1" for s mc1
  proof -
    have "rcl_Target s \<in> set (sp_Clusters (mc_Spec mc1))"
      using that standbys by (auto simp: same_resource_spec)
    from reconcileStandby_own [OF A this] show ?thesis by (simp add: same_resource_event [OF that(2)])
  qed
  have loop: "footprint (standbys_loop A ep sts mc1) (own_event mc)"
    if "set sts \<subseteq> set standbys" "same_resource mc mc1" for sts mc1
    using that
  proof (induction sts arbitrary: mc1)
    case (Cons s sts)
    show ?case
      unfolding standbys_loop.simps
      by (intro footprint_intro one Cons.IH) (use Cons.prems in auto)
  qed (simp add: emits_return)
  have creds: "footprint (reconcileCredentials A mc' p standbys) (own_event mc)" if "primary = Some p" for p
    using SyncFromPrimary_own [OF A, of p mc' standbys] primary [OF that] standbys \<open>same_resource mc mc'\<close>
    by (simp add: same_resource_event same_resource_spec)
  show ?thesis
    unfolding standbys_step_def
    by (intro footprint_intro creds loop) (use \<open>same_resource mc mc'\<close> in auto)
qed

section \<open>A reconcile of the clusters\<close>

lemma reconcile_clusters_own:
  assumes A: "gets_named A" and rcs: "rcl_Target ` set rcs \<subseteq> set (sp_Clusters (mc_Spec mc))"
    and same: "same_resource mc mc'"
  shows "footprint (reconcile_clusters A mc' orig sp rcs unr) (own_event mc)"
proof -
  obtain primary standbys where split: "splitByRole rcs = (primary, standbys)" by fastforce
  have members: "rcl_Target p \<in> set (sp_Clusters (mc_Spec mc))" if "primary = Some p" for p
    using splitByRole_primary [of rcs p] that split rcs by auto
  have others: "rcl_Target ` set standbys \<subseteq> set (sp_Clusters (mc_Spec mc))"
    using splitByRole_standbys [of rcs] split rcs by auto
  show ?thesis
    unfolding reconcile_clusters_def split prod.case Let_def
    apply (rule emits_bind, rule emits_mono [OF ensure_loop_own [OF A rcs same]], (rule emits_case_prod)+)
    apply (rule emits_bind, rule emits_mono [OF primary_step_own [OF members]], assumption, simp)
    apply (rule emits_case_outcome)
      apply ((rule emits_case_prod)+, rule emits_bind, rule emits_mono [OF standbys_step_own [OF A members others]], assumption, simp)
      apply (rule emits_case_outcome)
        apply (rule emits_case_prod, intro emits_bind emits_now emits_tech_call emits_case_sum emits_return)
         apply (auto intro!: emits_return)
    done
qed

section \<open>A failover\<close>

text \<open>A cluster that the failover has placed, with its client, is a cluster of the spec.\<close>

definition placed :: "PostgresMC \<Rightarrow> ResolvedCluster \<Rightarrow> bool" where
  "placed mc rc \<longleftrightarrow> (frc_Client rc \<noteq> None \<longrightarrow> frc_Target rc \<in> set (sp_Clusters (mc_Spec mc)))"

lemma apply_own:
  assumes "placed mc rc" "obj_key obj = object_key mc (frc_Target rc)"
  shows "footprint (applyUnstructured A (frc_Client rc) obj) (own_event mc)"
  using assms unfolding applyUnstructured_def placed_def by (intro footprint_intro) (auto simp: own_object)

lemma demoteCluster_own: "placed mc rc \<Longrightarrow> footprint (demoteCluster A mc rc h p) (own_event mc)"
  unfolding demoteCluster_def by (intro footprint_intro apply_own) (simp_all add: BuildStandby_object_key)

lemma promoteCluster_own:
  assumes "gets_named A" "placed mc rc"
  shows "footprint (promoteCluster A mc rc) (own_event mc)"
proof (cases "frc_Client rc")
  case None
  then show ?thesis unfolding promoteCluster_def by (intro footprint_intro) simp_all
next
  case (Some c)
  with assms(2) have own: "own_postgresql mc (object_key mc (frc_Target rc))" by (simp add: placed_def own_object)
  show ?thesis
    unfolding promoteCluster_def Some option.case Let_def applyUnstructured_def
    by (intro emits_answers)
      (auto simp: BuildPrimary_object_key own own [unfolded object_key_def] dest!: named_answersD [OF gets_namedD(1) [OF assms(1)]])
qed

lemma repoint_loop_own: "list_all (placed mc) ts \<Longrightarrow> footprint (repoint_loop A mc h p ts) (own_event mc)"
proof (induction ts)
  case (Cons t ts)
  then show ?case
    unfolding repoint_loop.simps repoint_demote by (intro footprint_intro demoteCluster_own Cons.IH) auto
qed (simp add: emits_return)

lemma alias_loop_own:
  assumes "gets_named A" "list_all (placed mc) ts"
  shows "footprint (alias_loop A mc h p ts) (own_event mc)"
  using assms(2)
proof (induction ts)
  case (Cons t ts)
  then show ?case
    unfolding alias_loop.simps
    by (intro footprint_intro EnsurePrimaryAlias_own [OF assms(1), of "frc_Target t"] Cons.IH) (auto simp: placed_def)
qed (simp add: emits_return)

lemma Run_own:
  assumes "gets_named A" "placed mc (pn_OldPrimary plan)" "placed mc (pn_NewPrimary plan)"
    "list_all (placed mc) (pn_OtherStandbys plan)" "pn_PostgresMC plan = mc"
  shows "footprint (Run A plan) (own_event mc)"
  unfolding Run_def Let_def assms(5)
  by (intro footprint_intro demoteCluster_own promoteCluster_own repoint_loop_own alias_loop_own) (use assms in auto)

lemma completeFailover_own:
  assumes "gets_named A"
  shows "footprint (completeFailover A ttl mc) (own_event mc)"
proof -
  have targets: "emits (failover_targets A ttl mc targets sides) (\<lambda>r es. (\<forall>e \<in> set es. own_event mc e) \<and>
      (\<forall>sides. r = Inr sides \<longrightarrow> placed mc (fs_oldPrimary sides) \<and> placed mc (fs_newPrimary sides) \<and>
         list_all (placed mc) (fs_others sides)))"
    if "set targets \<subseteq> set (sp_Clusters (mc_Spec mc))" "placed mc (fs_oldPrimary sides)" "placed mc (fs_newPrimary sides)"
      "list_all (placed mc) (fs_others sides)" for targets sides
    using that
  proof (induction targets arbitrary: sides)
    case (Cons t ts)
    have place: "placed mc (failover_cluster mc t c)" for c
      using Cons.prems by (simp add: placed_def failover_cluster_def Let_def)
    have get: "footprint (GetClient A ttl t ns) (own_event mc)" for ns
      by (rule emits_mono [OF GetClient_read]) (auto simp: own_read)
    show ?case
      unfolding failover_targets.simps
      apply (rule emits_bind, rule emits_mono [OF get], rule emits_case_sum, rule emits_return, simp)
      apply (rule emits_mono [OF Cons.IH])
          apply (use Cons.prems place in \<open>auto simp: place_cluster_def\<close>)
      done
  qed (simp add: emits_return)
  have start: "placed mc (fs_oldPrimary no_sides)" "placed mc (fs_newPrimary no_sides)" "list_all (placed mc) (fs_others no_sides)"
    by (simp_all add: no_sides_def placed_def zero_ResolvedCluster_def)
  show ?thesis
    unfolding completeFailover_def Let_def
    apply (rule emits_bind, rule emits_mono [OF targets [OF subset_refl start]], rule emits_case_sum, rule emits_return, simp)
    apply (rule emits_bind, rule emits_mono [OF Run_own [OF assms, of mc]])
        apply (auto simp: failover_plan_def intro!: footprint_intro)
    done
qed

section \<open>Deletion and the whole reconcile\<close>

lemma deletion_loop_own:
  assumes "gets_named A" "set targets \<subseteq> set (sp_Clusters (mc_Spec mc))"
  shows "footprint (deletion_loop A ttl mc targets) (own_event mc)"
  using assms(2)
proof (induction targets)
  case (Cons t ts)
  then have t: "t \<in> set (sp_Clusters (mc_Spec mc))" by simp
  have get: "footprint (GetClient A ttl t ns) (own_event mc)" for ns
    by (rule emits_mono [OF GetClient_read]) (auto simp: own_read)
  have object: "footprint (deletePostgresql A mc t c) (own_event mc)" for c
    unfolding deletePostgresql_def Let_def
    by (intro footprint_intro) (use own_object [OF t] in \<open>simp_all add: object_key_def\<close>)
  show ?case
    unfolding deletion_loop.simps deleteOnCluster_def
    by (intro footprint_bind [OF get] footprint_intro object Delete_own [OF assms(1) t] DeleteAlias_own [OF assms(1) t] Cons.IH)
      (use Cons.prems in auto)
qed (simp add: emits_return)

lemma reconcile_own:
  assumes A: "gets_named A" "returns_patched A"
  shows "footprint (reconcile A ttl mc) (own_event mc)"
proof -
  let ?mc = "ensureClusterStatusRoles mc"
  have same: "same_resource mc ?mc" by (simp add: same_resource_def ensure_fields)
  have failover: "footprint (runFailover A ttl ?mc mc) (own_event mc)"
  proof (rule runFailover_reduce [OF completeFailover_own [OF A(1)]])
    fix now e mc2 es assume mc2: "returns_patched A \<Longrightarrow> mc2 = failing_over ?mc now" and es: "\<forall>e \<in> set es. own_event mc2 e"
    have "same_resource mc (failing_over ?mc now)"
      using same by (simp add: same_resource_def failing_over_def Let_def)
    with mc2 [OF A(2)] have "own_event mc2 = own_event mc" by (simp only: same_resource_event)
    with es show "\<forall>e \<in> set (Recorded ''Normal'' ReasonFailoverStarted
        (''failover from '' @ st_CurrentPrimary (mc_Status ?mc) @ '' to '' @ primaryClusterName ?mc) #
        TechCall (PatchMCStatus mc (failing_over ?mc now)) e # es). own_event mc e" by simp
  qed
  have auto: "footprint (runAutoFailover A mc1 mc rcs) (own_event mc)" for mc1 rcs
    unfolding runAutoFailover_def Let_def by (intro footprint_intro) auto
  have clusters: "emits (resolve_loop A ttl (sp_Clusters (mc_Spec ?mc))
      \<lparr>rv_mc = ?mc, rv_clients = [], rv_unreachable = [], rv_primaryUnreachable = False\<rparr>)
      (\<lambda>rv es. (\<forall>e \<in> set es. own_event mc e) \<and> same_resource mc (rv_mc rv) \<and>
         rcl_Target ` set (rv_clients rv) \<subseteq> set (sp_Clusters (mc_Spec mc)))"
  proof (rule emits_mono [OF resolve_loop_emits [OF order_refl]], elim conjE exE, goal_cases)
    case (1 rv es outs)
    then have "\<forall>e \<in> set es. own_event mc e"
      by (auto simp: list_all_iff resolve_event_def unreachable_warning_def own_read)
    with 1 reached_targets [of "sp_Clusters (mc_Spec ?mc)" outs] same show ?case
      by (auto simp: same_resource_def status_step_fields)
  qed
  show ?thesis
    unfolding reconcile_def Let_def
    apply (rule emits_if, rule failover)
    apply (rule emits_bind, rule emits_mono [OF clusters], rule emits_if)
     apply (rule emits_mono [OF auto], fastforce)
    apply (elim conjE, rule emits_mono [OF reconcile_clusters_own [OF A(1)]])
      apply (assumption, simp, simp add: ball_Un)
    done
qed

text \<open>
  C8. What a reconcile may touch on the workload clusters. On API servers that answer a get with
  the object asked for, every workload request that \<open>Reconcile\<close> makes for a stored resource, on
  every path and with every answer, and that creates, updates, patches, applies or deletes an
  object, is for an object of the resource: in the namespace of one of the clusters of the spec, a
  Service named after the replication Service or the alias, Endpoints named after the alias, a
  postgresql object of a cluster of the spec, or a credential Secret of such a cluster. No other
  object of a workload cluster is ever written.
\<close>

theorem Reconcile_object_confined:
  assumes "gets_named A" "returns_patched A"
  shows "emits (Reconcile_object A ttl mc) (\<lambda>r es. \<forall>c rq res. Call c rq res \<in> set es \<longrightarrow> own_request mc rq)"
proof -
  have del: "footprint (handleDeletion A ttl mc) (own_event mc)"
    unfolding handleDeletion_def Let_def
    by (intro footprint_bind [OF deletion_loop_own [OF assms(1)]] footprint_intro) auto
  have "footprint (Reconcile_object A ttl mc) (own_event mc)"
    unfolding Reconcile_object_def Let_def
    by (intro emits_if del footprint_intro reconcile_own assms) simp_all
  then show ?thesis by (rule emits_mono) fastforce
qed

lemma keyed_api_named: "gets_named keyed_api"
  by (auto simp: gets_named_def keyed_api_laws(1)) (auto simp: keyed_api_def echo_api_def mem_api_def mem_get_def view_services_def
      view_endpoints_def view_secrets_def keyed_def split: if_splits option.splits)

lemma Reconcile_object_confined_witness:
  "filter (\<lambda>e. \<not> own_event sample_mc e)
     (op_trace (snd (run_state (Reconcile_object keyed_api registryTTL sample_mc) (mem_state healthy_world)))) = []"
  using emits_trace [OF Reconcile_object_confined [OF keyed_api_named keyed_api_laws(2), of registryTTL sample_mc]
      mem_state_trace [of healthy_world]]
  by (auto simp: filter_empty_conv own_event_def split: event.splits)

end
