(* ===== verification/Schema.thy ===== *)
theory Schema
  imports Operator
begin

text \<open>
  The schema of the custom resource (\<open>config/crd/bases/pgmc.aurelops.com_postgresmcs.yaml\<close>, generated
  from the markers of \<open>postgresmc_types.go\<close>) as a predicate on resources, and what the operator
  sends to the technical cluster measured against it. The predicate speaks of the object as Go
  encodes it: a field with \<open>omitempty\<close> is left out when it is zero and then satisfies the schema,
  while \<open>replicationService\<close> is a struct and is always encoded, with its \<open>type\<close>. The maximal length
  of a condition's message is not part of it.
\<close>

section \<open>The schema\<close>

definition is_lower :: "char \<Rightarrow> bool" where
  "is_lower c \<longleftrightarrow> c \<in> set ''abcdefghijklmnopqrstuvwxyz''"

definition is_upper :: "char \<Rightarrow> bool" where
  "is_upper c \<longleftrightarrow> c \<in> set ''ABCDEFGHIJKLMNOPQRSTUVWXYZ''"

definition is_number :: "char \<Rightarrow> bool" where
  "is_number c \<longleftrightarrow> c \<in> set ''0123456789''"

text \<open>\<open>^[a-z0-9]([-a-z0-9]*[a-z0-9])?$\<close>\<close>

definition label_pattern :: "string \<Rightarrow> bool" where
  "label_pattern s \<longleftrightarrow> s \<noteq> [] \<and> hd s \<noteq> CHR ''-'' \<and> last s \<noteq> CHR ''-'' \<and>
     list_all (\<lambda>c. is_lower c \<or> is_number c \<or> c = CHR ''-'') s"

text \<open>\<open>([A-Za-z0-9][-A-Za-z0-9_.]*)?[A-Za-z0-9]\<close>\<close>

definition qualified_name :: "string \<Rightarrow> bool" where
  "qualified_name s \<longleftrightarrow> s \<noteq> [] \<and> hd s \<notin> set ''-_.'' \<and> last s \<notin> set ''-_.'' \<and>
     list_all (\<lambda>c. is_lower c \<or> is_upper c \<or> is_number c \<or> c \<in> set ''-_.'') s"

fun split_on :: "char \<Rightarrow> string \<Rightarrow> string list" where
  "split_on d [] = [[]]"
| "split_on d (c # cs) =
     (if c = d then [] # split_on d cs
      else case split_on d cs of [] \<Rightarrow> [[c]] | part # parts \<Rightarrow> (c # part) # parts)"

text \<open>The pattern of a condition type: a qualified name after an optional DNS prefix.\<close>

definition type_pattern :: "string \<Rightarrow> bool" where
  "type_pattern s \<longleftrightarrow> length s \<le> 316 \<and>
     (if CHR ''/'' \<in> set s
      then list_all label_pattern (split_on (CHR ''.'') (takeWhile (\<lambda>c. c \<noteq> CHR ''/'') s)) \<and>
           qualified_name (tl (dropWhile (\<lambda>c. c \<noteq> CHR ''/'') s))
      else qualified_name s)"

text \<open>\<open>^[A-Za-z]([A-Za-z0-9_,:]*[A-Za-z0-9_])?$\<close>\<close>

definition reason_pattern :: "string \<Rightarrow> bool" where
  "reason_pattern s \<longleftrightarrow> s \<noteq> [] \<and> length s \<le> 1024 \<and> (is_lower (hd s) \<or> is_upper (hd s)) \<and> last s \<notin> set '',:'' \<and>
     list_all (\<lambda>c. is_lower c \<or> is_upper c \<or> is_number c \<or> c \<in> set ''_,:'') s"

definition schema_condition :: "Condition \<Rightarrow> bool" where
  "schema_condition c \<longleftrightarrow> type_pattern (cd_Type c) \<and> cd_Status c \<in> set [''True'', ''False'', ''Unknown''] \<and>
     0 \<le> sint (cd_ObservedGeneration c) \<and> reason_pattern (cd_Reason c)"

definition schema_role :: "ClusterRole \<Rightarrow> bool" where
  "schema_role r \<longleftrightarrow> r \<in> set [''primary'', ''standby'']"

definition schema_cluster_status :: "ClusterStatus \<Rightarrow> bool" where
  "schema_cluster_status x \<longleftrightarrow> schema_role (cs_Role x) \<and> list_all schema_condition (cs_Conditions x)"

definition schema_phase :: "string \<Rightarrow> bool" where
  "schema_phase p \<longleftrightarrow> p \<in> set [[], ''Pending'', ''Provisioning'', ''Ready'', ''Degraded'', ''FailingOver'', ''Failed'']"

definition schema_status :: "PostgresMCStatus \<Rightarrow> bool" where
  "schema_status st \<longleftrightarrow>
     schema_phase (st_Phase st) \<and>
     list_all schema_condition (st_Conditions st) \<and> list_all schema_cluster_status (st_Clusters st)"

definition schema_target :: "ClusterTarget \<Rightarrow> bool" where
  "schema_target t \<longleftrightarrow> label_pattern (ct_Name t) \<and> ct_ClusterRef t \<noteq> [] \<and> ct_Namespace t \<noteq> [] \<and> schema_role (ct_Role t)"

definition schema_service :: "ReplicationServiceConfig \<Rightarrow> bool" where
  "schema_service s \<longleftrightarrow> rsc_Type s \<in> set [''NodePort'', ''LoadBalancer''] \<and>
     (rsc_NodePort s = 0 \<or> 30000 \<le> sint (rsc_NodePort s) \<and> sint (rsc_NodePort s) \<le> 32767)"

text \<open>The part of the spec's schema that does not concern \<open>replicationService\<close>.\<close>

definition schema_spec_rest :: "PostgresMCSpec \<Rightarrow> bool" where
  "schema_spec_rest sp \<longleftrightarrow> sp_TeamID sp \<noteq> [] \<and> 1 \<le> length (sp_Clusters sp) \<and> length (sp_Clusters sp) \<le> 8 \<and>
     list_all schema_target (sp_Clusters sp) \<and> rs_Mode (sp_Replication sp) \<in> set [[], ReplicationAsync, ReplicationSync] \<and>
     0 \<le> sint (af_PrimaryUnreachableThreshold (sp_AutoFailover sp))"

definition schema_spec :: "PostgresMCSpec \<Rightarrow> bool" where
  "schema_spec sp \<longleftrightarrow> schema_spec_rest sp \<and> schema_service (sp_ReplicationService sp)"

definition conforms :: "PostgresMC \<Rightarrow> bool" where
  "conforms mc \<longleftrightarrow> schema_spec (mc_Spec mc) \<and> schema_status (mc_Status mc) \<and> 0 \<le> sint (mc_Generation mc)"

text \<open>The objects that the operator sends to the technical cluster, and patches it to.\<close>

fun sent_object :: "event \<Rightarrow> PostgresMC option" where
  "sent_object (TechCall (UpdateMC b) res) = Some b"
| "sent_object (TechCall (PatchMC a b) res) = Some b"
| "sent_object (TechCall (PatchMCStatus a b) res) = Some b"
| "sent_object _ = None"

definition conforming :: "event \<Rightarrow> bool" where
  "conforming e = (case sent_object e of None \<Rightarrow> True | Some b \<Rightarrow> conforms b)"

lemma conforming_simps [simp]:
  "conforming (TechCall (UpdateMC b) res) = conforms b" "conforming (TechCall (PatchMC a b) res) = conforms b"
  "conforming (TechCall (PatchMCStatus a b) res) = conforms b" "conforming (TechCall (TechGetSecret ns n) res)"
  "conforming (TechCall (GetMC ns n) res)" "conforming (Call c rq res)" "conforming (Recorded t r m)"
  by (simp_all add: conforming_def)

section \<open>The values that the operator uses\<close>

lemmas pattern_defs = label_pattern_def qualified_name_def type_pattern_def reason_pattern_def is_lower_def is_upper_def
  is_number_def

lemma operator_types [simp]:
  "type_pattern ConditionReady" "type_pattern ConditionFailoverInProgress" "type_pattern ConditionClusterReachable"
  by (simp_all add: pattern_defs api_consts)

lemma operator_reasons [simp]:
  "reason_pattern ReasonClusterUnreachable" "reason_pattern ReasonZalandoApplyFailed" "reason_pattern ReasonCredsNotReady"
  "reason_pattern ReasonPrimaryNotReady" "reason_pattern ReasonReconcileSuccess" "reason_pattern ReasonFailoverStarted"
  "reason_pattern ReasonFailoverCompleted" "reason_pattern ReasonSpecInvalid"
  by (simp_all add: pattern_defs reason_consts)

lemma operator_roles [simp]: "schema_role ClusterRolePrimary" "schema_role ClusterRoleStandby"
  by (simp_all add: schema_role_def api_consts)

lemma schema_SetCondition:
  assumes "list_all schema_condition cs" "type_pattern t" "st = ConditionTrue \<or> st = ConditionFalse"
    "0 \<le> sint g" "reason_pattern r"
  shows "list_all schema_condition (SetCondition cs t st g r m now)"
  using assms by (induction cs) (auto simp: schema_condition_def api_consts Let_def)

lemma schema_SetClusterCondition:
  assumes "list_all schema_cluster_status cs" "n \<in> cs_Name ` set cs" "type_pattern t" "st = ConditionTrue \<or> st = ConditionFalse"
    "0 \<le> sint g" "reason_pattern r"
  shows "list_all schema_cluster_status (SetClusterCondition cs n t st g r m now)"
  using assms by (induction cs) (auto simp: schema_cluster_status_def intro!: schema_SetCondition)

lemma operator_phases [simp]:
  "schema_phase PhaseReady" "schema_phase PhaseDegraded" "schema_phase PhasePending" "schema_phase PhaseFailed"
  "schema_phase PhaseFailingOver"
  by (simp_all add: schema_phase_def phase_consts)

section \<open>Status updates keep the schema\<close>

text \<open>
  A resource on its way through a reconcile: the spec and generation of \<open>mc\<close>, a status that
  conforms and an entry for every cluster of the spec.
\<close>

definition carries :: "PostgresMC \<Rightarrow> PostgresMC \<Rightarrow> bool" where
  "carries mc mc' \<longleftrightarrow> mc_Spec mc' = mc_Spec mc \<and> mc_Generation mc' = mc_Generation mc \<and> conforms mc' \<and>
     spec_names mc \<subseteq> cs_Name ` set (st_Clusters (mc_Status mc'))"

lemma carries_conforms: "carries mc mc' \<Longrightarrow> conforms mc'"
  by (simp add: carries_def)

lemma SetClusterCondition_names:
  "cs_Name ` set (SetClusterCondition cs n t st g r m now) = insert n (cs_Name ` set cs)"
  by (induction cs) auto

lemma carries_cluster_condition [simp]:
  assumes "carries mc mc'" "n \<in> spec_names mc" "type_pattern t" "st = ConditionTrue \<or> st = ConditionFalse" "reason_pattern r"
  shows "carries mc (mc_set_Clusters (SetClusterCondition (st_Clusters (mc_Status mc')) n t st (mc_Generation mc') r m now) mc')"
  using assms schema_SetClusterCondition [of "st_Clusters (mc_Status mc')" n t st "mc_Generation mc'" r m now]
  by (auto simp: carries_def conforms_def schema_status_def SetClusterCondition_names)

lemma carries_steps:
  assumes "carries mc mc'" "n \<in> spec_names mc" "st = ConditionTrue \<or> st = ConditionFalse" "reason_pattern r"
  shows "carries mc (setClusterReady mc' n st r m now)" "carries mc (cluster_condition mc' n st r m now)"
  using assms by (simp_all add: setClusterReady_def cluster_condition_def)

lemma carries_endpoint: "carries mc mc' \<Longrightarrow> carries mc (updateClusterEndpoint mc' n e)"
proof -
  have "list_all schema_cluster_status (set_endpoint cs n e)" if "list_all schema_cluster_status cs" for cs
    using that by (induction cs) (auto simp: schema_cluster_status_def)
  moreover have "cs_Name ` set (set_endpoint cs n e) = cs_Name ` set cs" for cs
    using arg_cong [OF set_endpoint_fields(1) [of cs n e], of set] by (simp only: set_map)
  ultimately show "carries mc mc' \<Longrightarrow> carries mc (updateClusterEndpoint mc' n e)"
    by (auto simp: carries_def conforms_def schema_status_def updateClusterEndpoint_def)
qed

lemma carries_count [simp]: "carries mc (count_failure pu mc') = carries mc mc'"
  by (simp add: carries_def conforms_def schema_status_def count_failure_def)

lemma carries_phase_condition:
  assumes "carries mc mc'" "schema_phase (st_Phase s)"
    "st_Clusters s = st_Clusters (mc_Status mc')" "list_all schema_condition (st_Conditions s)"
  shows "carries mc (mc'\<lparr>mc_Status := s\<rparr>)"
  using assms by (auto simp: carries_def conforms_def schema_status_def)

lemma schema_Aggregate: "schema_phase (fst (Aggregate cs b))"
  by (simp add: Aggregate_def Let_def)

lemma carries_final: "carries mc mc' \<Longrightarrow> carries mc (final_status mc' p unr now)"
proof -
  assume "carries mc mc'"
  then have "list_all schema_condition (st_Conditions (mc_Status mc'))" "0 \<le> sint (mc_Generation mc')"
    by (auto simp: carries_def conforms_def schema_status_def)
  note set = schema_SetCondition [OF this(1) operator_types(1) _ this(2)]
  from \<open>carries mc mc'\<close> show ?thesis
    unfolding final_status_def Let_def
    by (simp add: carries_phase_condition set schema_Aggregate)
qed

lemma carries_failing_over: "carries mc mc' \<Longrightarrow> carries mc (failing_over mc' now)"
proof -
  assume "carries mc mc'"
  then have "list_all schema_condition (st_Conditions (mc_Status mc'))" "0 \<le> sint (mc_Generation mc')"
    by (auto simp: carries_def conforms_def schema_status_def)
  note set = schema_SetCondition [OF this(1) operator_types(2) _ this(2)]
  from \<open>carries mc mc'\<close> show ?thesis
    unfolding failing_over_def Let_def by (simp add: carries_phase_condition set)
qed

lemma conforms_failed_over: "conforms mc \<Longrightarrow> conforms (failed_over mc n t1 t2)"
  by (simp add: conforms_def schema_status_def failed_over_def Let_def schema_SetCondition)

lemma conforms_invalid: "conforms mc \<Longrightarrow> conforms (invalid_spec_status mc e now)"
  by (simp add: conforms_def schema_status_def invalid_spec_status_def schema_SetCondition)

lemma carries_ensure:
  assumes "conforms mc" "valid_spec (sp_Clusters (mc_Spec mc))"
  shows "carries mc (ensureClusterStatusRoles mc)"
proof -
  have distinct: "distinct (map ct_Name (sp_Clusters (mc_Spec mc)))" using assms(2) by (simp add: valid_spec_def)
  have roles: "schema_role (ct_Role t)" if "t \<in> set (sp_Clusters (mc_Spec mc))" for t
    using that assms(1) by (auto simp: conforms_def schema_spec_def schema_spec_rest_def schema_target_def list_all_iff)
  have old: "schema_cluster_status (set_role (sp_Clusters (mc_Spec mc)) x)" if "schema_cluster_status x" for x
    using that roles by (auto simp: schema_cluster_status_def set_role_def role_of_def dest: find_Some_mem split: option.splits)
  have new: "schema_cluster_status (new_entry t)" if "t \<in> set (sp_Clusters (mc_Spec mc))" for t
    using roles [OF that] by (simp add: schema_cluster_status_def)
  show ?thesis
    using assms(1) old new
    by (auto simp: ensureClusterStatusRoles_eq [OF distinct] carries_def conforms_def schema_status_def list_all_iff
        image_Un image_image)
qed

section \<open>The loops of a reconcile\<close>

lemma conforming_read: "kubeconfig_read e \<Longrightarrow> conforming e"
  by (auto simp: kubeconfig_read_iff)

lemma GetClient_conforming: "footprint (GetClient A ttl target ns) conforming"
  by (rule emits_mono [OF GetClient_read]) (auto simp: conforming_read)

text \<open>Operations on workload clusters send nothing to the technical cluster.\<close>

lemma work_conforming: "footprint m (\<lambda>e. ev_client e \<noteq> None \<or> kubeconfig_read e) \<Longrightarrow> footprint m conforming"
  by (erule emits_mono) (auto simp: conforming_read elim!: ev_client.elims)

lemma resolve_loop_carries:
  assumes "ct_Name ` set targets \<subseteq> spec_names mc" "carries mc (rv_mc rv)"
  shows "emits (resolve_loop A ttl targets rv) (\<lambda>rv' es. carries mc (rv_mc rv') \<and> (\<forall>e \<in> set es. conforming e) \<and>
    (rcl_Target ` set (rv_clients rv') \<subseteq> rcl_Target ` set (rv_clients rv) \<union> set targets))"
  using assms
proof (induction targets arbitrary: rv)
  case (Cons t ts)
  show ?case
    unfolding resolve_loop.simps Let_def
    by (rule emits_bind, rule emits_mono [OF GetClient_conforming],
        intro emits_case_sum emits_bind emits_record_event emits_now emits_mono [OF Cons.IH])
      (use Cons.prems in \<open>auto intro!: carries_steps\<close>)
qed (simp add: emits_return)

lemma ensure_loop_carries:
  assumes "carries mc mc'"
  shows "emits (ensure_loop A rcs mc' d requeue) (\<lambda>(mc2, d2, r2) es. carries mc mc2 \<and> (\<forall>e \<in> set es. conforming e))"
  using assms
proof (induction rcs arbitrary: mc' d requeue)
  case (Cons rc rcs)
  have one: "footprint (Ensure A c mc' t) conforming" for c t
    by (rule emits_mono [OF replication_manager.op_emits [of A c "(mc', t)", simplified]]) auto
  show ?case
    unfolding ensure_loop.simps Let_def
    by (rule emits_bind, rule emits_mono [OF one], intro emits_case_sum emits_case_prod emits_mono [OF Cons.IH])
      (use Cons.prems in \<open>auto intro: carries_endpoint\<close>)
qed (simp add: emits_return)

lemma primary_step_carries:
  assumes "carries mc mc'" "\<And>p. primary = Some p \<Longrightarrow> ct_Name (rcl_Target p) \<in> spec_names mc"
  shows "emits (primary_step A mc' primary requeue) (\<lambda>r es. (\<forall>e \<in> set es. conforming e) \<and>
    (\<forall>mc2 ready rq. r = Ok (mc2, ready, rq) \<longrightarrow> carries mc mc2))"
proof (cases primary)
  case (Some p)
  have loop: "footprint (credentials_loop A c ns n roles) conforming" for c ns n roles
    by (induction roles) (auto intro!: footprint_intro simp: Let_def)
  have one: "footprint (reconcilePrimary A mc' p) conforming"
    unfolding reconcilePrimary_def Let_def by (intro footprint_intro loop) simp_all
  show ?thesis
    unfolding primary_step_def Some option.case
    by (rule emits_bind, rule emits_mono [OF one], intro emits_intro) (use assms Some in \<open>auto intro!: carries_steps\<close>)
qed (use assms in \<open>simp add: primary_step_def emits_return\<close>)

lemma standbys_step_carries:
  assumes "carries mc mc'" "ct_Name ` rcl_Target ` set standbys \<subseteq> spec_names mc"
  shows "emits (standbys_step A mc' primary ready ep standbys requeue) (\<lambda>r es. (\<forall>e \<in> set es. conforming e) \<and>
    (\<forall>mc2 rq. r = Ok (mc2, rq) \<longrightarrow> carries mc mc2))"
proof -
  have an_alias: "footprint (EnsurePrimaryAlias A plan) conforming" for plan
    unfolding EnsurePrimaryAlias_on_self by (rule emits_mono [OF alias_manager.op_emits]) auto
  have one: "footprint (reconcileStandby A mc1 ep s) conforming" for mc1 s
    unfolding reconcileStandby_def Let_def by (intro footprint_intro an_alias) simp_all
  have loop: "emits (standbys_loop A ep sts mc1) (\<lambda>r es. (\<forall>e \<in> set es. conforming e) \<and> (\<forall>mc2. r = Ok mc2 \<longrightarrow> carries mc mc2))"
    if "set sts \<subseteq> set standbys" "carries mc mc1" for sts mc1
    using that
  proof (induction sts arbitrary: mc1)
    case (Cons s sts)
    show ?case
      unfolding standbys_loop.simps
      by (rule emits_bind, rule emits_mono [OF one], intro emits_case_outcome emits_bind emits_now emits_return emits_mono [OF Cons.IH])
        (use Cons.prems assms(2) in \<open>auto intro!: carries_steps\<close>)
  qed (simp add: emits_return)
  have creds: "footprint (reconcileCredentials A mc1 p sts) conforming" for mc1 p sts
    by (rule emits_mono [OF reconcileCredentials_footprint]) (auto simp: sync_event_def)
  show ?thesis
    unfolding standbys_step_def
    apply (intro emits_case_option emits_if emits_return)
       apply (use assms(1) in simp)
      apply (rule emits_bind, rule emits_mono [OF creds], rule emits_bind, rule emits_mono [OF loop [OF order_refl assms(1)]],
        intro emits_case_outcome emits_return)
        apply (use assms(1) in auto)
    done
qed

section \<open>Whole operations\<close>

lemma reconcile_clusters_conforming:
  assumes "carries mc mc'" "rcl_Target ` set rcs \<subseteq> set (sp_Clusters (mc_Spec mc))"
  shows "footprint (reconcile_clusters A mc' orig sp rcs unr) conforming"
proof -
  obtain primary standbys where split: "splitByRole rcs = (primary, standbys)" by fastforce
  have member: "ct_Name (rcl_Target p) \<in> spec_names mc" if "primary = Some p" for p
    using splitByRole_primary [of rcs p] that split assms(2) by auto
  have others: "ct_Name ` rcl_Target ` set standbys \<subseteq> spec_names mc"
    using splitByRole_standbys [of rcs] split assms(2) by auto
  show ?thesis
    unfolding reconcile_clusters_def split prod.case Let_def
    apply (rule emits_bind, rule emits_mono [OF ensure_loop_carries [OF assms(1)]], (rule emits_case_prod)+)
    apply (rule emits_bind, rule emits_mono [OF primary_step_carries [OF _ member]], simp, assumption)
    apply (rule emits_case_outcome)
      apply ((rule emits_case_prod)+, rule emits_bind, rule emits_mono [OF standbys_step_carries [OF _ others]], simp)
      apply (rule emits_case_outcome)
        apply (rule emits_case_prod, intro emits_bind emits_now emits_tech_call emits_case_sum emits_return)
         apply (auto intro!: emits_return carries_conforms carries_final)
    done
qed

lemma completeFailover_conforming:
  assumes "conforms mc"
  shows "footprint (completeFailover A ttl mc) conforming"
proof -
  have run: "footprint (Run A plan) conforming" for plan
    by (rule work_conforming, rule emits_mono [OF Run_calls]) (auto simp: list_all_iff)
  show ?thesis
    unfolding completeFailover_def Let_def
    apply (rule emits_bind, rule emits_mono [OF failover_targets_emits], rule emits_case_sum, rule emits_return)
     apply (auto simp: list_all_iff conforming_read)
    apply (rule emits_bind, rule emits_mono [OF run], intro emits_intro)
         apply (auto simp: list_all_iff conforming_read conforms_failed_over [OF assms])
    done
qed

lemma reconcile_conforming:
  assumes A: "returns_patched A" and mc: "conforms mc" "valid_spec (sp_Clusters (mc_Spec mc))"
  shows "footprint (reconcile A ttl mc) conforming"
proof -
  let ?mc = "ensureClusterStatusRoles mc"
  note start = carries_ensure [OF mc]
  have failover: "footprint (runFailover A ttl ?mc mc) conforming"
  proof -
    have one: "emits (completeFailover A ttl mc2) (\<lambda>r es. conforms mc2 \<longrightarrow> (\<forall>e \<in> set es. conforming e))" for mc2
    proof (cases "conforms mc2")
      case True
      then show ?thesis by (intro emits_mono [OF completeFailover_conforming]) simp_all
    next
      case False
      then show ?thesis by (intro emits_mono [OF completeFailover_footprint]) simp
    qed
    show ?thesis
      by (rule runFailover_reduce [OF one]) (use A carries_conforms [OF carries_failing_over [OF start]] in auto)
  qed
  have auto: "footprint (runAutoFailover A mc1 mc rcs) conforming" if "carries mc mc1" for mc1 rcs
  proof -
    have "list_all schema_target (promote_roles n (sp_Clusters (mc_Spec mc1)))" for n
      using that by (auto simp: promote_roles_def carries_def conforms_def schema_spec_def schema_spec_rest_def list_all_iff
          schema_target_def)
    then have "conforms mc1" "conforms (mc_set_FailureCount 0 mc1)"
      "conforms (mc_set_SpecClusters (promote_roles n (sp_Clusters (mc_Spec mc1))) mc1)" for n
      using that by (auto simp: carries_def conforms_def schema_spec_def schema_spec_rest_def schema_status_def promote_roles_def)
    then show ?thesis
      unfolding runAutoFailover_def Let_def by (intro footprint_intro) simp_all
  qed
  show ?thesis
    unfolding reconcile_def Let_def
    apply (rule emits_if, rule failover)
    apply (rule emits_bind, rule emits_mono [OF resolve_loop_carries [of _ mc]], simp, simp add: start, rule emits_if)
     apply (elim conjE, rule emits_mono [OF auto], simp, simp add: ball_Un)
    apply (elim conjE, rule emits_mono [OF reconcile_clusters_conforming [of mc]], simp, simp, simp add: ball_Un)
    done
qed


lemma sample_mc_conforms: "conforms sample_mc"
  by (simp add: sample_defs conforms_def schema_spec_def schema_spec_rest_def schema_service_def schema_target_def
      schema_role_def schema_status_def schema_phase_def pattern_defs api_consts)


text \<open>An API server that validates updates of the resource: it refuses an object that does not conform.\<close>

definition validates_updates :: "'w api \<Rightarrow> bool" where
  "validates_updates A \<longleftrightarrow> (\<forall>b w. conforms b \<or> (\<exists>e w'. tech_update_mc A b w = (Inl e, w')))"

text \<open>
  C24. A resource without the optional section \<open>replicationService\<close> is never taken up. The schema
  lets a user leave the section out (and \<open>Ensure\<close> treats the empty type as NodePort), but the
  operator's first write, the update that adds the finalizer, encodes the whole struct, with the
  empty string as \<open>type\<close>. An API server that validates updates refuses it: every reconcile of the
  resource makes this one call, fails and does nothing else.
\<close>

theorem finalizer_refused_without_service:
  assumes "validates_updates A"
    and "sp_ReplicationService (mc_Spec mc) = \<lparr>rsc_Type = [], rsc_NodePort = 0\<rparr>"
    and "\<not> is_deleted mc" and "\<not> containsFinalizer mc finalizerName"
  shows "emits (Reconcile_object A ttl mc) (\<lambda>r es.
    (\<exists>e. r = Error e) \<and> (\<exists>e. es = [TechCall (UpdateMC (mc\<lparr>mc_Finalizers := mc_Finalizers mc @ [finalizerName]\<rparr>)) (Some e)]))"
proof -
  let ?mc = "mc\<lparr>mc_Finalizers := mc_Finalizers mc @ [finalizerName]\<rparr>"
  have "\<not> conforms ?mc" using assms(2) by (simp add: conforms_def schema_spec_def schema_service_def)
  with assms(1) have refused: "\<exists>e w'. tech_update_mc A ?mc w = (Inl e, w')" for w unfolding validates_updates_def by blast
  then have "\<exists>e. r = Inl e" if "tech_update_mc A ?mc w = (r, w')" for r w w' using that by (metis prod.inject)
  then show ?thesis
    unfolding Reconcile_object_def Let_def if_not_P [OF assms(3)] if_P [OF assms(4)]
    by (intro emits_bind emits_tech_call_answer emits_case_sum emits_return) fastforce+
qed

definition validating_api :: "mem_world api" where
  "validating_api = echo_api\<lparr>tech_update_mc := \<lambda>b w. if conforms b then (Inr b, w) else (Inl (errorf ''Invalid value''), w)\<rparr>"

definition bare_mc :: PostgresMC where
  "bare_mc = sample_mc\<lparr>mc_Finalizers := [],
     mc_Spec := (mc_Spec sample_mc)\<lparr>sp_ReplicationService := \<lparr>rsc_Type = [], rsc_NodePort = 0\<rparr>\<rparr>\<rparr>"

lemma finalizer_refused_without_service_witness:
  "schema_spec_rest (mc_Spec bare_mc) \<and> schema_status (mc_Status bare_mc) \<and>
   (\<exists>e. fst (run_state (Reconcile_object validating_api registryTTL bare_mc) (mem_state healthy_world)) = Error e)"
proof -
  have "validates_updates validating_api" by (simp add: validates_updates_def validating_api_def)
  moreover have "\<not> is_deleted bare_mc" "\<not> containsFinalizer bare_mc finalizerName"
    by (simp_all add: bare_mc_def sample_defs is_deleted_def containsFinalizer_def)
  moreover have "sp_ReplicationService (mc_Spec bare_mc) = \<lparr>rsc_Type = [], rsc_NodePort = 0\<rparr>" by (simp add: bare_mc_def)
  moreover have "schema_spec_rest (mc_Spec bare_mc)" "schema_status (mc_Status bare_mc)"
    using sample_mc_conforms by (simp_all add: bare_mc_def conforms_def schema_spec_def schema_spec_rest_def)
  ultimately show ?thesis
    using emits_trace [OF finalizer_refused_without_service mem_state_trace [of healthy_world]] by blast
qed

end
