(* ===== verification/Go_Heap.thy ===== *)
theory Go_Heap
  imports Status
begin

text \<open>
  Go memory, as far as the resource type needs it: structs that hold slices and pointers, the cells
  they refer to, and what it means that a value is copied deeply. The other theories treat a
  PostgresMC as a value, although the operator changes it in place and keeps a deep copy beside it;
  \<open>Deep_Copy\<close> and \<open>In_Place\<close> justify that on this memory.
\<close>

section \<open>Structs and cells\<close>

text \<open>
  A slice is nil or refers to a backing array, of which it shows the first \<open>len\<close> elements; the
  rest of the array is spare capacity. All slices of the resource start at the array's beginning.
  A pointer is nil or an address.
\<close>

type_synonym addr = nat
type_synonym slice = "(addr \<times> nat) option"
type_synonym pointer = "addr option"

record ClusterStatusRep =
  rcs_Name :: string
  rcs_Role :: ClusterRole
  rcs_Phase :: string
  rcs_ObservedGeneration :: int64
  rcs_Conditions :: slice
  rcs_Endpoint :: string
  rcs_LastSyncedAt :: pointer

record PostgresMCStatusRep =
  rst_Phase :: string
  rst_ObservedGeneration :: int64
  rst_CurrentPrimary :: string
  rst_Conditions :: slice
  rst_Clusters :: slice
  rst_PrimaryFailureCount :: int32

text \<open>\<open>runtime.RawExtension\<close>: the bytes of the postgresql spec.\<close>

record RawExtensionRep =
  raw_Raw :: slice

record PostgresMCSpecRep =
  rsp_TeamID :: string
  rsp_Clusters :: slice
  rsp_PostgresqlSpec :: RawExtensionRep
  rsp_Replication :: ReplicationSpec
  rsp_ReplicationService :: ReplicationServiceConfig
  rsp_AutoFailover :: AutoFailoverSpec

record TypeMeta =
  tm_Kind :: string
  tm_APIVersion :: string

text \<open>\<open>metav1.ObjectMeta\<close>: the fields that the operator uses.\<close>

record ObjectMetaRep =
  om_Name :: string
  om_Namespace :: string
  om_Generation :: int64
  om_DeletionTimestamp :: pointer
  om_Finalizers :: slice

record PostgresMCRep =
  rmc_TypeMeta :: TypeMeta
  rmc_ObjectMeta :: ObjectMetaRep
  rmc_Spec :: PostgresMCSpecRep
  rmc_Status :: PostgresMCStatusRep

record ListMetaRep =
  lm_ResourceVersion :: string
  lm_Continue :: string
  lm_RemainingItemCount :: pointer

record PostgresMCListRep =
  rls_TypeMeta :: TypeMeta
  rls_ListMeta :: ListMetaRep
  rls_Items :: slice

text \<open>What a cell may hold: a backing array, or a value that a pointer refers to.\<close>

datatype cell =
    TargetArray "ClusterTarget list"
  | ConditionArray "Condition list"
  | ClusterStatusArray "ClusterStatusRep list"
  | PostgresMCArray "PostgresMCRep list"
  | StringArray "string list"
  | ByteArray string
  | TimeCell time
  | Int64Cell int64
  | AutoFailoverCell AutoFailoverSpec
  | ReplicationServiceCell ReplicationServiceConfig
  | ReplicationCell ReplicationSpec
  | TargetCell ClusterTarget
  | ClusterStatusCell ClusterStatusRep
  | SpecCell PostgresMCSpecRep
  | StatusCell PostgresMCStatusRep
  | PostgresMCCell PostgresMCRep
  | PostgresMCListCell PostgresMCListRep

text \<open>The contents of a cell of the expected type; a Go program has no others.\<close>

fun targets_of :: "cell \<Rightarrow> ClusterTarget list" where
  "targets_of (TargetArray xs) = xs" | "targets_of _ = []"

fun conditions_of :: "cell \<Rightarrow> Condition list" where
  "conditions_of (ConditionArray xs) = xs" | "conditions_of _ = []"

fun statuses_of :: "cell \<Rightarrow> ClusterStatusRep list" where
  "statuses_of (ClusterStatusArray xs) = xs" | "statuses_of _ = []"

fun items_of :: "cell \<Rightarrow> PostgresMCRep list" where
  "items_of (PostgresMCArray xs) = xs" | "items_of _ = []"

fun strings_of :: "cell \<Rightarrow> string list" where
  "strings_of (StringArray xs) = xs" | "strings_of _ = []"

fun bytes_of :: "cell \<Rightarrow> string" where
  "bytes_of (ByteArray xs) = xs" | "bytes_of _ = []"

fun time_of :: "cell \<Rightarrow> time" where
  "time_of (TimeCell t) = t" | "time_of _ = 0"

fun int64_of :: "cell \<Rightarrow> int64" where
  "int64_of (Int64Cell i) = i" | "int64_of _ = 0"

section \<open>The heap\<close>

text \<open>Addresses are handed out in order: everything from \<open>hp_next\<close> on is unused.\<close>

record heap =
  hp_cells :: "addr \<Rightarrow> cell option"
  hp_next :: addr

definition wf_heap :: "heap \<Rightarrow> bool" where
  "wf_heap h \<longleftrightarrow> (\<forall>a \<ge> hp_next h. hp_cells h a = None)"

definition alloc :: "cell \<Rightarrow> heap \<Rightarrow> addr \<times> heap" where
  "alloc c h = (hp_next h, \<lparr>hp_cells = (hp_cells h)(hp_next h \<mapsto> c), hp_next = Suc (hp_next h)\<rparr>)"

definition store :: "addr \<Rightarrow> cell \<Rightarrow> heap \<Rightarrow> heap" where
  "store a c h = h\<lparr>hp_cells := (hp_cells h)(a \<mapsto> c)\<rparr>"

definition read_slice :: "(cell \<Rightarrow> 'a list) \<Rightarrow> heap \<Rightarrow> slice \<Rightarrow> 'a list" where
  "read_slice sel h s = (case s of None \<Rightarrow> []
     | Some (a, n) \<Rightarrow> (case hp_cells h a of None \<Rightarrow> [] | Some c \<Rightarrow> take n (sel c)))"

definition read_pointer :: "(cell \<Rightarrow> 'a) \<Rightarrow> heap \<Rightarrow> pointer \<Rightarrow> 'a option" where
  "read_pointer sel h p = (case p of None \<Rightarrow> None | Some a \<Rightarrow> map_option sel (hp_cells h a))"

definition slice_cells :: "slice \<Rightarrow> addr set" where
  "slice_cells s = (case s of None \<Rightarrow> {} | Some (a, n) \<Rightarrow> {a})"

definition pointer_cells :: "pointer \<Rightarrow> addr set" where
  "pointer_cells p = (case p of None \<Rightarrow> {} | Some a \<Rightarrow> {a})"

text \<open>Two heaps that agree on a set of addresses, and a heap that only got new cells.\<close>

definition agree :: "addr set \<Rightarrow> heap \<Rightarrow> heap \<Rightarrow> bool" where
  "agree S h h' \<longleftrightarrow> (\<forall>a \<in> S. hp_cells h' a = hp_cells h a)"

abbreviation allocated :: "heap \<Rightarrow> addr set" where
  "allocated h \<equiv> dom (hp_cells h)"

definition extends :: "heap \<Rightarrow> heap \<Rightarrow> bool" where
  "extends h h' \<longleftrightarrow> wf_heap h' \<and> agree (allocated h) h h' \<and> hp_next h \<le> hp_next h'"

lemma agree_subset: "agree S h h' \<Longrightarrow> T \<subseteq> S \<Longrightarrow> agree T h h'"
  by (auto simp: agree_def)

lemma agree_refl [simp]: "agree S h h"
  by (simp add: agree_def)

lemma agree_trans: "agree S h h' \<Longrightarrow> agree S h' h'' \<Longrightarrow> agree S h h''"
  by (simp add: agree_def)

lemma allocated_less: "wf_heap h \<Longrightarrow> a \<in> allocated h \<Longrightarrow> a < hp_next h"
  by (auto simp: wf_heap_def not_le [symmetric])

lemma extends_refl [simp]: "wf_heap h \<Longrightarrow> extends h h"
  by (simp add: extends_def)

lemma extends_allocated: "extends h h' \<Longrightarrow> allocated h \<subseteq> allocated h'"
  unfolding extends_def agree_def by (metis domD domI subsetI)

lemma extends_trans:
  assumes "extends h h'" "extends h' h''"
  shows "extends h h''"
proof -
  have "agree (allocated h) h' h''"
    using assms extends_allocated [OF assms(1)] by (auto simp: extends_def intro: agree_subset)
  with assms show ?thesis by (auto simp: extends_def intro: agree_trans)
qed

lemma alloc_extends: "wf_heap h \<Longrightarrow> alloc c h = (a, h') \<Longrightarrow> extends h h'"
  by (auto simp: alloc_def extends_def wf_heap_def agree_def)

lemma alloc_cell: "alloc c h = (a, h') \<Longrightarrow> hp_cells h' a = Some c \<and> a = hp_next h"
  by (auto simp: alloc_def)

lemma alloc_fresh: "wf_heap h \<Longrightarrow> alloc c h = (a, h') \<Longrightarrow> a \<notin> allocated h"
  by (auto simp: alloc_def wf_heap_def)

lemma store_wf: "wf_heap h \<Longrightarrow> a \<in> allocated h \<Longrightarrow> wf_heap (store a c h)"
  by (auto simp: store_def wf_heap_def)

lemma store_agree: "a \<notin> S \<Longrightarrow> agree S h (store a c h)"
  by (auto simp: store_def agree_def)

lemma store_cell [simp]: "hp_cells (store a c h) b = (if b = a then Some c else hp_cells h b)"
  "hp_next (store a c h) = hp_next h"
  by (simp_all add: store_def)

text \<open>A new cell that is written again is a new cell with other contents.\<close>

lemma store_extends:
  assumes "extends h h'" "a \<in> allocated h'" "a \<notin> allocated h"
  shows "extends h (store a c h')"
  using assms store_wf [of h' a c] by (auto simp: extends_def agree_def)

lemma read_slice_simps [simp]:
  "read_slice sel h None = []"
  "hp_cells h a = Some c \<Longrightarrow> read_slice sel h (Some (a, n)) = take n (sel c)"
  by (simp_all add: read_slice_def)

lemma slice_cells_simps [simp]: "slice_cells None = {}" "slice_cells (Some (a, n)) = {a}"
  by (simp_all add: slice_cells_def)

lemma pointer_cells_simps [simp]: "pointer_cells None = {}" "pointer_cells (Some a) = {a}"
  by (simp_all add: pointer_cells_def)

lemma read_slice_agree: "agree (slice_cells s) h h' \<Longrightarrow> read_slice sel h' s = read_slice sel h s"
  by (cases s) (auto simp: read_slice_def agree_def)

lemma read_pointer_agree: "agree (pointer_cells p) h h' \<Longrightarrow> read_pointer sel h' p = read_pointer sel h p"
  by (cases p) (auto simp: read_pointer_def agree_def)

section \<open>Deep copies\<close>

text \<open>
  A kind of Go value: what it means (\<open>view\<close>) and the cells that it reaches (\<open>cells\<close>). It means the
  same in every heap that agrees on these cells.
\<close>

locale go_value =
  fixes view :: "heap \<Rightarrow> 'r \<Rightarrow> 'a" and cells :: "heap \<Rightarrow> 'r \<Rightarrow> addr set"
  assumes frame: "agree (cells h x) h h' \<Longrightarrow> view h' x = view h x \<and> cells h' x = cells h x"
begin

lemma extended:
  assumes "extends h h'" "cells h x \<subseteq> allocated h"
  shows "view h' x = view h x" "cells h' x = cells h x"
proof -
  from assms have "agree (cells h x) h h'" by (auto simp: extends_def intro: agree_subset)
  from frame [OF this] show "view h' x = view h x" "cells h' x = cells h x" by simp_all
qed

end

text \<open>A deep copy means the same and reaches new cells only; what was there before is as it was.\<close>

locale deep_copier = go_value view cells
  for view :: "heap \<Rightarrow> 'r \<Rightarrow> 'a" and cells :: "heap \<Rightarrow> 'r \<Rightarrow> addr set" +
  fixes copy :: "'r \<Rightarrow> heap \<Rightarrow> 'r \<times> heap"
  assumes copies: "wf_heap h \<Longrightarrow> cells h x \<subseteq> allocated h \<Longrightarrow> copy x h = (y, h') \<Longrightarrow>
    extends h h' \<and> view h' y = view h x \<and> cells h' y \<subseteq> allocated h' - allocated h"
begin

text \<open>Whatever is written to cells that the copy did not create, the copy keeps its meaning.\<close>

lemma isolated:
  assumes "wf_heap h" "cells h x \<subseteq> allocated h" "copy x h = (y, h')"
    and "agree (allocated h' - allocated h) h' h''"
  shows "view h'' y = view h x"
proof -
  note c = copies [OF assms(1-3)]
  then have "agree (cells h' y) h' h''" using assms(4) by (blast intro: agree_subset)
  from frame [OF this] c show ?thesis by simp
qed

end

text \<open>Structs without slices and pointers.\<close>

definition plain_view :: "heap \<Rightarrow> 'a \<Rightarrow> 'a" where "plain_view h x = x"
definition plain_cells :: "heap \<Rightarrow> 'a \<Rightarrow> addr set" where "plain_cells h x = {}"

lemma plain_copier: "deep_copier plain_view plain_cells (\<lambda>x h. (x, h))"
  by unfold_locales (auto simp: plain_view_def plain_cells_def)

text \<open>Two values, copied one after the other.\<close>

definition pair_view :: "(heap \<Rightarrow> 'r \<Rightarrow> 'a) \<Rightarrow> (heap \<Rightarrow> 's \<Rightarrow> 'b) \<Rightarrow> heap \<Rightarrow> 'r \<times> 's \<Rightarrow> 'a \<times> 'b" where
  "pair_view v1 v2 h = (\<lambda>(x, y). (v1 h x, v2 h y))"

definition pair_cells :: "(heap \<Rightarrow> 'r \<Rightarrow> addr set) \<Rightarrow> (heap \<Rightarrow> 's \<Rightarrow> addr set) \<Rightarrow> heap \<Rightarrow> 'r \<times> 's \<Rightarrow> addr set" where
  "pair_cells c1 c2 h = (\<lambda>(x, y). c1 h x \<union> c2 h y)"

definition copy_pair ::
  "('r \<Rightarrow> heap \<Rightarrow> 'r \<times> heap) \<Rightarrow> ('s \<Rightarrow> heap \<Rightarrow> 's \<times> heap) \<Rightarrow> 'r \<times> 's \<Rightarrow> heap \<Rightarrow> ('r \<times> 's) \<times> heap" where
  "copy_pair f g = (\<lambda>(x, y) h. let (x', h1) = f x h; (y', h2) = g y h1 in ((x', y'), h2))"

lemmas pair_defs = pair_view_def pair_cells_def copy_pair_def

lemma pair_copier:
  assumes "deep_copier v1 c1 f" "deep_copier v2 c2 g"
  shows "deep_copier (pair_view v1 v2) (pair_cells c1 c2) (copy_pair f g)"
proof -
  note val = deep_copier.axioms(1)
  note frame1 = go_value.frame [OF val [OF assms(1)]] and frame2 = go_value.frame [OF val [OF assms(2)]]
  show ?thesis
  proof (unfold_locales, goal_cases)
    case (1 h xy h')
    obtain x y where xy: "xy = (x, y)" by fastforce
    from 1 xy have "agree (c1 h x) h h'" "agree (c2 h y) h h'" by (auto simp: pair_cells_def intro: agree_subset)
    from frame1 [OF this(1)] frame2 [OF this(2)] show ?case by (simp add: xy pair_defs)
  next
    case (2 h xy xy' h2)
    obtain x y where xy: "xy = (x, y)" by fastforce
    obtain x' h1 where f: "f x h = (x', h1)" by fastforce
    obtain y' h3 where g: "g y h1 = (y', h3)" by fastforce
    from 2(2) have closed: "c1 h x \<subseteq> allocated h" "c2 h y \<subseteq> allocated h" by (simp_all add: xy pair_cells_def)
    note one = deep_copier.copies [OF assms(1) 2(1) closed(1) f]
    then have ext: "extends h h1" by simp
    note moved = go_value.extended [OF val [OF assms(2)] ext closed(2)]
    from ext have "wf_heap h1" by (simp add: extends_def)
    moreover have "c2 h1 y \<subseteq> allocated h1" using moved closed(2) extends_allocated [OF ext] by auto
    ultimately have two: "extends h1 h3 \<and> v2 h3 y' = v2 h1 y \<and> c2 h3 y' \<subseteq> allocated h3 - allocated h1"
      by (rule deep_copier.copies [OF assms(2) _ _ g])
    then have ext2: "extends h1 h3" by simp
    have "c1 h1 x' \<subseteq> allocated h1" using one by blast
    note kept = go_value.extended [OF val [OF assms(1)] ext2 this]
    have "xy' = (x', y')" "h2 = h3" using 2(3) by (simp_all add: xy copy_pair_def f g)
    moreover have "c1 h3 x' \<union> c2 h3 y' \<subseteq> allocated h3 - allocated h"
      using one two kept extends_allocated [OF ext] extends_allocated [OF ext2] by blast
    ultimately show ?case
      using one two moved kept extends_trans [OF ext ext2] by (simp add: xy pair_view_def pair_cells_def)
  qed
qed

text \<open>A struct whose slices and pointers are copied: the meaning depends on the copied parts.\<close>

lemma struct_copier:
  assumes "deep_copier v c f"
    and "\<And>h x. view h x = build x (v h (parts x))" "\<And>h x. cells h x = c h (parts x)"
    and "\<And>x p. parts (put p x) = p" "\<And>x p q. build (put p x) q = build x q"
    and "\<And>x h. copy x h = (let (p, h') = f (parts x) h in (put p x, h'))"
  shows "deep_copier view cells copy"
proof (unfold_locales, goal_cases)
  case (1 h x h')
  with go_value.frame [OF deep_copier.axioms(1) [OF assms(1)]] assms(2,3) show ?case by metis
next
  case (2 h x y h')
  obtain p h1 where f: "f (parts x) h = (p, h1)" by fastforce
  with 2(3) have y: "y = put p x" "h' = h1" by (simp_all add: assms(6))
  with deep_copier.copies [OF assms(1) 2(1) _ f] 2(2) show ?case by (simp add: assms(2-5))
qed

section \<open>Slices and pointers\<close>

text \<open>A slice whose elements are values of the kind \<open>v\<close>, \<open>c\<close>.\<close>

definition slice_view :: "(cell \<Rightarrow> 'r list) \<Rightarrow> (heap \<Rightarrow> 'r \<Rightarrow> 'a) \<Rightarrow> heap \<Rightarrow> slice \<Rightarrow> 'a list" where
  "slice_view sel v h s = map (v h) (read_slice sel h s)"

definition elem_cells :: "(heap \<Rightarrow> 'r \<Rightarrow> addr set) \<Rightarrow> heap \<Rightarrow> 'r list \<Rightarrow> addr set" where
  "elem_cells c h xs = \<Union> (c h ` set xs)"

definition slice_reach :: "(cell \<Rightarrow> 'r list) \<Rightarrow> (heap \<Rightarrow> 'r \<Rightarrow> addr set) \<Rightarrow> heap \<Rightarrow> slice \<Rightarrow> addr set" where
  "slice_reach sel c h s = slice_cells s \<union> elem_cells c h (read_slice sel h s)"

text \<open>
  \<open>if in != nil { *out = make([]T, len(*in)); for i := range *in { (*in)[i].DeepCopyInto(&(*out)[i]) } }\<close>:
  the new array is there, filled with zero values, before the elements are copied.
\<close>

primrec copy_elems :: "('r \<Rightarrow> heap \<Rightarrow> 'r \<times> heap) \<Rightarrow> 'r list \<Rightarrow> heap \<Rightarrow> 'r list \<times> heap" where
  "copy_elems f [] h = ([], h)"
| "copy_elems f (x # xs) h =
     (let (y, h1) = f x h; (ys, h2) = copy_elems f xs h1 in (y # ys, h2))"

definition copy_slice ::
  "('r list \<Rightarrow> cell) \<Rightarrow> (cell \<Rightarrow> 'r list) \<Rightarrow> 'r \<Rightarrow> ('r \<Rightarrow> heap \<Rightarrow> 'r \<times> heap) \<Rightarrow> slice \<Rightarrow> heap \<Rightarrow> slice \<times> heap" where
  "copy_slice mk sel zero f s h = (case s of None \<Rightarrow> (None, h)
     | Some (a, n) \<Rightarrow>
         (let (b, h1) = alloc (mk (replicate n zero)) h;
              (ys, h2) = copy_elems f (read_slice sel h s) h1
          in (Some (b, n), store b (mk ys) h2)))"

lemma copy_elems_length: "copy_elems f xs h = (ys, h') \<Longrightarrow> length ys = length xs"
  by (induction xs arbitrary: ys h) (auto split: prod.splits)

lemma slice_value:
  assumes "go_value v c"
  shows "go_value (slice_view sel v) (slice_reach sel c)"
proof (unfold_locales, goal_cases)
  case (1 h s h')
  then have "agree (slice_cells s) h h'" "\<forall>x \<in> set (read_slice sel h s). agree (c h x) h h'"
    by (auto simp: slice_reach_def elem_cells_def agree_def)
  then have "\<forall>x \<in> set (read_slice sel h s). v h' x = v h x \<and> c h' x = c h x" "read_slice sel h' s = read_slice sel h s"
    using go_value.frame [OF assms] by (auto simp: read_slice_agree)
  then show ?case by (simp add: slice_view_def slice_reach_def elem_cells_def cong: SUP_cong)
qed

text \<open>A pointer to a value, and \<open>DeepCopy\<close>, which copies what the pointer refers to into a new cell.\<close>

definition pointer_view :: "(cell \<Rightarrow> 'r) \<Rightarrow> (heap \<Rightarrow> 'r \<Rightarrow> 'a) \<Rightarrow> heap \<Rightarrow> pointer \<Rightarrow> 'a option" where
  "pointer_view sel v h p = map_option (v h) (read_pointer sel h p)"

definition pointer_reach :: "(cell \<Rightarrow> 'r) \<Rightarrow> (heap \<Rightarrow> 'r \<Rightarrow> addr set) \<Rightarrow> heap \<Rightarrow> pointer \<Rightarrow> addr set" where
  "pointer_reach sel c h p = pointer_cells p \<union> (case read_pointer sel h p of None \<Rightarrow> {} | Some x \<Rightarrow> c h x)"

definition new_copy ::
  "('r \<Rightarrow> cell) \<Rightarrow> (cell \<Rightarrow> 'r) \<Rightarrow> ('r \<Rightarrow> heap \<Rightarrow> 'r \<times> heap) \<Rightarrow> pointer \<Rightarrow> heap \<Rightarrow> pointer \<times> heap" where
  "new_copy mk sel into p h = (case read_pointer sel h p of None \<Rightarrow> (None, h)
     | Some x \<Rightarrow> (let (y, h1) = into x h; (a, h2) = alloc (mk y) h1 in (Some a, h2)))"

lemma pointer_value:
  assumes "go_value v c"
  shows "go_value (pointer_view sel v) (pointer_reach sel c)"
proof (unfold_locales, goal_cases)
  case (1 h p h')
  then have "agree (pointer_cells p) h h'" by (auto simp: pointer_reach_def agree_def)
  then have read: "read_pointer sel h' p = read_pointer sel h p" by (rule read_pointer_agree)
  show ?case
  proof (cases "read_pointer sel h p")
    case (Some x)
    with 1 have "agree (c h x) h h'" by (auto simp: pointer_reach_def agree_def)
    from go_value.frame [OF assms this] Some show ?thesis by (simp add: pointer_view_def pointer_reach_def read)
  qed (simp add: pointer_view_def pointer_reach_def read)
qed

context deep_copier
begin

lemma copy_elems_correct:
  assumes "wf_heap h" "elem_cells cells h xs \<subseteq> allocated h" "copy_elems copy xs h = (ys, h')"
  shows "extends h h' \<and> map (view h') ys = map (view h) xs \<and> elem_cells cells h' ys \<subseteq> allocated h' - allocated h"
  using assms
proof (induction xs arbitrary: h ys h')
  case Nil
  then show ?case by (simp add: elem_cells_def)
next
  case (Cons x xs)
  obtain y h1 where y: "copy x h = (y, h1)" by fastforce
  obtain zs h2 where zs: "copy_elems copy xs h1 = (zs, h2)" by fastforce
  from Cons.prems(3) have ys: "ys = y # zs" "h' = h2" by (simp_all add: y zs)
  from Cons.prems(2) have closed: "cells h x \<subseteq> allocated h" "\<forall>z \<in> set xs. cells h z \<subseteq> allocated h"
    by (auto simp: elem_cells_def)
  from copies [OF Cons.prems(1) closed(1) y] have one: "extends h h1" "view h1 y = view h x"
    "cells h1 y \<subseteq> allocated h1 - allocated h" by simp_all
  have moved: "\<forall>z \<in> set xs. view h1 z = view h z \<and> cells h1 z = cells h z"
    using extended [OF one(1)] closed(2) by blast
  from one(1) have "wf_heap h1" by (simp add: extends_def)
  moreover have "elem_cells cells h1 xs \<subseteq> allocated h1"
    using moved closed(2) extends_allocated [OF one(1)] by (fastforce simp: elem_cells_def)
  ultimately have two: "extends h1 h2" "map (view h2) zs = map (view h1) xs"
    "elem_cells cells h2 zs \<subseteq> allocated h2 - allocated h1"
    using Cons.IH [OF _ _ zs] by simp_all
  have "cells h1 y \<subseteq> allocated h1" using one(3) by blast
  note kept = extended [OF two(1) this]
  have "cells h2 y \<union> elem_cells cells h2 zs \<subseteq> allocated h2 - allocated h"
    using one(3) two(3) kept extends_allocated [OF one(1)] extends_allocated [OF two(1)] by blast
  then have "elem_cells cells h2 (y # zs) \<subseteq> allocated h2 - allocated h" by (simp add: elem_cells_def)
  then show ?case
    using one two moved kept extends_trans [OF one(1) two(1)] by (simp add: ys)
qed

lemma slice_copier:
  assumes sel: "\<And>xs. sel (mk xs) = xs"
  shows "deep_copier (slice_view sel view) (slice_reach sel cells) (copy_slice mk sel zero copy)"
proof (rule deep_copier.intro [OF slice_value [OF go_value_axioms]], unfold_locales, goal_cases)
  case (1 h s s' h')
  show ?case
  proof (cases s)
    case None
    with 1 show ?thesis by (simp add: copy_slice_def slice_view_def slice_reach_def elem_cells_def)
  next
    case (Some an)
    obtain a n where s: "s = Some (a, n)" using Some by (cases an) simp
    let ?xs = "read_slice sel h s"
    obtain b h1 where b: "alloc (mk (replicate n zero)) h = (b, h1)" by fastforce
    obtain ys h2 where ys: "copy_elems copy ?xs h1 = (ys, h2)" by fastforce
    from 1(3) have res: "s' = Some (b, n)" "h' = store b (mk ys) h2" by (simp_all add: copy_slice_def s b ys [unfolded s])
    note ext = alloc_extends [OF 1(1) b]
    note new = alloc_cell [OF b] alloc_fresh [OF 1(1) b]
    have closed: "\<forall>x \<in> set ?xs. cells h x \<subseteq> allocated h" using 1(2) by (auto simp: slice_reach_def elem_cells_def)
    then have moved: "\<forall>x \<in> set ?xs. view h1 x = view h x \<and> cells h1 x = cells h x" using extended [OF ext] by blast
    have "wf_heap h1" using ext by (simp add: extends_def)
    moreover have "elem_cells cells h1 ?xs \<subseteq> allocated h1"
      using moved closed extends_allocated [OF ext] by (fastforce simp: elem_cells_def)
    ultimately have copied: "extends h1 h2" "map (view h2) ys = map (view h1) ?xs"
      "elem_cells cells h2 ys \<subseteq> allocated h2 - allocated h1"
      using copy_elems_correct [OF _ _ ys] by simp_all
    have b1: "b \<in> allocated h1" using new by auto
    then have b2: "b \<in> allocated h2" using extends_allocated [OF copied(1)] by blast
    have ext': "extends h h'"
      unfolding res using extends_trans [OF ext copied(1)] b2 new(2) by (rule store_extends)
    have same: "\<forall>y \<in> set ys. view h' y = view h2 y \<and> cells h' y = cells h2 y"
    proof
      fix y assume "y \<in> set ys"
      then have "b \<notin> cells h2 y" using copied(3) b1 by (auto simp: elem_cells_def)
      from frame [OF store_agree [OF this]] show "view h' y = view h2 y \<and> cells h' y = cells h2 y" by (simp add: res)
    qed
    have "length ?xs \<le> n" by (auto simp: s read_slice_def split: option.splits)
    then have read: "read_slice sel h' s' = ys"
      using copy_elems_length [OF ys] by (simp add: res sel)
    have "slice_view sel view h' s' = map (view h1) ?xs"
      using same copied(2) by (simp add: slice_view_def read cong: map_cong)
    also have "... = slice_view sel view h s" using moved by (simp add: slice_view_def)
    finally have view: "slice_view sel view h' s' = slice_view sel view h s" .
    have "slice_reach sel cells h' s' = {b} \<union> elem_cells cells h2 ys"
      unfolding slice_reach_def read elem_cells_def using same by (simp add: res(1) cong: SUP_cong)
    moreover have "allocated h' = allocated h2" using b2 by (auto simp: res split: if_splits)
    moreover have "elem_cells cells h2 ys \<subseteq> allocated h2 - allocated h"
      using copied(3) extends_allocated [OF ext] by blast
    ultimately have "slice_reach sel cells h' s' \<subseteq> allocated h' - allocated h"
      using b2 new(2) by simp
    with ext' view show ?thesis by simp
  qed
qed

lemma pointer_copier:
  assumes sel: "\<And>x. sel (mk x) = x"
  shows "deep_copier (pointer_view sel view) (pointer_reach sel cells) (new_copy mk sel copy)"
proof (rule deep_copier.intro [OF pointer_value [OF go_value_axioms]], unfold_locales, goal_cases)
  case (1 h p q h')
  show ?case
  proof (cases "read_pointer sel h p")
    case None
    with 1(2) have "p = None" by (cases p) (auto simp: read_pointer_def pointer_reach_def)
    with 1 show ?thesis by (simp add: new_copy_def pointer_view_def pointer_reach_def read_pointer_def)
  next
    case (Some x)
    obtain y h1 where y: "copy x h = (y, h1)" by fastforce
    obtain a h2 where a: "alloc (mk y) h1 = (a, h2)" by fastforce
    from 1(3) have res: "q = Some a" "h' = h2" by (simp_all add: new_copy_def Some y a)
    from 1(2) have "cells h x \<subseteq> allocated h" by (simp add: pointer_reach_def Some)
    from copies [OF 1(1) this y] have copied: "extends h h1" "view h1 y = view h x" "cells h1 y \<subseteq> allocated h1 - allocated h"
      by simp_all
    then have "wf_heap h1" by (simp add: extends_def)
    note ext = alloc_extends [OF this a] and new = alloc_cell [OF a] alloc_fresh [OF this a]
    have "cells h1 y \<subseteq> allocated h1" using copied(3) by blast
    note kept = extended [OF ext this]
    have read: "read_pointer sel h2 (Some a) = Some y" using conjunct1 [OF new(1)] by (simp add: read_pointer_def sel)
    have "a \<in> allocated h2" "a \<notin> allocated h" using new extends_allocated [OF copied(1)] by auto
    moreover have "cells h2 y \<subseteq> allocated h2 - allocated h"
      using kept(2) copied(3) extends_allocated [OF copied(1)] extends_allocated [OF ext] by blast
    ultimately have "{a} \<union> cells h2 y \<subseteq> allocated h2 - allocated h" by simp
    then show ?thesis
      using extends_trans [OF copied(1) ext] kept copied(2) by (simp add: res pointer_view_def pointer_reach_def read Some)
  qed
qed

end

end
