(* ===== verification/Deep_Copy.thy ===== *)
theory Deep_Copy
  imports Go_Heap Mem_Api
begin

text \<open>
  The generated file \<open>api/v1alpha1/zz_generated.deepcopy.go\<close>, function by function. \<open>DeepCopyInto\<close>
  takes the struct it copies and returns the struct it writes. The copy functions of
  \<open>k8s.io/apimachinery\<close> are not part of the repository; they are a parameter, and
  \<open>library_copies\<close> says of them what their documentation says: that they copy deeply.
\<close>

section \<open>The library's copy functions\<close>

record library =
  ObjectMeta_DeepCopyInto :: "ObjectMetaRep \<Rightarrow> heap \<Rightarrow> ObjectMetaRep \<times> heap"
  ListMeta_DeepCopyInto :: "ListMetaRep \<Rightarrow> heap \<Rightarrow> ListMetaRep \<times> heap"
  RawExtension_DeepCopyInto :: "RawExtensionRep \<Rightarrow> heap \<Rightarrow> RawExtensionRep \<times> heap"
  Condition_DeepCopyInto :: "Condition \<Rightarrow> heap \<Rightarrow> Condition \<times> heap"
  Time_DeepCopy :: "pointer \<Rightarrow> heap \<Rightarrow> pointer \<times> heap"

section \<open>The generated functions\<close>

definition zero_Condition :: Condition where
  "zero_Condition = \<lparr>cd_Type = [], cd_Status = [], cd_ObservedGeneration = 0, cd_LastTransitionTime = 0,
     cd_Reason = [], cd_Message = []\<rparr>"

definition zero_ClusterStatusRep :: ClusterStatusRep where
  "zero_ClusterStatusRep = \<lparr>rcs_Name = [], rcs_Role = [], rcs_Phase = [], rcs_ObservedGeneration = 0,
     rcs_Conditions = None, rcs_Endpoint = [], rcs_LastSyncedAt = None\<rparr>"

definition zero_PostgresMCRep :: PostgresMCRep where
  "zero_PostgresMCRep = \<lparr>rmc_TypeMeta = \<lparr>tm_Kind = [], tm_APIVersion = []\<rparr>,
     rmc_ObjectMeta = \<lparr>om_Name = [], om_Namespace = [], om_Generation = 0, om_DeletionTimestamp = None, om_Finalizers = None\<rparr>,
     rmc_Spec = \<lparr>rsp_TeamID = [], rsp_Clusters = None, rsp_PostgresqlSpec = \<lparr>raw_Raw = None\<rparr>, rsp_Replication = \<lparr>rs_Mode = []\<rparr>,
       rsp_ReplicationService = \<lparr>rsc_Type = [], rsc_NodePort = 0\<rparr>,
       rsp_AutoFailover = \<lparr>af_Enabled = False, af_PrimaryUnreachableThreshold = 0\<rparr>\<rparr>,
     rmc_Status = \<lparr>rst_Phase = [], rst_ObservedGeneration = 0, rst_CurrentPrimary = [], rst_Conditions = None,
       rst_Clusters = None, rst_PrimaryFailureCount = 0\<rparr>\<rparr>"

fun auto_failover_of :: "cell \<Rightarrow> AutoFailoverSpec" where
  "auto_failover_of (AutoFailoverCell x) = x" | "auto_failover_of _ = rsp_AutoFailover (rmc_Spec zero_PostgresMCRep)"

fun replication_service_of :: "cell \<Rightarrow> ReplicationServiceConfig" where
  "replication_service_of (ReplicationServiceCell x) = x"
| "replication_service_of _ = rsp_ReplicationService (rmc_Spec zero_PostgresMCRep)"

fun replication_of :: "cell \<Rightarrow> ReplicationSpec" where
  "replication_of (ReplicationCell x) = x" | "replication_of _ = rsp_Replication (rmc_Spec zero_PostgresMCRep)"

fun target_of :: "cell \<Rightarrow> ClusterTarget" where
  "target_of (TargetCell x) = x" | "target_of _ = zero_ClusterTarget"

fun cluster_status_of :: "cell \<Rightarrow> ClusterStatusRep" where
  "cluster_status_of (ClusterStatusCell x) = x" | "cluster_status_of _ = zero_ClusterStatusRep"

fun spec_of :: "cell \<Rightarrow> PostgresMCSpecRep" where
  "spec_of (SpecCell x) = x" | "spec_of _ = rmc_Spec zero_PostgresMCRep"

fun status_of :: "cell \<Rightarrow> PostgresMCStatusRep" where
  "status_of (StatusCell x) = x" | "status_of _ = rmc_Status zero_PostgresMCRep"

fun postgresmc_of :: "cell \<Rightarrow> PostgresMCRep" where
  "postgresmc_of (PostgresMCCell x) = x" | "postgresmc_of _ = zero_PostgresMCRep"

fun postgresmc_list_of :: "cell \<Rightarrow> PostgresMCListRep" where
  "postgresmc_list_of (PostgresMCListCell x) = x"
| "postgresmc_list_of _ = \<lparr>rls_TypeMeta = \<lparr>tm_Kind = [], tm_APIVersion = []\<rparr>,
     rls_ListMeta = \<lparr>lm_ResourceVersion = [], lm_Continue = [], lm_RemainingItemCount = None\<rparr>, rls_Items = None\<rparr>"

text \<open>A call guarded by \<open>if in.Field != nil\<close>.\<close>

definition if_not_nil :: "(pointer \<Rightarrow> heap \<Rightarrow> pointer \<times> heap) \<Rightarrow> pointer \<Rightarrow> heap \<Rightarrow> pointer \<times> heap" where
  "if_not_nil f p h = (case p of None \<Rightarrow> (None, h) | Some a \<Rightarrow> f (Some a) h)"

definition AutoFailoverSpec_DeepCopyInto :: "AutoFailoverSpec \<Rightarrow> heap \<Rightarrow> AutoFailoverSpec \<times> heap" where
  "AutoFailoverSpec_DeepCopyInto inp h = (inp, h)"

definition AutoFailoverSpec_DeepCopy :: "pointer \<Rightarrow> heap \<Rightarrow> pointer \<times> heap" where
  "AutoFailoverSpec_DeepCopy = new_copy AutoFailoverCell auto_failover_of AutoFailoverSpec_DeepCopyInto"

definition ClusterStatus_DeepCopyInto :: "library \<Rightarrow> ClusterStatusRep \<Rightarrow> heap \<Rightarrow> ClusterStatusRep \<times> heap" where
  "ClusterStatus_DeepCopyInto L inp h =
     (let out = inp;
          (conditions, h1) = copy_slice ConditionArray conditions_of zero_Condition (Condition_DeepCopyInto L) (rcs_Conditions inp) h;
          (synced, h2) = if_not_nil (Time_DeepCopy L) (rcs_LastSyncedAt inp) h1
      in (out\<lparr>rcs_Conditions := conditions, rcs_LastSyncedAt := synced\<rparr>, h2))"

definition ClusterStatus_DeepCopy :: "library \<Rightarrow> pointer \<Rightarrow> heap \<Rightarrow> pointer \<times> heap" where
  "ClusterStatus_DeepCopy L = new_copy ClusterStatusCell cluster_status_of (ClusterStatus_DeepCopyInto L)"

definition ClusterTarget_DeepCopyInto :: "ClusterTarget \<Rightarrow> heap \<Rightarrow> ClusterTarget \<times> heap" where
  "ClusterTarget_DeepCopyInto inp h = (inp, h)"

definition ClusterTarget_DeepCopy :: "pointer \<Rightarrow> heap \<Rightarrow> pointer \<times> heap" where
  "ClusterTarget_DeepCopy = new_copy TargetCell target_of ClusterTarget_DeepCopyInto"

definition ReplicationServiceConfig_DeepCopyInto ::
  "ReplicationServiceConfig \<Rightarrow> heap \<Rightarrow> ReplicationServiceConfig \<times> heap" where
  "ReplicationServiceConfig_DeepCopyInto inp h = (inp, h)"

definition ReplicationServiceConfig_DeepCopy :: "pointer \<Rightarrow> heap \<Rightarrow> pointer \<times> heap" where
  "ReplicationServiceConfig_DeepCopy =
     new_copy ReplicationServiceCell replication_service_of ReplicationServiceConfig_DeepCopyInto"

definition ReplicationSpec_DeepCopyInto :: "ReplicationSpec \<Rightarrow> heap \<Rightarrow> ReplicationSpec \<times> heap" where
  "ReplicationSpec_DeepCopyInto inp h = (inp, h)"

definition ReplicationSpec_DeepCopy :: "pointer \<Rightarrow> heap \<Rightarrow> pointer \<times> heap" where
  "ReplicationSpec_DeepCopy = new_copy ReplicationCell replication_of ReplicationSpec_DeepCopyInto"

text \<open>The clusters of the spec are copied by \<open>copy\<close>: they hold no pointers.\<close>

definition PostgresMCSpec_DeepCopyInto :: "library \<Rightarrow> PostgresMCSpecRep \<Rightarrow> heap \<Rightarrow> PostgresMCSpecRep \<times> heap" where
  "PostgresMCSpec_DeepCopyInto L inp h =
     (let out = inp;
          (clusters, h1) = copy_slice TargetArray targets_of zero_ClusterTarget (\<lambda>x h. (x, h)) (rsp_Clusters inp) h;
          (blob, h2) = RawExtension_DeepCopyInto L (rsp_PostgresqlSpec inp) h1
      in (out\<lparr>rsp_Clusters := clusters, rsp_PostgresqlSpec := blob, rsp_Replication := rsp_Replication inp,
            rsp_ReplicationService := rsp_ReplicationService inp, rsp_AutoFailover := rsp_AutoFailover inp\<rparr>, h2))"

definition PostgresMCSpec_DeepCopy :: "library \<Rightarrow> pointer \<Rightarrow> heap \<Rightarrow> pointer \<times> heap" where
  "PostgresMCSpec_DeepCopy L = new_copy SpecCell spec_of (PostgresMCSpec_DeepCopyInto L)"

definition PostgresMCStatus_DeepCopyInto :: "library \<Rightarrow> PostgresMCStatusRep \<Rightarrow> heap \<Rightarrow> PostgresMCStatusRep \<times> heap" where
  "PostgresMCStatus_DeepCopyInto L inp h =
     (let out = inp;
          (conditions, h1) = copy_slice ConditionArray conditions_of zero_Condition (Condition_DeepCopyInto L) (rst_Conditions inp) h;
          (clusters, h2) = copy_slice ClusterStatusArray statuses_of zero_ClusterStatusRep (ClusterStatus_DeepCopyInto L)
             (rst_Clusters inp) h1
      in (out\<lparr>rst_Conditions := conditions, rst_Clusters := clusters\<rparr>, h2))"

definition PostgresMCStatus_DeepCopy :: "library \<Rightarrow> pointer \<Rightarrow> heap \<Rightarrow> pointer \<times> heap" where
  "PostgresMCStatus_DeepCopy L = new_copy StatusCell status_of (PostgresMCStatus_DeepCopyInto L)"

definition PostgresMC_DeepCopyInto :: "library \<Rightarrow> PostgresMCRep \<Rightarrow> heap \<Rightarrow> PostgresMCRep \<times> heap" where
  "PostgresMC_DeepCopyInto L inp h =
     (let out = inp\<lparr>rmc_TypeMeta := rmc_TypeMeta inp\<rparr>;
          (meta, h1) = ObjectMeta_DeepCopyInto L (rmc_ObjectMeta inp) h;
          (spec, h2) = PostgresMCSpec_DeepCopyInto L (rmc_Spec inp) h1;
          (status, h3) = PostgresMCStatus_DeepCopyInto L (rmc_Status inp) h2
      in (out\<lparr>rmc_ObjectMeta := meta, rmc_Spec := spec, rmc_Status := status\<rparr>, h3))"

definition PostgresMC_DeepCopy :: "library \<Rightarrow> pointer \<Rightarrow> heap \<Rightarrow> pointer \<times> heap" where
  "PostgresMC_DeepCopy L = new_copy PostgresMCCell postgresmc_of (PostgresMC_DeepCopyInto L)"

text \<open>The result of \<open>DeepCopyObject\<close> is an interface: nil, not a typed nil pointer, for nil.\<close>

definition PostgresMC_DeepCopyObject :: "library \<Rightarrow> pointer \<Rightarrow> heap \<Rightarrow> pointer \<times> heap" where
  "PostgresMC_DeepCopyObject L inp h =
     (case PostgresMC_DeepCopy L inp h of (Some c, h1) \<Rightarrow> (Some c, h1) | (None, h1) \<Rightarrow> (None, h1))"

definition PostgresMCList_DeepCopyInto :: "library \<Rightarrow> PostgresMCListRep \<Rightarrow> heap \<Rightarrow> PostgresMCListRep \<times> heap" where
  "PostgresMCList_DeepCopyInto L inp h =
     (let out = inp\<lparr>rls_TypeMeta := rls_TypeMeta inp\<rparr>;
          (meta, h1) = ListMeta_DeepCopyInto L (rls_ListMeta inp) h;
          (items, h2) = copy_slice PostgresMCArray items_of zero_PostgresMCRep (PostgresMC_DeepCopyInto L) (rls_Items inp) h1
      in (out\<lparr>rls_ListMeta := meta, rls_Items := items\<rparr>, h2))"

definition PostgresMCList_DeepCopy :: "library \<Rightarrow> pointer \<Rightarrow> heap \<Rightarrow> pointer \<times> heap" where
  "PostgresMCList_DeepCopy L = new_copy PostgresMCListCell postgresmc_list_of (PostgresMCList_DeepCopyInto L)"

definition PostgresMCList_DeepCopyObject :: "library \<Rightarrow> pointer \<Rightarrow> heap \<Rightarrow> pointer \<times> heap" where
  "PostgresMCList_DeepCopyObject L inp h =
     (case PostgresMCList_DeepCopy L inp h of (Some c, h1) \<Rightarrow> (Some c, h1) | (None, h1) \<Rightarrow> (None, h1))"

section \<open>What the structs mean\<close>

definition view_raw :: "heap \<Rightarrow> RawExtensionRep \<Rightarrow> string" where
  "view_raw h r = slice_view bytes_of plain_view h (raw_Raw r)"

definition cells_raw :: "heap \<Rightarrow> RawExtensionRep \<Rightarrow> addr set" where
  "cells_raw h r = slice_reach bytes_of plain_cells h (raw_Raw r)"

definition view_meta :: "heap \<Rightarrow> ObjectMetaRep \<Rightarrow> string \<times> string \<times> int64 \<times> time option \<times> string list" where
  "view_meta h m = (om_Name m, om_Namespace m, om_Generation m,
     pointer_view time_of plain_view h (om_DeletionTimestamp m), slice_view strings_of plain_view h (om_Finalizers m))"

definition cells_meta :: "heap \<Rightarrow> ObjectMetaRep \<Rightarrow> addr set" where
  "cells_meta h m = pointer_reach time_of plain_cells h (om_DeletionTimestamp m) \<union>
     slice_reach strings_of plain_cells h (om_Finalizers m)"

definition view_list_meta :: "heap \<Rightarrow> ListMetaRep \<Rightarrow> string \<times> string \<times> int64 option" where
  "view_list_meta h m = (lm_ResourceVersion m, lm_Continue m, pointer_view int64_of plain_view h (lm_RemainingItemCount m))"

definition cells_list_meta :: "heap \<Rightarrow> ListMetaRep \<Rightarrow> addr set" where
  "cells_list_meta h m = pointer_reach int64_of plain_cells h (lm_RemainingItemCount m)"

definition view_cluster_status :: "heap \<Rightarrow> ClusterStatusRep \<Rightarrow> ClusterStatus" where
  "view_cluster_status h r =
     \<lparr>cs_Name = rcs_Name r, cs_Role = rcs_Role r, cs_Phase = rcs_Phase r, cs_ObservedGeneration = rcs_ObservedGeneration r,
      cs_Conditions = slice_view conditions_of plain_view h (rcs_Conditions r), cs_Endpoint = rcs_Endpoint r,
      cs_LastSyncedAt = pointer_view time_of plain_view h (rcs_LastSyncedAt r)\<rparr>"

definition cells_cluster_status :: "heap \<Rightarrow> ClusterStatusRep \<Rightarrow> addr set" where
  "cells_cluster_status h r = slice_reach conditions_of plain_cells h (rcs_Conditions r) \<union>
     pointer_reach time_of plain_cells h (rcs_LastSyncedAt r)"

definition view_spec :: "heap \<Rightarrow> PostgresMCSpecRep \<Rightarrow> PostgresMCSpec" where
  "view_spec h r =
     \<lparr>sp_TeamID = rsp_TeamID r, sp_Clusters = slice_view targets_of plain_view h (rsp_Clusters r),
      sp_PostgresqlSpec = view_raw h (rsp_PostgresqlSpec r), sp_Replication = rsp_Replication r,
      sp_ReplicationService = rsp_ReplicationService r, sp_AutoFailover = rsp_AutoFailover r\<rparr>"

definition cells_spec :: "heap \<Rightarrow> PostgresMCSpecRep \<Rightarrow> addr set" where
  "cells_spec h r = slice_reach targets_of plain_cells h (rsp_Clusters r) \<union> cells_raw h (rsp_PostgresqlSpec r)"

definition view_status :: "heap \<Rightarrow> PostgresMCStatusRep \<Rightarrow> PostgresMCStatus" where
  "view_status h r =
     \<lparr>st_Phase = rst_Phase r, st_ObservedGeneration = rst_ObservedGeneration r, st_CurrentPrimary = rst_CurrentPrimary r,
      st_Conditions = slice_view conditions_of plain_view h (rst_Conditions r),
      st_Clusters = slice_view statuses_of view_cluster_status h (rst_Clusters r),
      st_PrimaryFailureCount = rst_PrimaryFailureCount r\<rparr>"

definition cells_status :: "heap \<Rightarrow> PostgresMCStatusRep \<Rightarrow> addr set" where
  "cells_status h r = slice_reach conditions_of plain_cells h (rst_Conditions r) \<union>
     slice_reach statuses_of cells_cluster_status h (rst_Clusters r)"

definition view_mc :: "heap \<Rightarrow> PostgresMCRep \<Rightarrow> PostgresMC" where
  "view_mc h r = (case view_meta h (rmc_ObjectMeta r) of (name, namespace, generation, deleted, finalizers) \<Rightarrow>
     \<lparr>mc_Name = name, mc_Namespace = namespace, mc_Generation = generation, mc_DeletionTimestamp = deleted,
      mc_Finalizers = finalizers, mc_Spec = view_spec h (rmc_Spec r), mc_Status = view_status h (rmc_Status r)\<rparr>)"

definition cells_mc :: "heap \<Rightarrow> PostgresMCRep \<Rightarrow> addr set" where
  "cells_mc h r = cells_meta h (rmc_ObjectMeta r) \<union> (cells_spec h (rmc_Spec r) \<union> cells_status h (rmc_Status r))"

definition view_list :: "heap \<Rightarrow> PostgresMCListRep \<Rightarrow> TypeMeta \<times> (string \<times> string \<times> int64 option) \<times> PostgresMC list" where
  "view_list h r = (rls_TypeMeta r, view_list_meta h (rls_ListMeta r), slice_view items_of view_mc h (rls_Items r))"

definition cells_list :: "heap \<Rightarrow> PostgresMCListRep \<Rightarrow> addr set" where
  "cells_list h r = cells_list_meta h (rls_ListMeta r) \<union> slice_reach items_of cells_mc h (rls_Items r)"

text \<open>The documented behaviour of the library: every function copies deeply.\<close>

definition library_copies :: "library \<Rightarrow> bool" where
  "library_copies L \<longleftrightarrow>
     deep_copier view_meta cells_meta (ObjectMeta_DeepCopyInto L) \<and>
     deep_copier view_list_meta cells_list_meta (ListMeta_DeepCopyInto L) \<and>
     deep_copier view_raw cells_raw (RawExtension_DeepCopyInto L) \<and>
     deep_copier plain_view plain_cells (Condition_DeepCopyInto L) \<and>
     deep_copier (pointer_view time_of plain_view) (pointer_reach time_of plain_cells) (Time_DeepCopy L)"

section \<open>The generated functions copy deeply\<close>

interpretation auto_failover: deep_copier plain_view plain_cells AutoFailoverSpec_DeepCopyInto
  using plain_copier by (simp add: AutoFailoverSpec_DeepCopyInto_def [abs_def])

interpretation cluster_target: deep_copier plain_view plain_cells ClusterTarget_DeepCopyInto
  using plain_copier by (simp add: ClusterTarget_DeepCopyInto_def [abs_def])

interpretation replication_service: deep_copier plain_view plain_cells ReplicationServiceConfig_DeepCopyInto
  using plain_copier by (simp add: ReplicationServiceConfig_DeepCopyInto_def [abs_def])

interpretation replication: deep_copier plain_view plain_cells ReplicationSpec_DeepCopyInto
  using plain_copier by (simp add: ReplicationSpec_DeepCopyInto_def [abs_def])

lemma not_nil_copier:
  assumes "deep_copier (pointer_view sel v) (pointer_reach sel c) f"
  shows "deep_copier (pointer_view sel v) (pointer_reach sel c) (if_not_nil f)"
proof (rule deep_copier.intro [OF deep_copier.axioms(1) [OF assms]], unfold_locales, goal_cases)
  case (1 h p q h')
  then show ?case
    using deep_copier.copies [OF assms, of h p q h']
    by (cases p) (auto simp: if_not_nil_def pointer_view_def pointer_reach_def read_pointer_def)
qed

lemma library_copiers:
  assumes "library_copies L"
  shows "deep_copier view_meta cells_meta (ObjectMeta_DeepCopyInto L)"
    "deep_copier view_list_meta cells_list_meta (ListMeta_DeepCopyInto L)"
    "deep_copier view_raw cells_raw (RawExtension_DeepCopyInto L)"
    "deep_copier plain_view plain_cells (Condition_DeepCopyInto L)"
    "deep_copier (pointer_view time_of plain_view) (pointer_reach time_of plain_cells) (if_not_nil (Time_DeepCopy L))"
  using assms not_nil_copier unfolding library_copies_def by blast+

lemma conditions_copier:
  "library_copies L \<Longrightarrow> deep_copier (slice_view conditions_of plain_view) (slice_reach conditions_of plain_cells)
     (copy_slice ConditionArray conditions_of zero_Condition (Condition_DeepCopyInto L))"
  by (rule deep_copier.slice_copier [OF library_copiers(4)]) simp_all

lemma ClusterStatus_copier:
  assumes "library_copies L"
  shows "deep_copier view_cluster_status cells_cluster_status (ClusterStatus_DeepCopyInto L)"
proof (rule struct_copier [OF pair_copier [OF conditions_copier [OF assms] library_copiers(5) [OF assms]],
      where parts = "\<lambda>r. (rcs_Conditions r, rcs_LastSyncedAt r)"
        and put = "\<lambda>(cs, t) r. r\<lparr>rcs_Conditions := cs, rcs_LastSyncedAt := t\<rparr>"
        and build = "\<lambda>r (cs, t). \<lparr>cs_Name = rcs_Name r, cs_Role = rcs_Role r, cs_Phase = rcs_Phase r,
          cs_ObservedGeneration = rcs_ObservedGeneration r, cs_Conditions = cs, cs_Endpoint = rcs_Endpoint r, cs_LastSyncedAt = t\<rparr>"])
qed (auto simp: view_cluster_status_def cells_cluster_status_def ClusterStatus_DeepCopyInto_def pair_defs split: prod.splits)

lemma Spec_copier:
  assumes "library_copies L"
  shows "deep_copier view_spec cells_spec (PostgresMCSpec_DeepCopyInto L)"
proof (rule struct_copier [OF pair_copier [OF deep_copier.slice_copier [OF plain_copier, of targets_of TargetArray zero_ClusterTarget]
        library_copiers(3) [OF assms]],
      where parts = "\<lambda>r. (rsp_Clusters r, rsp_PostgresqlSpec r)"
        and put = "\<lambda>(cs, raw) r. r\<lparr>rsp_Clusters := cs, rsp_PostgresqlSpec := raw\<rparr>"
        and build = "\<lambda>r (cs, raw). \<lparr>sp_TeamID = rsp_TeamID r, sp_Clusters = cs, sp_PostgresqlSpec = raw,
          sp_Replication = rsp_Replication r, sp_ReplicationService = rsp_ReplicationService r, sp_AutoFailover = rsp_AutoFailover r\<rparr>"])
qed (auto simp: view_spec_def cells_spec_def PostgresMCSpec_DeepCopyInto_def pair_defs split: prod.splits)

lemma Status_copier:
  assumes "library_copies L"
  shows "deep_copier view_status cells_status (PostgresMCStatus_DeepCopyInto L)"
proof (rule struct_copier [OF pair_copier [OF conditions_copier [OF assms]
        deep_copier.slice_copier [OF ClusterStatus_copier [OF assms], of statuses_of ClusterStatusArray zero_ClusterStatusRep]],
      where parts = "\<lambda>r. (rst_Conditions r, rst_Clusters r)"
        and put = "\<lambda>(conds, cs) r. r\<lparr>rst_Conditions := conds, rst_Clusters := cs\<rparr>"
        and build = "\<lambda>r (conds, cs). \<lparr>st_Phase = rst_Phase r, st_ObservedGeneration = rst_ObservedGeneration r,
          st_CurrentPrimary = rst_CurrentPrimary r, st_Conditions = conds, st_Clusters = cs,
          st_PrimaryFailureCount = rst_PrimaryFailureCount r\<rparr>"])
qed (auto simp: view_status_def cells_status_def PostgresMCStatus_DeepCopyInto_def pair_defs split: prod.splits)

lemma PostgresMC_copier:
  assumes "library_copies L"
  shows "deep_copier view_mc cells_mc (PostgresMC_DeepCopyInto L)"
proof (rule struct_copier [OF pair_copier [OF library_copiers(1) [OF assms] pair_copier [OF Spec_copier [OF assms] Status_copier [OF assms]]],
      where parts = "\<lambda>r. (rmc_ObjectMeta r, rmc_Spec r, rmc_Status r)"
        and put = "\<lambda>(m, sp, st) r. r\<lparr>rmc_ObjectMeta := m, rmc_Spec := sp, rmc_Status := st\<rparr>"
        and build = "\<lambda>r ((name, namespace, generation, deleted, finalizers), sp, st).
          \<lparr>mc_Name = name, mc_Namespace = namespace, mc_Generation = generation, mc_DeletionTimestamp = deleted,
           mc_Finalizers = finalizers, mc_Spec = sp, mc_Status = st\<rparr>"])
qed (auto simp: view_mc_def cells_mc_def PostgresMC_DeepCopyInto_def pair_defs split: prod.splits)

lemma PostgresMCList_copier:
  assumes "library_copies L"
  shows "deep_copier view_list cells_list (PostgresMCList_DeepCopyInto L)"
proof (rule struct_copier [OF pair_copier [OF library_copiers(2) [OF assms]
        deep_copier.slice_copier [OF PostgresMC_copier [OF assms], of items_of PostgresMCArray zero_PostgresMCRep]],
      where parts = "\<lambda>r. (rls_ListMeta r, rls_Items r)"
        and put = "\<lambda>(m, items) r. r\<lparr>rls_ListMeta := m, rls_Items := items\<rparr>"
        and build = "\<lambda>r (m, items). (rls_TypeMeta r, m, items)"])
qed (auto simp: view_list_def cells_list_def PostgresMCList_DeepCopyInto_def pair_defs split: prod.splits)

section \<open>An instance of the library\<close>

text \<open>The documented behaviour can be had: functions that copy field by field.\<close>

definition copy_time :: "pointer \<Rightarrow> heap \<Rightarrow> pointer \<times> heap" where
  "copy_time = new_copy TimeCell time_of (\<lambda>x h. (x, h))"

definition std_library :: library where
  "std_library = \<lparr>
     ObjectMeta_DeepCopyInto = (\<lambda>m h.
       (let (deleted, h1) = copy_time (om_DeletionTimestamp m) h;
            (finalizers, h2) = copy_slice StringArray strings_of [] (\<lambda>x h. (x, h)) (om_Finalizers m) h1
        in (m\<lparr>om_DeletionTimestamp := deleted, om_Finalizers := finalizers\<rparr>, h2))),
     ListMeta_DeepCopyInto = (\<lambda>m h.
       (let (remaining, h1) = new_copy Int64Cell int64_of (\<lambda>x h. (x, h)) (lm_RemainingItemCount m) h
        in (m\<lparr>lm_RemainingItemCount := remaining\<rparr>, h1))),
     RawExtension_DeepCopyInto = (\<lambda>r h.
       (let (raw, h1) = copy_slice ByteArray bytes_of (CHR 0x00) (\<lambda>x h. (x, h)) (raw_Raw r) h in (r\<lparr>raw_Raw := raw\<rparr>, h1))),
     Condition_DeepCopyInto = (\<lambda>c h. (c, h)),
     Time_DeepCopy = copy_time\<rparr>"

lemma copy_time_copier: "deep_copier (pointer_view time_of plain_view) (pointer_reach time_of plain_cells) copy_time"
  unfolding copy_time_def by (rule deep_copier.pointer_copier [OF plain_copier]) simp

lemma std_library_copies: "library_copies std_library"
proof -
  have "deep_copier view_meta cells_meta (ObjectMeta_DeepCopyInto std_library)"
    by (rule struct_copier [OF pair_copier [OF copy_time_copier
          deep_copier.slice_copier [OF plain_copier, of strings_of StringArray "[]"]],
        where parts = "\<lambda>m. (om_DeletionTimestamp m, om_Finalizers m)"
          and put = "\<lambda>(d, f) m. m\<lparr>om_DeletionTimestamp := d, om_Finalizers := f\<rparr>"
          and build = "\<lambda>m (d, f). (om_Name m, om_Namespace m, om_Generation m, d, f)"])
      (auto simp: view_meta_def cells_meta_def std_library_def pair_defs split: prod.splits)
  moreover have "deep_copier view_list_meta cells_list_meta (ListMeta_DeepCopyInto std_library)"
    by (rule struct_copier [OF deep_copier.pointer_copier [OF plain_copier, of int64_of Int64Cell],
        where parts = lm_RemainingItemCount and put = "\<lambda>r m. m\<lparr>lm_RemainingItemCount := r\<rparr>"
          and build = "\<lambda>m r. (lm_ResourceVersion m, lm_Continue m, r)"])
      (auto simp: view_list_meta_def cells_list_meta_def std_library_def split: prod.splits)
  moreover have "deep_copier view_raw cells_raw (RawExtension_DeepCopyInto std_library)"
    by (rule struct_copier [OF deep_copier.slice_copier [OF plain_copier, of bytes_of ByteArray "CHR 0x00"],
        where parts = raw_Raw and put = "\<lambda>r m. m\<lparr>raw_Raw := r\<rparr>" and build = "\<lambda>m r. r"])
      (auto simp: view_raw_def cells_raw_def std_library_def split: prod.splits)
  ultimately show ?thesis
    using plain_copier copy_time_copier by (simp add: library_copies_def std_library_def)
qed

interpretation std_status: deep_copier view_cluster_status cells_cluster_status "ClusterStatus_DeepCopyInto std_library"
  by (rule ClusterStatus_copier [OF std_library_copies])

interpretation std_mc: deep_copier view_mc cells_mc "PostgresMC_DeepCopyInto std_library"
  by (rule PostgresMC_copier [OF std_library_copies])

section \<open>Copies are independent\<close>

lemma DeepCopyObject_eq: "PostgresMC_DeepCopyObject L = PostgresMC_DeepCopy L" "PostgresMCList_DeepCopyObject L = PostgresMCList_DeepCopy L"
  by (auto simp: PostgresMC_DeepCopyObject_def PostgresMCList_DeepCopyObject_def fun_eq_iff split: prod.splits option.splits)

lemma DeepCopy_nil: "PostgresMC_DeepCopyObject L None h = (None, h)" "PostgresMCList_DeepCopyObject L None h = (None, h)"
  by (simp_all add: DeepCopyObject_eq PostgresMC_DeepCopy_def PostgresMCList_DeepCopy_def new_copy_def read_pointer_def)

text \<open>\<open>new(T)\<close> filled by a function that copies deeply.\<close>

lemma new_copy_isolated:
  assumes copier: "deep_copier view cells into" and sel: "\<And>x. sel (mk x) = x"
    and h: "wf_heap h" "hp_cells h p = Some (mk r)" "cells h r \<subseteq> allocated h"
    and c: "new_copy mk sel into (Some p) h = (q, h')"
  obtains a r' where "q = Some a" "hp_cells h' a = Some (mk r')" "view h' r' = view h r"
    "insert a (cells h' r') \<subseteq> allocated h' - allocated h" "extends h h'" "into r h = (r', snd (into r h))"
    "extends (snd (into r h)) h'"
    "\<And>h''. agree (allocated h' - allocated h) h' h'' \<Longrightarrow> hp_cells h'' a = Some (mk r') \<and> view h'' r' = view h r"
proof -
  obtain r' h1 where r': "into r h = (r', h1)" by fastforce
  obtain a h2 where a: "alloc (mk r') h1 = (a, h2)" by fastforce
  from c have res: "q = Some a" "h' = h2" by (simp_all add: new_copy_def read_pointer_def h(2) sel r' a)
  from deep_copier.copies [OF copier h(1,3) r']
  have one: "extends h h1" "view h1 r' = view h r" "cells h1 r' \<subseteq> allocated h1 - allocated h" by simp_all
  then have "wf_heap h1" by (simp add: extends_def)
  note e2 = alloc_extends [OF this a] and cell = alloc_cell [OF a] and fresh = alloc_fresh [OF this a]
  have "cells h1 r' \<subseteq> allocated h1" using one(3) by blast
  note kept = go_value.extended [OF deep_copier.axioms(1) [OF copier] e2 this]
  have a2: "a \<in> allocated h2" "a \<notin> allocated h" using cell fresh extends_allocated [OF one(1)] by auto
  moreover have "cells h2 r' \<subseteq> allocated h2 - allocated h" using kept(2) one(3) extends_allocated [OF e2] by blast
  ultimately have new: "insert a (cells h2 r') \<subseteq> allocated h2 - allocated h" by simp
  have later: "hp_cells h'' a = Some (mk r') \<and> view h'' r' = view h r" if "agree (allocated h2 - allocated h) h2 h''" for h''
  proof -
    have "agree (insert a (cells h2 r')) h2 h''" using that new by (rule agree_subset)
    then have "agree (cells h2 r') h2 h''" "hp_cells h'' a = hp_cells h2 a" by (auto simp: agree_def)
    with go_value.frame [OF deep_copier.axioms(1) [OF copier] this(1)] conjunct1 [OF cell] kept(1) one(2) show ?thesis by simp
  qed
  show ?thesis
    using that [OF res(1), of r'] res(2) conjunct1 [OF cell] kept(1) one(2) new extends_trans [OF one(1) e2] r' e2 later by simp
qed

text \<open>
  C28. A deep copy is independent. \<open>DeepCopyObject\<close> (and \<open>DeepCopy\<close>) of a PostgresMC in memory, when the
  library's copy functions copy deeply, returns a pointer to a new struct, writes to no cell that
  was there before, and the copy means what the original meant; and that stays so whatever is
  written later, as long as the cells that the call created are left alone.
\<close>

theorem DeepCopy_isolated:
  assumes "library_copies L" "wf_heap h" "hp_cells h p = Some (PostgresMCCell r)" "cells_mc h r \<subseteq> allocated h"
    and "PostgresMC_DeepCopyObject L (Some p) h = (q, h')"
  shows "\<exists>a r'. q = Some a \<and> a \<notin> allocated h \<and> agree (allocated h) h h' \<and>
    (\<forall>h''. agree (allocated h' - allocated h) h' h'' \<longrightarrow> hp_cells h'' a = Some (PostgresMCCell r') \<and> view_mc h'' r' = view_mc h r)"
proof -
  from assms(5) have "new_copy PostgresMCCell postgresmc_of (PostgresMC_DeepCopyInto L) (Some p) h = (q, h')"
    by (simp add: DeepCopyObject_eq PostgresMC_DeepCopy_def)
  from new_copy_isolated [OF PostgresMC_copier [OF assms(1)] _ assms(2-4) this] obtain a r' where
    "q = Some a" "insert a (cells_mc h' r') \<subseteq> allocated h' - allocated h" "extends h h'"
    "\<And>h''. agree (allocated h' - allocated h) h' h'' \<Longrightarrow> hp_cells h'' a = Some (PostgresMCCell r') \<and> view_mc h'' r' = view_mc h r"
    by (metis postgresmc_of.simps(1))
  then show ?thesis unfolding extends_def by blast
qed

lemma DeepCopy_list_isolated:
  assumes "library_copies L" "wf_heap h" "hp_cells h p = Some (PostgresMCListCell r)" "cells_list h r \<subseteq> allocated h"
    and "PostgresMCList_DeepCopyObject L (Some p) h = (q, h')"
  shows "\<exists>a r'. q = Some a \<and> a \<notin> allocated h \<and> agree (allocated h) h h' \<and>
    (\<forall>h''. agree (allocated h' - allocated h) h' h'' \<longrightarrow> hp_cells h'' a = Some (PostgresMCListCell r') \<and> view_list h'' r' = view_list h r)"
proof -
  from assms(5) have "new_copy PostgresMCListCell postgresmc_list_of (PostgresMCList_DeepCopyInto L) (Some p) h = (q, h')"
    by (simp add: DeepCopyObject_eq PostgresMCList_DeepCopy_def)
  from new_copy_isolated [OF PostgresMCList_copier [OF assms(1)] _ assms(2-4) this] obtain a r' where
    "q = Some a" "insert a (cells_list h' r') \<subseteq> allocated h' - allocated h" "extends h h'"
    "\<And>h''. agree (allocated h' - allocated h) h' h'' \<Longrightarrow> hp_cells h'' a = Some (PostgresMCListCell r') \<and> view_list h'' r' = view_list h r"
    by (metis postgresmc_list_of.simps(1))
  then show ?thesis unfolding extends_def by blast
qed

text \<open>The sample resource in memory, with one status entry and spare capacity behind its condition.\<close>

definition sample_rep :: PostgresMCRep where
  "sample_rep = \<lparr>rmc_TypeMeta = \<lparr>tm_Kind = ''PostgresMC'', tm_APIVersion = ''pgmc.aurelops.com/v1alpha1''\<rparr>,
     rmc_ObjectMeta = \<lparr>om_Name = ''db'', om_Namespace = ''sys'', om_Generation = 1, om_DeletionTimestamp = None,
       om_Finalizers = Some (6, 1)\<rparr>,
     rmc_Spec = \<lparr>rsp_TeamID = ''app'', rsp_Clusters = Some (1, 2), rsp_PostgresqlSpec = \<lparr>raw_Raw = Some (5, 2)\<rparr>,
       rsp_Replication = \<lparr>rs_Mode = ''async''\<rparr>,
       rsp_ReplicationService = \<lparr>rsc_Type = ServiceTypeNodePort, rsc_NodePort = 32432\<rparr>,
       rsp_AutoFailover = \<lparr>af_Enabled = True, af_PrimaryUnreachableThreshold = 3\<rparr>\<rparr>,
     rmc_Status = \<lparr>rst_Phase = ''Ready'', rst_ObservedGeneration = 1, rst_CurrentPrimary = ''eu'', rst_Conditions = Some (2, 1),
       rst_Clusters = Some (3, 1), rst_PrimaryFailureCount = 3\<rparr>\<rparr>"

definition sample_condition :: Condition where
  "sample_condition = \<lparr>cd_Type = ConditionReady, cd_Status = ConditionTrue, cd_ObservedGeneration = 1,
     cd_LastTransitionTime = 7, cd_Reason = ''ReconcileSuccess'', cd_Message = []\<rparr>"

definition sample_heap :: heap where
  "sample_heap = \<lparr>hp_cells = [0 \<mapsto> PostgresMCCell sample_rep, 1 \<mapsto> TargetArray [sample_eu, sample_us],
       2 \<mapsto> ConditionArray [sample_condition, zero_Condition],
       3 \<mapsto> ClusterStatusArray [zero_ClusterStatusRep\<lparr>rcs_Name := ''eu'', rcs_Conditions := Some (4, 1)\<rparr>],
       4 \<mapsto> ConditionArray [sample_condition], 5 \<mapsto> ByteArray ''{}'', 6 \<mapsto> StringArray [''pgmc.aurelops.com/finalizer'']],
     hp_next = 7\<rparr>"

lemma sample_heap_wf: "wf_heap sample_heap"
  by (simp add: wf_heap_def sample_heap_def)

lemma sample_heap_cells:
  "hp_cells sample_heap 0 = Some (PostgresMCCell sample_rep)" "hp_cells sample_heap 1 = Some (TargetArray [sample_eu, sample_us])"
  "hp_cells sample_heap 2 = Some (ConditionArray [sample_condition, zero_Condition])"
  "hp_cells sample_heap 3 = Some (ClusterStatusArray [zero_ClusterStatusRep\<lparr>rcs_Name := ''eu'', rcs_Conditions := Some (4, 1)\<rparr>])"
  "hp_cells sample_heap 4 = Some (ConditionArray [sample_condition])" "hp_cells sample_heap 5 = Some (ByteArray ''{}'')"
  "hp_cells sample_heap 6 = Some (StringArray [''pgmc.aurelops.com/finalizer''])"
  "hp_cells sample_heap (Suc 0) = Some (TargetArray [sample_eu, sample_us])"
  by (simp_all add: sample_heap_def)

lemma sample_heap_closed: "cells_mc sample_heap sample_rep \<subseteq> allocated sample_heap"
  by (simp add: cells_mc_def cells_meta_def cells_spec_def cells_raw_def cells_status_def cells_cluster_status_def slice_reach_def
      pointer_reach_def elem_cells_def plain_cells_def read_pointer_def sample_rep_def zero_ClusterStatusRep_def sample_heap_cells)
    (simp add: sample_heap_def)

lemma DeepCopy_isolated_witness:
  "\<exists>a r' h'. PostgresMC_DeepCopyObject std_library (Some 0) sample_heap = (Some a, h') \<and> 7 \<le> a \<and>
     view_mc (store 1 (TargetArray []) h') r' = view_mc sample_heap sample_rep"
proof -
  obtain q h' where c: "PostgresMC_DeepCopyObject std_library (Some 0) sample_heap = (q, h')" by fastforce
  from DeepCopy_isolated [OF std_library_copies sample_heap_wf sample_heap_cells(1) sample_heap_closed c]
  obtain a r' where a: "q = Some a" "a \<notin> allocated sample_heap" and
    later: "\<forall>h''. agree (allocated h' - allocated sample_heap) h' h'' \<longrightarrow>
      hp_cells h'' a = Some (PostgresMCCell r') \<and> view_mc h'' r' = view_mc sample_heap sample_rep" by blast
  have "1 \<notin> allocated h' - allocated sample_heap" using sample_heap_cells(2) by auto
  then have "view_mc (store 1 (TargetArray []) h') r' = view_mc sample_heap sample_rep"
    using later store_agree [of 1 "allocated h' - allocated sample_heap" h'] by blast
  moreover have "7 \<le> a" using a(2) by (auto simp: sample_heap_def split: if_splits)
  ultimately show ?thesis using c a(1) by blast
qed

end
