(* ===== verification/In_Place.thy ===== *)
theory In_Place
  imports Deep_Copy Controller
begin

text \<open>
  The operator changes the resource in place: \<open>internal/status\<close> writes into the arrays of the
  status, an automatic failover writes into the clusters of a copy. Here these writes are made on
  \<open>Go_Heap\<close>, and they refine the functions on values that the other theories use: what the heap
  means afterwards is the result of the function, and a deep copy that was taken before keeps its
  meaning. So a patch relative to the copy carries exactly the changes.
\<close>

section \<open>Writing into slices\<close>

definition array_at :: "(cell \<Rightarrow> 'r list) \<Rightarrow> heap \<Rightarrow> addr \<Rightarrow> 'r list" where
  "array_at sel h a = (case hp_cells h a of None \<Rightarrow> [] | Some c \<Rightarrow> sel c)"

text \<open>\<open>s[i] = x\<close>\<close>

definition write_elem :: "('r list \<Rightarrow> cell) \<Rightarrow> (cell \<Rightarrow> 'r list) \<Rightarrow> slice \<Rightarrow> nat \<Rightarrow> 'r \<Rightarrow> heap \<Rightarrow> heap" where
  "write_elem mk sel s i x h = (case s of None \<Rightarrow> h | Some (a, n) \<Rightarrow> store a (mk ((array_at sel h a)[i := x])) h)"

text \<open>
  \<open>append(s, x)\<close>: with spare capacity the element is written into the array, otherwise the elements
  move to a new array, with \<open>G n\<close> spare elements (the growth is up to the implementation of Go).
\<close>

definition append_slice ::
  "('r list \<Rightarrow> cell) \<Rightarrow> (cell \<Rightarrow> 'r list) \<Rightarrow> 'r \<Rightarrow> (nat \<Rightarrow> nat) \<Rightarrow> slice \<Rightarrow> 'r \<Rightarrow> heap \<Rightarrow> slice \<times> heap" where
  "append_slice mk sel zero G s x h =
     (case s of
        None \<Rightarrow> (let (b, h1) = alloc (mk (x # replicate (G 0) zero)) h in (Some (b, 1), h1))
      | Some (a, n) \<Rightarrow>
          (let xs = array_at sel h a
           in if n < length xs then (Some (a, Suc n), store a (mk (xs[n := x])) h)
              else let (b, h1) = alloc (mk (take n xs @ x # replicate (G n) zero)) h in (Some (b, Suc n), h1)))"

text \<open>The first index of an element with a property, as the loops over a slice with an early return find it.\<close>

primrec first_index :: "('r \<Rightarrow> bool) \<Rightarrow> 'r list \<Rightarrow> nat option" where
  "first_index P [] = None"
| "first_index P (x # xs) = (if P x then Some 0 else map_option Suc (first_index P xs))"

section \<open>The status package and the automatic failover, in place\<close>

definition new_condition :: "string \<Rightarrow> ConditionStatus \<Rightarrow> int64 \<Rightarrow> string \<Rightarrow> string \<Rightarrow> time \<Rightarrow> Condition" where
  "new_condition condType condStatus generation reason message now =
     \<lparr>cd_Type = condType, cd_Status = condStatus, cd_ObservedGeneration = generation,
      cd_LastTransitionTime = now, cd_Reason = reason, cd_Message = message\<rparr>"

definition update_condition ::
  "Condition \<Rightarrow> ConditionStatus \<Rightarrow> int64 \<Rightarrow> string \<Rightarrow> string \<Rightarrow> time \<Rightarrow> Condition" where
  "update_condition c condStatus generation reason message now =
     (let changed = cd_Status c \<noteq> condStatus
      in c\<lparr>cd_Status := condStatus, cd_Reason := reason, cd_Message := message, cd_ObservedGeneration := generation,
           cd_LastTransitionTime := (if changed then now else cd_LastTransitionTime c)\<rparr>)"

definition SetCondition_at ::
  "(nat \<Rightarrow> nat) \<Rightarrow> slice \<Rightarrow> string \<Rightarrow> ConditionStatus \<Rightarrow> int64 \<Rightarrow> string \<Rightarrow> string \<Rightarrow> time \<Rightarrow> heap \<Rightarrow> slice \<times> heap" where
  "SetCondition_at G s condType condStatus generation reason message now h =
     (let cs = read_slice conditions_of h s
      in case first_index (\<lambda>c. cd_Type c = condType) cs of
           Some i \<Rightarrow>
             (s, write_elem ConditionArray conditions_of s i (update_condition (cs ! i) condStatus generation reason message now) h)
         | None \<Rightarrow>
             append_slice ConditionArray conditions_of zero_Condition G s
               (new_condition condType condStatus generation reason message now) h)"

definition SetClusterCondition_at ::
  "(nat \<Rightarrow> nat) \<Rightarrow> slice \<Rightarrow> string \<Rightarrow> string \<Rightarrow> ConditionStatus \<Rightarrow> int64 \<Rightarrow> string \<Rightarrow> string \<Rightarrow> time \<Rightarrow> heap \<Rightarrow> slice \<times> heap" where
  "SetClusterCondition_at G s clusterName condType condStatus generation reason message now h =
     (let css = read_slice statuses_of h s
      in case first_index (\<lambda>cs. rcs_Name cs = clusterName) css of
           Some i \<Rightarrow>
             (let (conditions, h1) =
                SetCondition_at G (rcs_Conditions (css ! i)) condType condStatus generation reason message now h
              in (s, write_elem ClusterStatusArray statuses_of s i ((css ! i)\<lparr>rcs_Conditions := conditions\<rparr>) h1))
         | None \<Rightarrow>
             (let cs = zero_ClusterStatusRep\<lparr>rcs_Name := clusterName\<rparr>;
                  (conditions, h1) = SetCondition_at G (rcs_Conditions cs) condType condStatus generation reason message now h
              in append_slice ClusterStatusArray statuses_of zero_ClusterStatusRep G s (cs\<lparr>rcs_Conditions := conditions\<rparr>) h1))"

text \<open>\<open>for i, c := range s { if c.Name == newPrimary { s[i].Role = ... } else { s[i].Role = ... } }\<close>\<close>

definition promote_roles_at :: "string \<Rightarrow> slice \<Rightarrow> heap \<Rightarrow> heap" where
  "promote_roles_at newPrimary s h =
     (case s of None \<Rightarrow> h
      | Some (a, n) \<Rightarrow>
          fold (\<lambda>i h. let c = array_at targets_of h a ! i
                      in write_elem TargetArray targets_of s i
                           (c\<lparr>ct_Role := (if ct_Name c = newPrimary then ClusterRolePrimary else ClusterRoleStandby)\<rparr>) h)
            [0..<n] h)"

text \<open>\<open>specPatch := mc.DeepCopy()\<close> and the loop, in \<open>runAutoFailover\<close>.\<close>

definition spec_patch_at :: "library \<Rightarrow> string \<Rightarrow> pointer \<Rightarrow> heap \<Rightarrow> pointer \<times> heap" where
  "spec_patch_at L newPrimary mc h =
     (let (specPatch, h1) = PostgresMC_DeepCopy L mc h
      in case read_pointer postgresmc_of h1 specPatch of
           None \<Rightarrow> (specPatch, h1)
         | Some r \<Rightarrow> (specPatch, promote_roles_at newPrimary (rsp_Clusters (rmc_Spec r)) h1))"

text \<open>\<open>orig := mc.DeepCopy()\<close> and the changes for an invalid spec, in \<open>Reconcile\<close>.\<close>

definition invalid_spec_at :: "library \<Rightarrow> (nat \<Rightarrow> nat) \<Rightarrow> addr \<Rightarrow> string \<Rightarrow> time \<Rightarrow> heap \<Rightarrow> pointer \<times> heap" where
  "invalid_spec_at L G mc message now h =
     (let (orig, h1) = PostgresMC_DeepCopy L (Some mc) h;
          r = postgresmc_of (the (hp_cells h1 mc));
          (conditions, h2) = SetCondition_at G (rst_Conditions (rmc_Status r)) ConditionReady ConditionFalse
             (om_Generation (rmc_ObjectMeta r)) ReasonSpecInvalid message now h1;
          status = (rmc_Status r)\<lparr>rst_Conditions := conditions, rst_Phase := PhaseFailed\<rparr>
      in (orig, store mc (PostgresMCCell (r\<lparr>rmc_Status := status\<rparr>)) h2))"

section \<open>What a write changes\<close>

text \<open>
  A slice of a typed heap: its array exists and is long enough. \<open>changes_only S\<close>: of the cells that
  were there, only those in \<open>S\<close> may have other contents.
\<close>

definition slice_ok :: "('r list \<Rightarrow> cell) \<Rightarrow> heap \<Rightarrow> slice \<Rightarrow> bool" where
  "slice_ok mk h s \<longleftrightarrow> (\<forall>a n. s = Some (a, n) \<longrightarrow> (\<exists>xs. hp_cells h a = Some (mk xs) \<and> n \<le> length xs))"

definition changes_only :: "addr set \<Rightarrow> heap \<Rightarrow> heap \<Rightarrow> bool" where
  "changes_only S h h' \<longleftrightarrow> wf_heap h' \<and> agree (allocated h - S) h h' \<and> allocated h \<subseteq> allocated h'"

lemma slice_ok_simps [simp]:
  "slice_ok mk h None" "slice_ok mk h (Some (a, n)) \<longleftrightarrow> (\<exists>xs. hp_cells h a = Some (mk xs) \<and> n \<le> length xs)"
  by (simp_all add: slice_ok_def)

lemma slice_ok_agree:
  assumes "slice_ok mk h s" "agree (slice_cells s) h h'"
  shows "slice_ok mk h' s"
  using assms by (cases s) (auto simp: agree_def)

lemma slice_ok_allocated: "slice_ok mk h s \<Longrightarrow> slice_cells s \<subseteq> allocated h"
  by (cases s) auto

lemma slice_ok_extends:
  assumes "slice_ok mk h s" "extends h h'"
  shows "slice_ok mk h' s"
  using assms slice_ok_allocated [OF assms(1)]
  by (intro slice_ok_agree [OF assms(1)]) (auto simp: extends_def intro: agree_subset)

lemma changes_only_refl [simp]: "wf_heap h \<Longrightarrow> changes_only S h h"
  by (simp add: changes_only_def)

lemma changes_only_mono: "changes_only S h h' \<Longrightarrow> S \<subseteq> T \<Longrightarrow> changes_only T h h'"
  by (auto simp: changes_only_def intro: agree_subset)

lemma changes_only_trans:
  assumes "changes_only S h h1" "changes_only T h1 h2" "T \<subseteq> S \<union> (allocated h1 - allocated h)"
  shows "changes_only S h h2"
proof -
  have sub: "allocated h \<subseteq> allocated h1" using assms(1) by (simp add: changes_only_def)
  have "agree (allocated h1 - T) h1 h2" using assms(2) by (simp add: changes_only_def)
  moreover have "allocated h - S \<subseteq> allocated h1 - T" using assms(3) sub by blast
  ultimately have "agree (allocated h - S) h1 h2" by (rule agree_subset)
  moreover have "allocated h \<subseteq> allocated h2" using assms(2) sub unfolding changes_only_def by blast
  ultimately show ?thesis using assms(1,2) by (auto simp: changes_only_def intro: agree_trans)
qed

lemma extends_changes_only: "extends h h' \<Longrightarrow> changes_only {} h h'"
  using extends_allocated [of h h'] by (auto simp: extends_def changes_only_def)

lemma changes_only_agree: "changes_only S h h' \<Longrightarrow> T \<subseteq> allocated h \<Longrightarrow> T \<inter> S = {} \<Longrightarrow> agree T h h'"
  by (auto simp: changes_only_def intro: agree_subset)

lemma array_at_ok: "hp_cells h a = Some c \<Longrightarrow> array_at sel h a = sel c"
  by (simp add: array_at_def)

lemma write_elem_ok:
  assumes "wf_heap h" "slice_ok mk h s" and sel: "\<And>xs. sel (mk xs) = xs"
  shows "changes_only (slice_cells s) h (write_elem mk sel s i x h) \<and> slice_ok mk (write_elem mk sel s i x h) s \<and>
    read_slice sel (write_elem mk sel s i x h) s = (read_slice sel h s)[i := x] \<and>
    allocated (write_elem mk sel s i x h) = allocated h"
proof (cases s)
  case (Some an)
  obtain a n where s: "s = Some (a, n)" using Some by (cases an) simp
  with assms(2) obtain xs where xs: "hp_cells h a = Some (mk xs)" "n \<le> length xs" by auto
  then have w: "write_elem mk sel s i x h = store a (mk (xs[i := x])) h" by (simp add: write_elem_def s array_at_ok sel)
  have "n \<le> length (xs[i := x])" using xs(2) by simp
  then have "slice_ok mk (store a (mk (xs[i := x])) h) s" by (auto simp: s)
  moreover have "allocated (store a (mk (xs[i := x])) h) = allocated h" using xs(1) by (auto split: if_splits)
  moreover have "wf_heap (store a (mk (xs[i := x])) h)" using assms(1) xs(1) by (intro store_wf) auto
  ultimately show ?thesis
    unfolding w using xs store_agree [of a "allocated h - {a}" h] by (simp add: s sel changes_only_def take_update_swap)
qed (simp add: write_elem_def assms(1))

lemma append_slice_ok:
  assumes "wf_heap h" "slice_ok mk h s" and sel: "\<And>xs. sel (mk xs) = xs" and "append_slice mk sel zero G s x h = (s', h')"
  shows "changes_only (slice_cells s) h h' \<and> slice_ok mk h' s' \<and> read_slice sel h' s' = read_slice sel h s @ [x] \<and>
    slice_cells s' \<subseteq> slice_cells s \<union> (allocated h' - allocated h) \<and> slice_ok mk h' s"
proof -
  have new: "changes_only (slice_cells s) h h' \<and> slice_ok mk h' (Some (b, n)) \<and> b \<in> allocated h' - allocated h \<and>
      read_slice sel h' (Some (b, n)) = take n ys \<and> slice_ok mk h' s"
    if "alloc (mk ys) h = (b, h')" "n \<le> length ys" for b n ys
    using that extends_changes_only [OF alloc_extends [OF assms(1) that(1)]] alloc_cell [OF that(1)] alloc_fresh [OF assms(1) that(1)]
      slice_ok_extends [OF assms(2) alloc_extends [OF assms(1) that(1)]]
    by (auto simp: sel intro: changes_only_mono)
  show ?thesis
  proof (cases s)
    case None
    then obtain b where b: "alloc (mk (x # replicate (G 0) zero)) h = (b, h')" "s' = Some (b, 1)"
      using assms(4) by (auto simp: append_slice_def Let_def split: prod.splits)
    from new [OF b(1), of 1] show ?thesis by (simp add: b(2) None)
  next
    case (Some an)
    obtain a n where s: "s = Some (a, n)" using Some by (cases an) simp
    with assms(2) obtain xs where xs: "hp_cells h a = Some (mk xs)" "n \<le> length xs" by auto
    show ?thesis
    proof (cases "n < length xs")
      case True
      then have res: "s' = Some (a, Suc n)" "h' = store a (mk (xs[n := x])) h"
        using assms(4) xs by (simp_all add: append_slice_def s array_at_ok sel Let_def)
      have "Suc n \<le> length (xs[n := x])" using True by simp
      then have "slice_ok mk h' s'" "slice_ok mk h' s" using xs(2) by (auto simp: res s)
      moreover have "wf_heap h'" unfolding res using assms(1) xs(1) by (intro store_wf) auto
      moreover have "allocated h \<subseteq> allocated h'" by (auto simp: res)
      ultimately show ?thesis
        using xs True store_agree [of a "allocated h - {a}" h] by (simp add: s sel res changes_only_def take_Suc_conv_app_nth)
    next
      case False
      with assms(4) xs obtain b where b: "alloc (mk (take n xs @ x # replicate (G n) zero)) h = (b, h')" "s' = Some (b, Suc n)"
        by (auto simp: append_slice_def s array_at_ok sel Let_def split: prod.splits)
      from new [OF b(1), of "Suc n"] xs show ?thesis by (simp add: b(2) s sel)
    qed
  qed
qed

section \<open>Refinement\<close>

lemma map_plain_view [simp]: "map (plain_view h) xs = xs"
  by (simp add: plain_view_def [abs_def])

lemma slice_view_plain [simp]: "slice_view sel plain_view h s = read_slice sel h s"
  by (simp add: slice_view_def plain_view_def [abs_def])

lemma pointer_view_plain [simp]: "pointer_view sel plain_view h p = read_pointer sel h p"
  by (simp add: pointer_view_def plain_view_def [abs_def] option.map_ident)

lemma slice_reach_plain [simp]: "slice_reach sel plain_cells h s = slice_cells s"
  by (simp add: slice_reach_def elem_cells_def plain_cells_def)

lemma first_index_bound: "first_index P xs = Some i \<Longrightarrow> i < length xs \<and> P (xs ! i)"
  by (induction xs arbitrary: i) (auto split: if_splits)

lemma SetCondition_index:
  "SetCondition xs condType condStatus generation reason message now =
     (case first_index (\<lambda>c. cd_Type c = condType) xs of
        Some i \<Rightarrow> xs[i := update_condition (xs ! i) condStatus generation reason message now]
      | None \<Rightarrow> xs @ [new_condition condType condStatus generation reason message now])"
  by (induction xs) (auto simp: update_condition_def new_condition_def Let_def split: option.splits)

lemma SetClusterCondition_index:
  "SetClusterCondition xs clusterName condType condStatus generation reason message now =
     (case first_index (\<lambda>cs. cs_Name cs = clusterName) xs of
        Some i \<Rightarrow> xs[i := (xs ! i)\<lparr>cs_Conditions :=
          SetCondition (cs_Conditions (xs ! i)) condType condStatus generation reason message now\<rparr>]
      | None \<Rightarrow> xs @ [zero_ClusterStatus\<lparr>cs_Name := clusterName,
          cs_Conditions := SetCondition [] condType condStatus generation reason message now\<rparr>])"
  by (induction xs) (auto split: option.splits)

lemma SetCondition_at_refines:
  assumes "wf_heap h" "slice_ok ConditionArray h s"
    and "SetCondition_at G s condType condStatus generation reason message now h = (s', h')"
  shows "read_slice conditions_of h' s' = SetCondition (read_slice conditions_of h s) condType condStatus generation reason message now \<and>
    changes_only (slice_cells s) h h' \<and> slice_ok ConditionArray h' s' \<and>
    slice_cells s' \<subseteq> slice_cells s \<union> (allocated h' - allocated h) \<and> slice_ok ConditionArray h' s"
proof (cases "first_index (\<lambda>c. cd_Type c = condType) (read_slice conditions_of h s)")
  case None
  with append_slice_ok [OF assms(1,2), of conditions_of] assms(3) show ?thesis
    by (simp add: SetCondition_at_def SetCondition_index)
next
  case (Some i)
  with write_elem_ok [OF assms(1,2), of conditions_of i] assms(3) show ?thesis
    by (auto simp: SetCondition_at_def SetCondition_index)
qed

text \<open>
  The clusters of the status: the array and the arrays of the entries' conditions exist, and no two
  entries share an array.
\<close>

definition cluster_ok :: "heap \<Rightarrow> ClusterStatusRep \<Rightarrow> bool" where
  "cluster_ok h r \<longleftrightarrow> slice_ok ConditionArray h (rcs_Conditions r) \<and>
     (\<forall>b. rcs_LastSyncedAt r = Some b \<longrightarrow> (\<exists>t. hp_cells h b = Some (TimeCell t)))"

definition unshared :: "ClusterStatusRep list \<Rightarrow> bool" where
  "unshared rs \<longleftrightarrow> (\<forall>i < length rs. \<forall>j < length rs. i \<noteq> j \<longrightarrow>
     slice_cells (rcs_Conditions (rs ! i)) \<inter> slice_cells (rcs_Conditions (rs ! j)) = {})"

definition statuses_ok :: "heap \<Rightarrow> slice \<Rightarrow> bool" where
  "statuses_ok h s \<longleftrightarrow> slice_ok ClusterStatusArray h s \<and>
     (\<forall>r \<in> set (read_slice statuses_of h s). cluster_ok h r) \<and> unshared (read_slice statuses_of h s)"

lemma cells_cluster_status_eq: "cells_cluster_status h r = slice_cells (rcs_Conditions r) \<union> pointer_cells (rcs_LastSyncedAt r)"
  by (simp add: cells_cluster_status_def pointer_reach_def plain_cells_def split: option.split)

lemma cluster_ok_allocated: "cluster_ok h r \<Longrightarrow> cells_cluster_status h r \<subseteq> allocated h"
  using slice_ok_allocated [of ConditionArray h "rcs_Conditions r"]
  by (cases "rcs_LastSyncedAt r") (auto simp: cells_cluster_status_eq cluster_ok_def)

text \<open>Cells of different types are different.\<close>

lemma array_distinct:
  assumes "slice_ok ClusterStatusArray h s" "cluster_ok h r"
  shows "slice_cells s \<inter> cells_cluster_status h r = {}"
  using assms by (cases s; cases "rcs_Conditions r"; cases "rcs_LastSyncedAt r")
    (auto simp: cells_cluster_status_eq cluster_ok_def)

lemma synced_distinct:
  "slice_ok ConditionArray h s \<Longrightarrow> cluster_ok h r \<Longrightarrow> slice_cells s \<inter> pointer_cells (rcs_LastSyncedAt r) = {}"
  by (cases s; cases "rcs_LastSyncedAt r") (auto simp: cluster_ok_def)

lemma cluster_frame:
  assumes "cluster_ok h r" "changes_only S h h'" "S \<inter> cells_cluster_status h r = {}"
  shows "view_cluster_status h' r = view_cluster_status h r \<and> cluster_ok h' r"
proof -
  have "agree (cells_cluster_status h r) h h'"
    using cluster_ok_allocated [OF assms(1)] assms(3) by (intro changes_only_agree [OF assms(2)]) auto
  moreover from this have "cluster_ok h' r"
    using assms(1) slice_ok_agree [of ConditionArray h "rcs_Conditions r" h']
    by (auto simp: cluster_ok_def cells_cluster_status_eq agree_def)
  ultimately show ?thesis using std_status.frame by blast
qed

lemma unshared_update:
  assumes "unshared rs" "i < length rs"
    and "\<forall>j < length rs. j \<noteq> i \<longrightarrow> slice_cells c \<inter> slice_cells (rcs_Conditions (rs ! j)) = {}"
  shows "unshared (rs[i := (rs ! i)\<lparr>rcs_Conditions := c\<rparr>])"
  using assms by (auto simp: unshared_def nth_list_update Int_commute)

lemma unshared_append:
  assumes "unshared rs" "\<forall>r \<in> set rs. slice_cells (rcs_Conditions r) \<inter> slice_cells (rcs_Conditions x) = {}"
  shows "unshared (rs @ [x])"
  using assms by (auto simp: unshared_def nth_append less_Suc_eq Int_commute)

text \<open>New conditions of one entry, and what that leaves of the others.\<close>

lemma other_cells:
  assumes "cluster_ok h r" "slice_cells c \<subseteq> slice_cells c0 \<union> (allocated h' - allocated h)"
    and "slice_cells c0 \<inter> slice_cells (rcs_Conditions r) = {}"
  shows "slice_cells c \<inter> slice_cells (rcs_Conditions r) = {}"
  using assms cluster_ok_allocated [OF assms(1)] by (auto simp: cells_cluster_status_eq)

lemma first_index_map: "first_index P (map f xs) = first_index (\<lambda>x. P (f x)) xs"
  by (induction xs) simp_all

lemma first_index_view:
  "first_index (\<lambda>cs. cs_Name cs = n) (slice_view statuses_of view_cluster_status h s) =
   first_index (\<lambda>r. rcs_Name r = n) (read_slice statuses_of h s)"
  by (simp add: slice_view_def first_index_map view_cluster_status_def)

lemma changes_only_allocated: "changes_only S h h' \<Longrightarrow> allocated h \<subseteq> allocated h'"
  by (simp add: changes_only_def)

lemma replaced_conditions:
  assumes r: "cluster_ok h r" and c: "changes_only (slice_cells (rcs_Conditions r)) h h1" "slice_ok ConditionArray h1 c"
  shows "cluster_ok h1 (r\<lparr>rcs_Conditions := c\<rparr>)"
    "view_cluster_status h1 (r\<lparr>rcs_Conditions := c\<rparr>) = (view_cluster_status h r)\<lparr>cs_Conditions := read_slice conditions_of h1 c\<rparr>"
proof -
  have "slice_cells (rcs_Conditions r) \<inter> pointer_cells (rcs_LastSyncedAt r) = {}"
    using r by (intro synced_distinct) (auto simp: cluster_ok_def)
  moreover have "pointer_cells (rcs_LastSyncedAt r) \<subseteq> allocated h"
    using cluster_ok_allocated [OF r] by (simp add: cells_cluster_status_eq)
  ultimately have agree: "agree (pointer_cells (rcs_LastSyncedAt r)) h h1"
    by (intro changes_only_agree [OF c(1)]) auto
  then show "cluster_ok h1 (r\<lparr>rcs_Conditions := c\<rparr>)" using r c(2) by (auto simp: cluster_ok_def agree_def)
  show "view_cluster_status h1 (r\<lparr>rcs_Conditions := c\<rparr>) = (view_cluster_status h r)\<lparr>cs_Conditions := read_slice conditions_of h1 c\<rparr>"
    using read_pointer_agree [OF agree] by (simp add: view_cluster_status_def)
qed

lemma existing_entry:
  assumes h: "wf_heap h" "statuses_ok h s" and i: "i < length (read_slice statuses_of h s)"
    and r: "r = read_slice statuses_of h s ! i"
    and c: "changes_only (slice_cells (rcs_Conditions r)) h h1" "slice_ok ConditionArray h1 c"
      "slice_cells c \<subseteq> slice_cells (rcs_Conditions r) \<union> (allocated h1 - allocated h)"
    and h': "h' = write_elem ClusterStatusArray statuses_of s i (r\<lparr>rcs_Conditions := c\<rparr>) h1"
  shows "slice_view statuses_of view_cluster_status h' s =
      (slice_view statuses_of view_cluster_status h s)[i := (view_cluster_status h r)\<lparr>cs_Conditions := read_slice conditions_of h1 c\<rparr>]"
    "changes_only (slice_reach statuses_of cells_cluster_status h s) h h'" "statuses_ok h' s"
proof -
  let ?rs = "read_slice statuses_of h s" and ?new = "r\<lparr>rcs_Conditions := c\<rparr>"
  have s: "slice_ok ClusterStatusArray h s" "\<forall>r \<in> set ?rs. cluster_ok h r" "unshared ?rs"
    using h(2) by (simp_all add: statuses_ok_def)
  have ok: "cluster_ok h r" using s(2) i r by simp
  then have "slice_cells s \<inter> slice_cells (rcs_Conditions r) = {}"
    using array_distinct [OF s(1)] by (auto simp: cells_cluster_status_eq)
  then have "agree (slice_cells s) h h1" using slice_ok_allocated [OF s(1)] by (intro changes_only_agree [OF c(1)])
  then have s1: "slice_ok ClusterStatusArray h1 s" "read_slice statuses_of h1 s = ?rs"
    using slice_ok_agree [OF s(1)] read_slice_agree by blast+
  have "wf_heap h1" using c(1) by (simp add: changes_only_def)
  from write_elem_ok [OF this s1(1), of statuses_of i ?new] s1(2)
  have w: "changes_only (slice_cells s) h1 h'" "slice_ok ClusterStatusArray h' s"
    "read_slice statuses_of h' s = ?rs[i := ?new]" by (simp_all add: h')
  have all: "changes_only (slice_cells (rcs_Conditions r) \<union> slice_cells s) h h'"
    by (rule changes_only_trans [OF changes_only_mono [OF c(1)] w(1)]) auto
  note replaced = replaced_conditions [OF ok c(1,2)]
  from cluster_frame [OF replaced(1) w(1) array_distinct [OF s1(1) replaced(1)]]
  have new: "view_cluster_status h' ?new = (view_cluster_status h r)\<lparr>cs_Conditions := read_slice conditions_of h1 c\<rparr>"
    "cluster_ok h' ?new" by (simp_all add: replaced(2))
  have others: "view_cluster_status h' (?rs ! j) = view_cluster_status h (?rs ! j) \<and> cluster_ok h' (?rs ! j)"
    if j: "j < length ?rs" "j \<noteq> i" for j
  proof (rule cluster_frame [OF _ all])
    show okj: "cluster_ok h (?rs ! j)" using s(2) j(1) by simp
    have "slice_cells (rcs_Conditions r) \<inter> slice_cells (rcs_Conditions (?rs ! j)) = {}"
      using s(3) i j r by (simp add: unshared_def)
    moreover have "slice_cells (rcs_Conditions r) \<inter> pointer_cells (rcs_LastSyncedAt (?rs ! j)) = {}"
      using ok okj by (intro synced_distinct) (auto simp: cluster_ok_def)
    ultimately show "(slice_cells (rcs_Conditions r) \<union> slice_cells s) \<inter> cells_cluster_status h (?rs ! j) = {}"
      using array_distinct [OF s(1) okj] by (auto simp: cells_cluster_status_eq)
  qed
  show "slice_view statuses_of view_cluster_status h' s =
      (slice_view statuses_of view_cluster_status h s)[i := (view_cluster_status h r)\<lparr>cs_Conditions := read_slice conditions_of h1 c\<rparr>]"
    using new(1) others i by (auto simp: slice_view_def w(3) nth_list_update intro!: nth_equalityI)
  have "r \<in> set ?rs" using i r by simp
  then have "slice_cells (rcs_Conditions r) \<subseteq> elem_cells cells_cluster_status h ?rs"
    by (auto simp: elem_cells_def cells_cluster_status_eq)
  then show "changes_only (slice_reach statuses_of cells_cluster_status h s) h h'"
    by (intro changes_only_mono [OF all]) (auto simp: slice_reach_def)
  have "unshared (?rs[i := ?new])"
    unfolding r
  proof (rule unshared_update [OF s(3) i], intro allI impI)
    fix j assume j: "j < length ?rs" "j \<noteq> i"
    have "cluster_ok h (?rs ! j)" using s(2) j(1) by simp
    moreover have "slice_cells (rcs_Conditions r) \<inter> slice_cells (rcs_Conditions (?rs ! j)) = {}"
      using s(3) i j r by (simp add: unshared_def)
    ultimately show "slice_cells c \<inter> slice_cells (rcs_Conditions (?rs ! j)) = {}" by (rule other_cells [OF _ c(3)])
  qed
  moreover have "\<forall>x \<in> set (?rs[i := ?new]). cluster_ok h' x"
    using new(2) others i by (auto simp: in_set_conv_nth nth_list_update)
  ultimately show "statuses_ok h' s" using w(2) by (simp add: statuses_ok_def w(3))
qed

lemma added_entry:
  assumes h: "wf_heap h" "statuses_ok h s"
    and x: "changes_only {} h h1" "cluster_ok h1 x" "slice_cells (rcs_Conditions x) \<subseteq> allocated h1 - allocated h"
    and op: "append_slice ClusterStatusArray statuses_of zero_ClusterStatusRep G s x h1 = (s', h')"
  shows "slice_view statuses_of view_cluster_status h' s' =
      slice_view statuses_of view_cluster_status h s @ [view_cluster_status h1 x]"
    "changes_only (slice_reach statuses_of cells_cluster_status h s) h h'" "statuses_ok h' s'"
proof -
  let ?rs = "read_slice statuses_of h s"
  have s: "slice_ok ClusterStatusArray h s" "\<forall>r \<in> set ?rs. cluster_ok h r" "unshared ?rs"
    using h(2) by (simp_all add: statuses_ok_def)
  have "agree (slice_cells s) h h1" using slice_ok_allocated [OF s(1)] by (intro changes_only_agree [OF x(1)]) auto
  then have s1: "slice_ok ClusterStatusArray h1 s" "read_slice statuses_of h1 s = ?rs"
    using slice_ok_agree [OF s(1)] read_slice_agree by blast+
  have "wf_heap h1" using x(1) by (simp add: changes_only_def)
  from append_slice_ok [OF this s1(1) _ op] s1(2)
  have w: "changes_only (slice_cells s) h1 h'" "slice_ok ClusterStatusArray h' s'" "read_slice statuses_of h' s' = ?rs @ [x]"
    by simp_all
  have all: "changes_only (slice_cells s) h h'"
    by (rule changes_only_trans [OF changes_only_mono [OF x(1)] w(1)]) auto
  have new: "view_cluster_status h' x = view_cluster_status h1 x \<and> cluster_ok h' x"
    by (rule cluster_frame [OF x(2) w(1) array_distinct [OF s1(1) x(2)]])
  have others: "\<forall>r \<in> set ?rs. view_cluster_status h' r = view_cluster_status h r \<and> cluster_ok h' r"
    using s(2) cluster_frame [OF _ all array_distinct [OF s(1)]] by blast
  show "slice_view statuses_of view_cluster_status h' s' =
      slice_view statuses_of view_cluster_status h s @ [view_cluster_status h1 x]"
    using new others by (simp add: slice_view_def w(3))
  show "changes_only (slice_reach statuses_of cells_cluster_status h s) h h'"
    by (rule changes_only_mono [OF all]) (simp add: slice_reach_def)
  have "\<forall>r \<in> set ?rs. slice_cells (rcs_Conditions r) \<inter> slice_cells (rcs_Conditions x) = {}"
    using s(2) x(3) cluster_ok_allocated by (fastforce simp: cells_cluster_status_eq)
  then have "unshared (?rs @ [x])" by (rule unshared_append [OF s(3)])
  then show "statuses_ok h' s'" using w(2) new others by (simp add: statuses_ok_def w(3))
qed

text \<open>
  C27. Setting a cluster's condition in place refines the function on values. With indexed writes and
  appends into arrays with spare capacity, on a status whose entries do not share arrays, the
  slice that is returned means what \<open>SetClusterCondition\<close> computes, only cells of this status have
  other contents, and again no two entries share an array.
\<close>

theorem SetClusterCondition_at_refines:
  assumes h: "wf_heap h" "statuses_ok h s"
    and op: "SetClusterCondition_at G s clusterName condType condStatus generation reason message now h = (s', h')"
  shows "slice_view statuses_of view_cluster_status h' s' =
      SetClusterCondition (slice_view statuses_of view_cluster_status h s) clusterName condType condStatus generation reason message now \<and>
    changes_only (slice_reach statuses_of cells_cluster_status h s) h h' \<and> statuses_ok h' s'"
proof (cases "first_index (\<lambda>r. rcs_Name r = clusterName) (read_slice statuses_of h s)")
  case (Some i)
  let ?r = "read_slice statuses_of h s ! i"
  from first_index_bound [OF Some] have i: "i < length (read_slice statuses_of h s)" by simp
  then have "cluster_ok h ?r" using h(2) by (simp add: statuses_ok_def)
  then have r: "slice_ok ConditionArray h (rcs_Conditions ?r)" by (simp add: cluster_ok_def)
  obtain c h1 where c: "SetCondition_at G (rcs_Conditions ?r) condType condStatus generation reason message now h = (c, h1)"
    by fastforce
  from op Some c have res: "s' = s" "h' = write_elem ClusterStatusArray statuses_of s i (?r\<lparr>rcs_Conditions := c\<rparr>) h1"
    by (auto simp: SetClusterCondition_at_def)
  from SetCondition_at_refines [OF h(1) r c] have set_c: "changes_only (slice_cells (rcs_Conditions ?r)) h h1"
    "slice_ok ConditionArray h1 c" "slice_cells c \<subseteq> slice_cells (rcs_Conditions ?r) \<union> (allocated h1 - allocated h)"
    "read_slice conditions_of h1 c = SetCondition (read_slice conditions_of h (rcs_Conditions ?r)) condType condStatus generation reason message now"
    by simp_all
  have "cs_Conditions (slice_view statuses_of view_cluster_status h s ! i) = read_slice conditions_of h (rcs_Conditions ?r)"
    using i by (simp add: slice_view_def view_cluster_status_def)
  moreover have "slice_view statuses_of view_cluster_status h s ! i = view_cluster_status h ?r"
    using i by (simp add: slice_view_def)
  ultimately show ?thesis
    using existing_entry [OF h i refl set_c(1-3) res(2)] Some
    by (simp add: res(1) SetClusterCondition_index first_index_view set_c(4))
next
  case None
  obtain c h1 where c: "SetCondition_at G None condType condStatus generation reason message now h = (c, h1)" by fastforce
  let ?x = "zero_ClusterStatusRep\<lparr>rcs_Name := clusterName, rcs_Conditions := c\<rparr>"
  from op None c have app: "append_slice ClusterStatusArray statuses_of zero_ClusterStatusRep G s ?x h1 = (s', h')"
    by (simp add: SetClusterCondition_at_def zero_ClusterStatusRep_def)
  from SetCondition_at_refines [OF h(1) _ c] have set_c: "changes_only {} h h1" "slice_ok ConditionArray h1 c"
    "slice_cells c \<subseteq> allocated h1 - allocated h"
    "read_slice conditions_of h1 c = SetCondition [] condType condStatus generation reason message now"
    by simp_all
  have "cluster_ok h1 ?x" using set_c(2) by (simp add: cluster_ok_def zero_ClusterStatusRep_def)
  from added_entry [OF h set_c(1) this _ app] set_c(3) have added:
    "slice_view statuses_of view_cluster_status h' s' = slice_view statuses_of view_cluster_status h s @ [view_cluster_status h1 ?x]"
    "changes_only (slice_reach statuses_of cells_cluster_status h s) h h'" "statuses_ok h' s'" by simp_all
  have "view_cluster_status h1 ?x = zero_ClusterStatus\<lparr>cs_Name := clusterName,
      cs_Conditions := SetCondition [] condType condStatus generation reason message now\<rparr>"
    by (simp add: view_cluster_status_def zero_ClusterStatusRep_def zero_ClusterStatus_def set_c(4) read_pointer_def del: SetCondition.simps)
  then show ?thesis
    using added None by (simp add: SetClusterCondition_index first_index_view del: SetCondition.simps)
qed

section \<open>The resource in memory\<close>

text \<open>
  Writing a cell of one type changes nothing that is read as another type. \<open>keeps_reading sel h h'\<close>:
  what is read by \<open>sel\<close> from a cell of \<open>h\<close> is the same in \<open>h'\<close>.
\<close>

definition keeps_reading :: "(cell \<Rightarrow> 'r) \<Rightarrow> addr set \<Rightarrow> heap \<Rightarrow> heap \<Rightarrow> bool" where
  "keeps_reading sel S h h' \<longleftrightarrow> (\<forall>a \<in> S. map_option sel (hp_cells h' a) = map_option sel (hp_cells h a))"

lemma keeps_reading_slice: "keeps_reading sel (slice_cells s) h h' \<Longrightarrow> read_slice sel h' s = read_slice sel h s"
  by (cases s) (auto simp: keeps_reading_def read_slice_def split: option.splits)

lemma keeps_reading_pointer: "keeps_reading sel (pointer_cells p) h h' \<Longrightarrow> read_pointer sel h' p = read_pointer sel h p"
  by (cases p) (auto simp: keeps_reading_def read_pointer_def)

lemma keeps_reading_subset: "keeps_reading sel T h h' \<Longrightarrow> S \<subseteq> T \<Longrightarrow> keeps_reading sel S h h'"
  by (auto simp: keeps_reading_def)

lemma cells_simps:
  "cells_meta h m = pointer_cells (om_DeletionTimestamp m) \<union> slice_cells (om_Finalizers m)"
  "cells_raw h raw = slice_cells (raw_Raw raw)"
  "cells_spec h sp = slice_cells (rsp_Clusters sp) \<union> slice_cells (raw_Raw (rsp_PostgresqlSpec sp))"
  "cells_status h st = slice_cells (rst_Conditions st) \<union> slice_reach statuses_of cells_cluster_status h (rst_Clusters st)"
  by (simp_all add: cells_meta_def cells_raw_def cells_spec_def cells_status_def pointer_reach_def plain_cells_def split: option.split)

text \<open>What stays of the parts of a resource.\<close>

lemma keeps_meta:
  assumes "keeps_reading time_of (cells_meta h m) h h'" "keeps_reading strings_of (cells_meta h m) h h'"
  shows "view_meta h' m = view_meta h m"
  using keeps_reading_pointer [OF keeps_reading_subset [OF assms(1)], of "om_DeletionTimestamp m"]
    keeps_reading_slice [OF keeps_reading_subset [OF assms(2)], of "om_Finalizers m"]
  by (simp add: view_meta_def cells_simps)

lemma keeps_raw:
  assumes "keeps_reading bytes_of (cells_raw h b) h h'"
  shows "view_raw h' b = view_raw h b"
  using keeps_reading_slice [OF keeps_reading_subset [OF assms], of "raw_Raw b"] by (simp add: view_raw_def cells_simps)

lemma keeps_statuses:
  assumes "keeps_reading statuses_of (slice_cells s) h h'"
    and "\<And>x. x \<in> set (read_slice statuses_of h s) \<Longrightarrow> keeps_reading conditions_of (slice_cells (rcs_Conditions x)) h h' \<and>
      keeps_reading time_of (pointer_cells (rcs_LastSyncedAt x)) h h'"
  shows "slice_view statuses_of view_cluster_status h' s = slice_view statuses_of view_cluster_status h s"
proof -
  have "view_cluster_status h' x = view_cluster_status h x" if "x \<in> set (read_slice statuses_of h s)" for x
    using assms(2) [OF that] keeps_reading_slice [of conditions_of "rcs_Conditions x" h h']
      keeps_reading_pointer [of time_of "rcs_LastSyncedAt x" h h'] by (simp add: view_cluster_status_def)
  then show ?thesis using keeps_reading_slice [OF assms(1)] by (simp add: slice_view_def)
qed

lemma status_entry_cells:
  "x \<in> set (read_slice statuses_of h (rst_Clusters st)) \<Longrightarrow>
   slice_cells (rcs_Conditions x) \<subseteq> cells_status h st \<and> pointer_cells (rcs_LastSyncedAt x) \<subseteq> cells_status h st"
  by (auto simp: cells_simps slice_reach_def elem_cells_def cells_cluster_status_eq)

lemma view_mc_other_clusters:
  assumes "keeps_reading conditions_of (cells_mc h r) h h'" "keeps_reading statuses_of (cells_mc h r) h h'"
    and "keeps_reading bytes_of (cells_mc h r) h h'" "keeps_reading strings_of (cells_mc h r) h h'"
    and "keeps_reading time_of (cells_mc h r) h h'"
  shows "view_mc h' r = mc_set_SpecClusters (read_slice targets_of h' (rsp_Clusters (rmc_Spec r))) (view_mc h r)"
proof -
  let ?st = "rmc_Status r"
  have sub: "cells_meta h (rmc_ObjectMeta r) \<subseteq> cells_mc h r" "cells_raw h (rsp_PostgresqlSpec (rmc_Spec r)) \<subseteq> cells_mc h r"
    "cells_status h ?st \<subseteq> cells_mc h r" "slice_cells (rst_Conditions ?st) \<subseteq> cells_mc h r" "slice_cells (rst_Clusters ?st) \<subseteq> cells_mc h r"
    by (auto simp: cells_mc_def cells_simps slice_reach_def)
  note on = keeps_reading_subset [OF assms(1)] keeps_reading_subset [OF assms(5)]
  have "slice_view statuses_of view_cluster_status h' (rst_Clusters ?st) = slice_view statuses_of view_cluster_status h (rst_Clusters ?st)"
  proof (rule keeps_statuses [OF keeps_reading_subset [OF assms(2) sub(5)]])
    fix x assume "x \<in> set (read_slice statuses_of h (rst_Clusters ?st))"
    from status_entry_cells [OF this] sub(3)
    have "slice_cells (rcs_Conditions x) \<subseteq> cells_mc h r" "pointer_cells (rcs_LastSyncedAt x) \<subseteq> cells_mc h r" by blast+
    then show "keeps_reading conditions_of (slice_cells (rcs_Conditions x)) h h' \<and>
        keeps_reading time_of (pointer_cells (rcs_LastSyncedAt x)) h h'" by (simp add: on)
  qed
  then show ?thesis
    using keeps_meta [OF keeps_reading_subset [OF assms(5) sub(1)] keeps_reading_subset [OF assms(4) sub(1)]]
      keeps_raw [OF keeps_reading_subset [OF assms(3) sub(2)]] keeps_reading_slice [OF on(1) [OF sub(4)]]
    by (simp add: view_mc_def view_spec_def view_status_def split: prod.split)
qed

lemma promote_roles_at_array:
  assumes "hp_cells h a = Some (TargetArray xs)" "n \<le> length xs"
  shows "hp_cells (promote_roles_at newPrimary (Some (a, n)) h) a = Some (TargetArray (promote_roles newPrimary (take n xs) @ drop n xs))"
    "b \<noteq> a \<Longrightarrow> hp_cells (promote_roles_at newPrimary (Some (a, n)) h) b = hp_cells h b"
proof -
  let ?f = "\<lambda>c. c\<lparr>ct_Role := (if ct_Name c = newPrimary then ClusterRolePrimary else ClusterRoleStandby)\<rparr>"
  let ?w = "\<lambda>i h. write_elem TargetArray targets_of (Some (a, n)) i (?f (array_at targets_of h a ! i)) h"
  have "hp_cells (fold ?w [0..<k] h) a = Some (TargetArray (map ?f (take k xs) @ drop k xs)) \<and>
      (\<forall>b. b \<noteq> a \<longrightarrow> hp_cells (fold ?w [0..<k] h) b = hp_cells h b)" if "k \<le> length xs" for k
    using that
  proof (induction k)
    case (Suc k)
    let ?h = "fold ?w [0..<k] h"
    from Suc have IH: "hp_cells ?h a = Some (TargetArray (map ?f (take k xs) @ drop k xs))"
      "\<forall>b. b \<noteq> a \<longrightarrow> hp_cells ?h b = hp_cells h b" by simp_all
    have "(map ?f (take k xs) @ drop k xs)[k := ?f ((map ?f (take k xs) @ drop k xs) ! k)] =
        map ?f (take (Suc k) xs) @ drop (Suc k) xs"
      using Suc.prems by (simp add: nth_append list_update_append take_Suc_conv_app_nth Cons_nth_drop_Suc [symmetric])
    with IH show ?case by (simp add: write_elem_def array_at_ok)
  qed (use assms(1) in simp)
  from this [OF assms(2)]
  show "hp_cells (promote_roles_at newPrimary (Some (a, n)) h) a = Some (TargetArray (promote_roles newPrimary (take n xs) @ drop n xs))"
    "b \<noteq> a \<Longrightarrow> hp_cells (promote_roles_at newPrimary (Some (a, n)) h) b = hp_cells h b"
    by (simp_all add: promote_roles_at_def promote_roles_def Let_def)
qed

lemma copy_elems_plain: "copy_elems (\<lambda>x h. (x, h)) xs h = (xs, h)"
  by (induction xs) simp_all

lemma copied_targets:
  assumes "wf_heap h" "slice_ok TargetArray h s" "copy_slice TargetArray targets_of zero (\<lambda>x h. (x, h)) s h = (s', h')"
  shows "slice_ok TargetArray h' s'"
proof (cases s)
  case (Some an)
  obtain a n where s: "s = Some (a, n)" using Some by (cases an) simp
  with assms(2) obtain xs where xs: "hp_cells h a = Some (TargetArray xs)" "n \<le> length xs" by auto
  obtain b h1 where b: "alloc (TargetArray (replicate n zero)) h = (b, h1)" by fastforce
  from assms(3) b xs have "s' = Some (b, n)" "h' = store b (TargetArray (take n xs)) h1"
    by (auto simp: copy_slice_def s copy_elems_plain)
  with xs(2) show ?thesis by simp
qed (use assms(3) in \<open>auto simp: copy_slice_def\<close>)

lemma copied_resource:
  assumes L: "library_copies L" and h: "wf_heap h" "cells_mc h r \<subseteq> allocated h" "slice_ok TargetArray h (rsp_Clusters (rmc_Spec r))"
    and c: "PostgresMC_DeepCopyInto L r h = (r', h')"
  shows "slice_ok TargetArray h' (rsp_Clusters (rmc_Spec r'))"
proof -
  obtain m h1 where m: "ObjectMeta_DeepCopyInto L (rmc_ObjectMeta r) h = (m, h1)" by fastforce
  obtain s h2 where s: "copy_slice TargetArray targets_of zero_ClusterTarget (\<lambda>x h. (x, h)) (rsp_Clusters (rmc_Spec r)) h1 = (s, h2)"
    by fastforce
  obtain b h3 where b: "RawExtension_DeepCopyInto L (rsp_PostgresqlSpec (rmc_Spec r)) h2 = (b, h3)" by fastforce
  obtain st h4 where st: "PostgresMCStatus_DeepCopyInto L (rmc_Status r) h3 = (st, h4)" by fastforce
  have r': "rsp_Clusters (rmc_Spec r') = s" "h' = h4"
    using c by (auto simp: PostgresMC_DeepCopyInto_def PostgresMCSpec_DeepCopyInto_def m s b st)
  have sub: "cells_meta h (rmc_ObjectMeta r) \<subseteq> allocated h" "cells_spec h (rmc_Spec r) \<subseteq> allocated h"
    "cells_status h (rmc_Status r) \<subseteq> allocated h" using h(2) by (auto simp: cells_mc_def)
  have e1: "extends h h1" using deep_copier.copies [OF library_copiers(1) [OF L] h(1) sub(1) m] by simp
  then have wf1: "wf_heap h1" by (simp add: extends_def)
  note ok2 = copied_targets [OF wf1 slice_ok_extends [OF h(3) e1] s]
  have targets: "deep_copier (slice_view targets_of plain_view) (slice_reach targets_of plain_cells)
      (copy_slice TargetArray targets_of zero_ClusterTarget (\<lambda>x h. (x, h)))"
    by (rule deep_copier.slice_copier [OF plain_copier]) simp
  have spec1: "slice_cells (rsp_Clusters (rmc_Spec r)) \<subseteq> allocated h1" "cells_raw h1 (rsp_PostgresqlSpec (rmc_Spec r)) \<subseteq> allocated h1"
    using sub(2) extends_allocated [OF e1] unfolding cells_simps by blast+
  have e2: "extends h1 h2" using deep_copier.copies [OF targets wf1 _ s] spec1(1) by simp
  then have wf2: "wf_heap h2" by (simp add: extends_def)
  have "cells_raw h2 (rsp_PostgresqlSpec (rmc_Spec r)) \<subseteq> allocated h2"
    using spec1(2) extends_allocated [OF e2] unfolding cells_simps by blast
  then have e3: "extends h2 h3" using deep_copier.copies [OF library_copiers(3) [OF L] wf2 _ b] by simp
  then have wf3: "wf_heap h3" by (simp add: extends_def)
  have e13: "extends h h3" using e1 e2 e3 by (blast intro: extends_trans)
  have "cells_status h3 (rmc_Status r) = cells_status h (rmc_Status r)"
    by (rule go_value.extended(2) [OF deep_copier.axioms(1) [OF Status_copier [OF L]] e13 sub(3)])
  then have "cells_status h3 (rmc_Status r) \<subseteq> allocated h3" using sub(3) extends_allocated [OF e13] by auto
  then have e4: "extends h3 h4" using deep_copier.copies [OF Status_copier [OF L] wf3 _ st] by simp
  have "extends h2 h4" using e3 e4 by (rule extends_trans)
  then show ?thesis unfolding r' by (rule slice_ok_extends [OF ok2])
qed

text \<open>A resource in memory that was copied by \<open>DeepCopy\<close>.\<close>

lemma DeepCopy_result:
  assumes L: "library_copies L" and h: "wf_heap h" "hp_cells h p = Some (PostgresMCCell r)" "cells_mc h r \<subseteq> allocated h"
    and c: "PostgresMC_DeepCopy L (Some p) h = (q, h')"
  obtains a r' where "q = Some a" "hp_cells h' a = Some (PostgresMCCell r')" "view_mc h' r' = view_mc h r"
    "insert a (cells_mc h' r') \<subseteq> allocated h' - allocated h" "extends h h'"
    "slice_ok TargetArray h (rsp_Clusters (rmc_Spec r)) \<longrightarrow> slice_ok TargetArray h' (rsp_Clusters (rmc_Spec r'))"
proof -
  obtain a r' where res: "q = Some a" "hp_cells h' a = Some (PostgresMCCell r')" "view_mc h' r' = view_mc h r"
    "insert a (cells_mc h' r') \<subseteq> allocated h' - allocated h" "extends h h'"
    and into: "PostgresMC_DeepCopyInto L r h = (r', snd (PostgresMC_DeepCopyInto L r h))"
      "extends (snd (PostgresMC_DeepCopyInto L r h)) h'"
    by (rule new_copy_isolated [OF PostgresMC_copier [OF L] _ h c [unfolded PostgresMC_DeepCopy_def]]) (simp, blast)
  from that [OF res] slice_ok_extends [OF copied_resource [OF L h(1,3) _ into(1)] into(2)] show ?thesis by blast
qed

text \<open>
  C26. The spec patch of an automatic failover. \<open>runAutoFailover\<close> copies the resource and writes the
  new roles into the array of the copy: afterwards the copy means the resource with the promoted
  roles, and the original, which the patch is relative to, still has the old ones. So the patch
  carries the change of the roles (with a shallow copy it would be empty).
\<close>

theorem spec_patch_in_place:
  assumes L: "library_copies L" and h: "wf_heap h" "hp_cells h p = Some (PostgresMCCell r)" "cells_mc h r \<subseteq> allocated h"
      "slice_ok TargetArray h (rsp_Clusters (rmc_Spec r))"
    and op: "spec_patch_at L newPrimary (Some p) h = (q, h')"
  shows "\<exists>a r'. q = Some a \<and> hp_cells h' a = Some (PostgresMCCell r') \<and>
    view_mc h' r' = mc_set_SpecClusters (promote_roles newPrimary (sp_Clusters (mc_Spec (view_mc h r)))) (view_mc h r) \<and>
    hp_cells h' p = Some (PostgresMCCell r) \<and> view_mc h' r = view_mc h r"
proof -
  obtain q1 h1 where c: "PostgresMC_DeepCopy L (Some p) h = (q1, h1)" by fastforce
  obtain a r' where copy: "q1 = Some a" "hp_cells h1 a = Some (PostgresMCCell r')" "view_mc h1 r' = view_mc h r"
    "insert a (cells_mc h1 r') \<subseteq> allocated h1 - allocated h" "extends h h1" "slice_ok TargetArray h1 (rsp_Clusters (rmc_Spec r'))"
    using DeepCopy_result [OF L h(1-3) c] h(4) by metis
  let ?s = "rsp_Clusters (rmc_Spec r')"
  from op have res: "q = Some a" "h' = promote_roles_at newPrimary ?s h1"
    by (simp_all add: spec_patch_at_def c copy(1,2) read_pointer_def)
  have targets: "sp_Clusters (mc_Spec (view_mc h1 r')) = read_slice targets_of h1 ?s"
    by (simp add: view_mc_def view_spec_def view_meta_def)
  have changed: "read_slice targets_of h' ?s = promote_roles newPrimary (read_slice targets_of h1 ?s) \<and>
      (\<forall>b. hp_cells h' b = hp_cells h1 b \<or>
        b \<in> slice_cells ?s \<and> (\<exists>xs ys. hp_cells h1 b = Some (TargetArray xs) \<and> hp_cells h' b = Some (TargetArray ys)))"
  proof (cases ?s)
    case None
    then show ?thesis by (simp add: res promote_roles_at_def promote_roles_def)
  next
    case (Some bn)
    obtain b n where s: "?s = Some (b, n)" using Some by (cases bn) simp
    with copy(6) obtain xs where xs: "hp_cells h1 b = Some (TargetArray xs)" "n \<le> length xs" by auto
    have new: "hp_cells h' b = Some (TargetArray (promote_roles newPrimary (take n xs) @ drop n xs))"
      "d \<noteq> b \<Longrightarrow> hp_cells h' d = hp_cells h1 d" for d
      using promote_roles_at_array [OF xs, where newPrimary = newPrimary] by (simp_all add: res s)
    from new(1) xs have "read_slice targets_of h' ?s = promote_roles newPrimary (read_slice targets_of h1 ?s)"
      by (simp add: s promote_roles_def)
    moreover have "hp_cells h' d = hp_cells h1 d \<or> d \<in> slice_cells ?s \<and>
        (\<exists>xs ys. hp_cells h1 d = Some (TargetArray xs) \<and> hp_cells h' d = Some (TargetArray ys))" for d
      using new xs(1) by (cases "d = b") (simp_all add: s)
    ultimately show ?thesis by blast
  qed
  have keeps: "keeps_reading conditions_of S h1 h'" "keeps_reading statuses_of S h1 h'" "keeps_reading bytes_of S h1 h'"
    "keeps_reading strings_of S h1 h'" "keeps_reading time_of S h1 h'" "keeps_reading postgresmc_of S h1 h'" for S
    using changed unfolding keeps_reading_def by (metis option.simps(9) conditions_of.simps(2) statuses_of.simps(2)
        bytes_of.simps(2) strings_of.simps(2) time_of.simps(2) postgresmc_of.simps(2))+
  from view_mc_other_clusters [OF keeps(1-5)] changed copy(3) targets
  have "view_mc h' r' = mc_set_SpecClusters (promote_roles newPrimary (sp_Clusters (mc_Spec (view_mc h r)))) (view_mc h r)"
    by simp
  moreover have "hp_cells h' a = Some (PostgresMCCell r')" using changed copy(2) by (metis cell.distinct option.inject)
  moreover have "agree (allocated h) h h'"
  proof -
    have "slice_cells ?s \<subseteq> cells_mc h1 r'" by (auto simp: cells_mc_def cells_simps)
    then have "slice_cells ?s \<inter> allocated h = {}" using copy(4) by blast
    then have "agree (allocated h) h1 h'" using changed by (auto simp: agree_def)
    with copy(5) show ?thesis by (auto simp: extends_def intro: agree_trans)
  qed
  moreover from this have "hp_cells h' p = Some (PostgresMCCell r)" using h(2) unfolding agree_def by (metis domI)
  moreover have "view_mc h' r = view_mc h r"
    using std_mc.frame agree_subset [OF \<open>agree (allocated h) h h'\<close> h(3)] by blast
  ultimately show ?thesis using res(1) by blast
qed

text \<open>
  The memory of a resource, when its status conditions are written: their array is not one of a
  cluster's conditions.
\<close>

definition resource_at :: "heap \<Rightarrow> addr \<Rightarrow> PostgresMCRep \<Rightarrow> bool" where
  "resource_at h p r \<longleftrightarrow> hp_cells h p = Some (PostgresMCCell r) \<and> cells_mc h r \<subseteq> allocated h \<and>
     slice_ok ConditionArray h (rst_Conditions (rmc_Status r)) \<and>
     (\<forall>x \<in> set (read_slice statuses_of h (rst_Clusters (rmc_Status r))).
        slice_cells (rst_Conditions (rmc_Status r)) \<inter> slice_cells (rcs_Conditions x) = {})"

text \<open>
  The status of an invalid spec. \<open>Reconcile\<close> copies the resource and then writes the condition
  and the phase into the original: afterwards the copy means the resource as it was and the
  original means \<open>invalid_spec_status\<close> of it, so the status patch carries exactly this difference.
\<close>

theorem invalid_spec_in_place:
  assumes L: "library_copies L" and h: "wf_heap h" "resource_at h p r"
    and op: "invalid_spec_at L G p message now h = (orig, h')"
  shows "\<exists>a r0 r'. orig = Some a \<and> hp_cells h' a = Some (PostgresMCCell r0) \<and> view_mc h' r0 = view_mc h r \<and>
    hp_cells h' p = Some (PostgresMCCell r') \<and> view_mc h' r' = invalid_spec_status (view_mc h r) (Err message nf) now"
proof -
  let ?st = "rmc_Status r" and ?s = "rst_Conditions (rmc_Status r)"
  from h(2) have p: "hp_cells h p = Some (PostgresMCCell r)" "cells_mc h r \<subseteq> allocated h"
    and s: "slice_ok ConditionArray h ?s" by (simp_all add: resource_at_def)
  obtain q h1 where c: "PostgresMC_DeepCopy L (Some p) h = (q, h1)" by fastforce
  obtain a r0 where copy: "q = Some a" "hp_cells h1 a = Some (PostgresMCCell r0)" "view_mc h1 r0 = view_mc h r"
    "insert a (cells_mc h1 r0) \<subseteq> allocated h1 - allocated h" "extends h h1"
    using DeepCopy_result [OF L h(1) p c] by metis
  have p1: "hp_cells h1 p = Some (PostgresMCCell r)"
    using copy(5) p(1) unfolding extends_def agree_def by (metis domI)
  obtain cs h2 where cs: "SetCondition_at G ?s ConditionReady ConditionFalse (om_Generation (rmc_ObjectMeta r))
      ReasonSpecInvalid message now h1 = (cs, h2)" by fastforce
  let ?r' = "r\<lparr>rmc_Status := ?st\<lparr>rst_Conditions := cs, rst_Phase := PhaseFailed\<rparr>\<rparr>"
  from op have res: "orig = Some a" "h' = store p (PostgresMCCell ?r') h2"
    by (simp_all add: invalid_spec_at_def c copy(1) p1 cs)
  have "wf_heap h1" using copy(5) by (simp add: extends_def)
  from SetCondition_at_refines [OF this slice_ok_extends [OF s copy(5)] cs]
  have set_c: "read_slice conditions_of h2 cs = SetCondition (read_slice conditions_of h1 ?s) ConditionReady ConditionFalse
      (om_Generation (rmc_ObjectMeta r)) ReasonSpecInvalid message now"
    "changes_only (slice_cells ?s) h1 h2" "slice_ok ConditionArray h2 cs" "slice_ok ConditionArray h2 ?s" by simp_all
  have s_p: "p \<notin> slice_cells ?s" using s p(1) by (cases ?s) auto
  have p2: "hp_cells h2 p = Some (PostgresMCCell r)"
    using set_c(2) p1 s_p unfolding changes_only_def agree_def by (metis DiffI domI)
  text \<open>Only the array of the conditions and the struct itself have new contents.\<close>
  have cell: "hp_cells h' d = hp_cells h d \<or> d = p \<or>
      d \<in> slice_cells ?s \<and> (\<exists>xs ys. hp_cells h d = Some (ConditionArray xs) \<and> hp_cells h' d = Some (ConditionArray ys))"
    if "d \<in> allocated h" for d
  proof (cases "d = p \<or> d \<in> slice_cells ?s")
    case True
    then show ?thesis using s set_c(4) s_p by (cases ?s) (auto simp: res(2))
  next
    case False
    have "hp_cells h1 d = hp_cells h d" using copy(5) that by (auto simp: extends_def agree_def)
    moreover from this that have "d \<in> allocated h1" by auto
    ultimately show ?thesis using False set_c(2) by (auto simp: res(2) changes_only_def agree_def)
  qed
  have keeps: "keeps_reading sel S h h'"
    if "S \<subseteq> allocated h" "\<And>xs ys. sel (ConditionArray xs) = sel (ConditionArray ys)"
      "\<And>x y. sel (PostgresMCCell x) = sel (PostgresMCCell y)" for S and sel :: "cell \<Rightarrow> 'x"
    unfolding keeps_reading_def
  proof
    fix d assume "d \<in> S"
    with that(1) have "d \<in> allocated h" by blast
    from cell [OF this] consider "hp_cells h' d = hp_cells h d" | "d = p"
      | xs ys where "hp_cells h d = Some (ConditionArray xs)" "hp_cells h' d = Some (ConditionArray ys)" by blast
    then show "map_option sel (hp_cells h' d) = map_option sel (hp_cells h d)"
      by cases (use p(1) that(2,3) in \<open>simp_all add: res(2)\<close>)
  qed
  have sub: "cells_meta h (rmc_ObjectMeta r) \<subseteq> allocated h" "cells_raw h (rsp_PostgresqlSpec (rmc_Spec r)) \<subseteq> allocated h"
    "slice_cells (rsp_Clusters (rmc_Spec r)) \<subseteq> allocated h" "cells_status h ?st \<subseteq> allocated h"
    "slice_cells (rst_Clusters ?st) \<subseteq> allocated h" "slice_cells ?s \<subseteq> allocated h"
    using p(2) unfolding cells_mc_def cells_simps slice_reach_def by blast+
  have statuses: "slice_view statuses_of view_cluster_status h' (rst_Clusters ?st) =
      slice_view statuses_of view_cluster_status h (rst_Clusters ?st)"
  proof (rule keeps_statuses [OF keeps [OF sub(5)]])
    fix x assume x: "x \<in> set (read_slice statuses_of h (rst_Clusters ?st))"
    from status_entry_cells [OF x] sub(4)
    have cells: "slice_cells (rcs_Conditions x) \<subseteq> allocated h" "pointer_cells (rcs_LastSyncedAt x) \<subseteq> allocated h" by blast+
    have "slice_cells ?s \<inter> slice_cells (rcs_Conditions x) = {}" using h(2) x by (simp add: resource_at_def)
    then have "map_option conditions_of (hp_cells h' d) = map_option conditions_of (hp_cells h d)"
      if d: "d \<in> slice_cells (rcs_Conditions x)" for d
    proof -
      from d cells(1) have "d \<in> allocated h" by blast
      from cell [OF this] d \<open>slice_cells ?s \<inter> slice_cells (rcs_Conditions x) = {}\<close>
      have "hp_cells h' d = hp_cells h d \<or> d = p" by blast
      with p(1) show ?thesis by (auto simp: res(2))
    qed
    then show "keeps_reading conditions_of (slice_cells (rcs_Conditions x)) h h' \<and>
        keeps_reading time_of (pointer_cells (rcs_LastSyncedAt x)) h h'"
      using keeps [OF cells(2), of time_of] by (simp add: keeps_reading_def)
  qed simp_all
  have "read_slice conditions_of h' cs = read_slice conditions_of h2 cs"
    using set_c(3) p2 by (cases cs) (auto simp: read_slice_def res(2))
  moreover have "read_slice conditions_of h1 ?s = read_slice conditions_of h ?s"
    using copy(5) sub(6) by (intro read_slice_agree) (auto simp: extends_def intro: agree_subset)
  ultimately have conds: "read_slice conditions_of h' cs = SetCondition (read_slice conditions_of h ?s) ConditionReady ConditionFalse
      (om_Generation (rmc_ObjectMeta r)) ReasonSpecInvalid message now" using set_c(1) by simp
  have "view_mc h' ?r' = invalid_spec_status (view_mc h r) (Err message nf) now"
    using keeps_meta [OF keeps [OF sub(1)] keeps [OF sub(1)]] keeps_raw [OF keeps [OF sub(2)]]
      keeps_reading_slice [OF keeps [OF sub(3)], of targets_of] statuses conds
    by (simp add: view_mc_def view_spec_def view_status_def view_meta_def invalid_spec_status_def)
  moreover have "agree (insert a (cells_mc h1 r0)) h1 h'"
  proof -
    have "insert a (cells_mc h1 r0) \<inter> (slice_cells ?s \<union> {p}) = {}" using copy(4) sub(6) p(1) by blast
    then show ?thesis using set_c(2) copy(4) by (auto simp: res(2) changes_only_def agree_def)
  qed
  then have "agree (cells_mc h1 r0) h1 h'" "hp_cells h' a = hp_cells h1 a" by (auto simp: agree_def)
  ultimately show ?thesis
    using std_mc.frame copy(2,3) res by force
qed

section \<open>The sample resource\<close>

lemma spec_patch_in_place_witness:
  "\<exists>a r' h'. spec_patch_at std_library ''us'' (Some 0) sample_heap = (Some a, h') \<and>
     map ct_Role (sp_Clusters (mc_Spec (view_mc h' r'))) = [ClusterRoleStandby, ClusterRolePrimary] \<and>
     map ct_Role (sp_Clusters (mc_Spec (view_mc h' sample_rep))) = [ClusterRolePrimary, ClusterRoleStandby]"
proof -
  obtain q h' where op: "spec_patch_at std_library ''us'' (Some 0) sample_heap = (q, h')" by fastforce
  have "slice_ok TargetArray sample_heap (rsp_Clusters (rmc_Spec sample_rep))"
    by (simp add: sample_rep_def sample_heap_cells)
  from spec_patch_in_place [OF std_library_copies sample_heap_wf sample_heap_cells(1) sample_heap_closed this op]
  obtain a r' where "q = Some a"
    "view_mc h' r' = mc_set_SpecClusters (promote_roles ''us'' (sp_Clusters (mc_Spec (view_mc sample_heap sample_rep)))) (view_mc sample_heap sample_rep)"
    "view_mc h' sample_rep = view_mc sample_heap sample_rep" by blast
  moreover have "sp_Clusters (mc_Spec (view_mc sample_heap sample_rep)) = [sample_eu, sample_us]"
    by (simp add: view_mc_def view_meta_def view_spec_def) (simp add: sample_rep_def sample_heap_cells)
  ultimately show ?thesis
    by (intro exI [of _ a] exI [of _ r'] exI [of _ h']) (simp add: op promote_roles_def sample_eu_def sample_us_def)
qed

lemma invalid_spec_in_place_witness:
  "\<exists>a r0 r' h'. invalid_spec_at std_library (\<lambda>n. n) 0 ''no primary'' 9 sample_heap = (Some a, h') \<and>
     st_Phase (mc_Status (view_mc h' r')) = PhaseFailed \<and> hp_cells h' 0 = Some (PostgresMCCell r') \<and>
     st_Phase (mc_Status (view_mc h' r0)) = ''Ready'' \<and> hp_cells h' a = Some (PostgresMCCell r0)"
proof -
  obtain q h' where op: "invalid_spec_at std_library (\<lambda>n. n) 0 ''no primary'' 9 sample_heap = (q, h')" by fastforce
  have "resource_at sample_heap 0 sample_rep"
    unfolding resource_at_def using sample_heap_closed
    by (simp add: sample_heap_cells) (simp add: sample_rep_def sample_heap_cells zero_ClusterStatusRep_def)
  from invalid_spec_in_place [OF std_library_copies sample_heap_wf this op, of False]
  obtain a r0 r' where "q = Some a" "hp_cells h' a = Some (PostgresMCCell r0)" "view_mc h' r0 = view_mc sample_heap sample_rep"
    "hp_cells h' 0 = Some (PostgresMCCell r')"
    "view_mc h' r' = invalid_spec_status (view_mc sample_heap sample_rep) (Err ''no primary'' False) 9" by blast
  moreover have "st_Phase (mc_Status (view_mc sample_heap sample_rep)) = ''Ready''"
    by (simp add: view_mc_def view_meta_def view_status_def sample_rep_def)
  ultimately show ?thesis
    using op by (intro exI [of _ a] exI [of _ r0] exI [of _ r'] exI [of _ h']) (simp add: invalid_spec_status_def)
qed

lemma SetClusterCondition_at_refines_witness:
  "\<exists>s' h'. SetClusterCondition_at (\<lambda>n. n) (Some (3, 1)) ''us'' ConditionReady ConditionTrue 1 [] [] 9 sample_heap = (s', h') \<and>
     map cs_Name (slice_view statuses_of view_cluster_status h' s') = [''eu'', ''us'']"
proof -
  obtain s' h' where op: "SetClusterCondition_at (\<lambda>n. n) (Some (3, 1)) ''us'' ConditionReady ConditionTrue 1 [] [] 9 sample_heap = (s', h')"
    by fastforce
  have "statuses_ok sample_heap (Some (3, 1))"
    by (simp add: statuses_ok_def cluster_ok_def unshared_def sample_heap_cells zero_ClusterStatusRep_def)
  from SetClusterCondition_at_refines [OF sample_heap_wf this op]
  have "slice_view statuses_of view_cluster_status h' s' =
      SetClusterCondition (slice_view statuses_of view_cluster_status sample_heap (Some (3, 1))) ''us'' ConditionReady ConditionTrue 1 [] [] 9"
    by simp
  then have "map cs_Name (slice_view statuses_of view_cluster_status h' s') = [''eu'', ''us'']"
    by (simp add: slice_view_def sample_heap_cells view_cluster_status_def zero_ClusterStatusRep_def zero_ClusterStatus_def)
  with op show ?thesis by (intro exI [of _ s'] exI [of _ h']) simp
qed

end
