(* ===== verification/Process_Entry.thy ===== *)
theory Process_Entry
  imports Controller
begin

text \<open>
  The start of the process: \<open>cmd/main.go\<close>, \<open>api/v1alpha1/groupversion_info.go\<close>, the constructors that
  \<open>main\<close> calls and \<open>SetupWithManager\<close>. The manager of controller-runtime is not part of the
  repository: what it answers to the calls of \<open>main\<close> is a parameter. The flags are as
  \<open>flag.Parse\<close> left them.
\<close>

section \<open>Flags, schemes and options\<close>

record flags =
  fl_MetricsBindAddress :: string
  fl_HealthProbeBindAddress :: string
  fl_LeaderElect :: bool

definition default_flags :: flags where
  "default_flags = \<lparr>fl_MetricsBindAddress = '':8080'', fl_HealthProbeBindAddress = '':8081'', fl_LeaderElect = False\<rparr>"

text \<open>A scheme knows groups of types: those of client-go, and the group and version of the operator.\<close>

datatype type_group = ClientGoTypes | GroupVersion string string "string list"

type_synonym scheme = "type_group list"

definition pgmc_group :: type_group where
  "pgmc_group = GroupVersion ''pgmc.aurelops.com'' ''v1alpha1'' [''PostgresMC'', ''PostgresMCList'']"

definition techScheme :: scheme where
  "techScheme = [ClientGoTypes, pgmc_group]"

definition workloadScheme :: scheme where
  "workloadScheme = [ClientGoTypes]"

record manager_options =
  mo_Scheme :: scheme
  mo_MetricsBindAddress :: string
  mo_HealthProbeBindAddress :: string
  mo_LeaderElection :: bool
  mo_LeaderElectionID :: string
  mo_CacheNamespaces :: "string list"

definition manager_options_of :: "flags \<Rightarrow> manager_options" where
  "manager_options_of fl =
     \<lparr>mo_Scheme = techScheme, mo_MetricsBindAddress = fl_MetricsBindAddress fl,
      mo_HealthProbeBindAddress = fl_HealthProbeBindAddress fl, mo_LeaderElection = fl_LeaderElect fl,
      mo_LeaderElectionID = ''pgmc.aurelops.com'', mo_CacheNamespaces = [''postgres-system'']\<rparr>"

section \<open>The parts\<close>

record registry =
  rg_scheme :: scheme
  rg_ttl :: time
  rg_cache :: "string \<rightharpoonup> cached_entry"

definition NewRegistry :: "scheme \<Rightarrow> time \<Rightarrow> registry" where
  "NewRegistry scheme ttl = \<lparr>rg_scheme = scheme, rg_ttl = ttl, rg_cache = Map.empty\<rparr>"

text \<open>The reconciler's fields that carry a value; the others are stateless managers.\<close>

record PostgresMCReconciler =
  rec_Scheme :: scheme
  rec_Recorder :: string
  rec_Clusters :: registry

definition main_reconciler :: PostgresMCReconciler where
  "main_reconciler = \<lparr>rec_Scheme = techScheme, rec_Recorder = ''postgres-mc-operator'',
     rec_Clusters = NewRegistry workloadScheme registryTTL\<rparr>"

section \<open>The calls of main\<close>

datatype setup_call =
    GetConfig
  | NewManager manager_options
  | NewController string PostgresMCReconciler
  | AddHealthzCheck string
  | AddReadyzCheck string
  | StartManager

text \<open>\<open>ctrl.NewControllerManagedBy(mgr).For(&PostgresMC{}).Complete(r)\<close>\<close>

definition SetupWithManager :: "PostgresMCReconciler \<Rightarrow> setup_call" where
  "SetupWithManager r = NewController ''PostgresMC'' r"

text \<open>Each call that fails ends the process with code 1; when the manager stops, with code 0.\<close>

fun run_setup :: "(setup_call \<Rightarrow> err option) \<Rightarrow> setup_call list \<Rightarrow> setup_call list \<times> nat" where
  "run_setup answer [] = ([], 0)"
| "run_setup answer (c # cs) =
     (case answer c of
        Some e \<Rightarrow> ([c], 1)
      | None \<Rightarrow> (case run_setup answer cs of (made, code) \<Rightarrow> (c # made, code)))"

definition main :: "flags \<Rightarrow> (setup_call \<Rightarrow> err option) \<Rightarrow> setup_call list \<times> nat" where
  "main fl answer = run_setup answer
     [GetConfig, NewManager (manager_options_of fl), SetupWithManager main_reconciler,
      AddHealthzCheck ''healthz'', AddReadyzCheck ''readyz'', StartManager]"

text \<open>
  The manager starts only after everything before was accepted, with a controller whose registry
  is empty, knows the core types only and keeps its clients for \<open>registryTTL\<close>.
\<close>

lemma run_setup_last:
  "run_setup answer (cs @ [c]) = (made, code) \<Longrightarrow> c \<notin> set cs \<Longrightarrow> c \<in> set made \<Longrightarrow>
   made = cs @ [c] \<and> (\<forall>d \<in> set cs. answer d = None) \<and> (code = 0 \<longleftrightarrow> answer c = None)"
  by (induction cs arbitrary: made) (auto split: option.splits prod.splits)

lemma main_starts_manager:
  assumes "main fl answer = (made, code)" "StartManager \<in> set made"
  shows "\<exists>before. made = before @ [StartManager] \<and> (\<forall>c \<in> set before. answer c = None) \<and>
    NewController ''PostgresMC'' main_reconciler \<in> set before \<and> (code = 0 \<longleftrightarrow> answer StartManager = None)"
  using run_setup_last [of answer "[GetConfig, NewManager (manager_options_of fl), SetupWithManager main_reconciler,
      AddHealthzCheck ''healthz'', AddReadyzCheck ''readyz'']" StartManager made code] assms
  by (auto simp: main_def SetupWithManager_def)

text \<open>The registry of the started process is the initial cache of the reconciles.\<close>

lemma main_registry:
  "rg_cache (rec_Clusters main_reconciler) = op_cache (mem_state w)" "rg_ttl (rec_Clusters main_reconciler) = registryTTL"
  by (simp_all add: main_reconciler_def NewRegistry_def mem_state_def)

end
