(* ===== verification/Call_Bounds.thy ===== *)
theory Call_Bounds
  imports Controller
begin

text \<open>
  How much a reconcile does: every operation makes a bounded number of calls and records a bounded
  number of events, whatever the servers answer. The loops of the controller range over the
  clusters of the spec, so one reconcile ends after a number of calls linear in the clusters.
\<close>

abbreviation at_most :: "('w, 'a) op \<Rightarrow> nat \<Rightarrow> bool" where
  "at_most m n \<equiv> emits m (\<lambda>_ es. length es \<le> n)"

lemma at_most_mono: "at_most m k \<Longrightarrow> k \<le> n \<Longrightarrow> at_most m n"
  by (erule emits_mono) simp

text \<open>A bounded operation, followed by what its result leads to.\<close>

lemma at_most_bind:
  assumes "at_most m k" "\<And>x. at_most (f x) n"
  shows "at_most (m \<bind> f) (k + n)"
  by (rule emits_bind, rule emits_mono [OF assms(1)], rule emits_mono [OF assms(2)]) simp

section \<open>One cluster\<close>

lemma GetClient_at_most: "at_most (GetClient A ttl target ns) 1"
  unfolding GetClient_def Let_def by (intro emits_intro) simp_all

lemma applyService_at_most: "at_most (applyService A c desired) 2"
  unfolding applyService_def Let_def by (intro emits_intro) simp_all

lemma discover_at_most: "at_most (discoverNodeIP A c) 1" "at_most (discoverLoadBalancerHost A c ns name) 1"
  unfolding discoverNodeIP_def discoverLoadBalancerHost_def by (intro emits_intro; simp)+

lemma Ensure_at_most: "at_most (Ensure A c mc target) 3"
  unfolding Ensure_def ensureNodePort_def ensureLoadBalancer_def Let_def
  by (intro emits_intro emits_mono [OF applyService_at_most] emits_mono [OF discover_at_most(1)]
      emits_mono [OF discover_at_most(2)]) simp_all

lemma Delete_at_most: "at_most (Delete A c mc target) 2"
  unfolding Delete_def by (intro emits_intro) simp_all

lemma DeleteAlias_at_most: "at_most (DeleteAlias A c ns name) 2"
  unfolding DeleteAlias_def Let_def by (intro emits_intro) simp_all

lemma alias_parts_at_most:
  "at_most (ensureHeadlessService A plan name) 2" "at_most (ensureEndpoints A plan name) 2"
  "at_most (ensureExternalName A plan name) 2"
  unfolding ensureHeadlessService_def ensureEndpoints_def ensureExternalName_def Let_def by (intro emits_intro; simp)+

lemma EnsurePrimaryAlias_at_most: "at_most (EnsurePrimaryAlias A plan) 4"
  unfolding EnsurePrimaryAlias_def ensureHeadlessWithEndpoints_def Let_def
  by (intro emits_if emits_bind emits_mono [OF alias_parts_at_most(1)] emits_mono [OF alias_parts_at_most(3)]
      emits_case_option emits_return emits_mono [OF alias_parts_at_most(2)]) simp_all

lemma applySecret_at_most: "at_most (applySecret A c secret) 2"
  unfolding applySecret_def Let_def by (intro emits_intro) simp_all

lemma syncToStandby_at_most: "at_most (syncToStandby A sources name standby) (2 * length sources)"
proof (induction sources)
  case (Cons src sources)
  show ?case
    unfolding syncToStandby.simps Let_def
    by (intro emits_intro emits_mono [OF applySecret_at_most] emits_mono [OF Cons.IH]) simp_all
qed (simp add: emits_return)

lemma fetchCredentials_at_most:
  "emits (fetchCredentials_loop A c ns name roles out)
     (\<lambda>r es. length es \<le> length roles \<and> (case r of Inl e \<Rightarrow> True | Inr secrets \<Rightarrow> length secrets \<le> length out + length roles))"
proof (induction roles arbitrary: out)
  case (Cons role roles)
  show ?case
    unfolding fetchCredentials_loop.simps Let_def
    by (intro emits_intro emits_mono [OF Cons.IH]) (fastforce split: sum.splits)+
qed (simp add: emits_return)

lemma update_length: "length (dict_put k v d) \<le> Suc (length d)"
  by (induction d) auto

lemma SyncFromPrimary_loop_at_most:
  assumes "length secrets \<le> 2"
  shows "emits (SyncFromPrimary_loop A secrets name standbys result)
     (\<lambda>r es. length es \<le> 4 * length standbys \<and> length (sr_PerCluster r) \<le> length (sr_PerCluster result) + length standbys)"
proof (induction standbys arbitrary: result)
  case (Cons standby standbys)
  have one: "at_most (syncToStandby A secrets name standby) 4"
    by (rule at_most_mono [OF syncToStandby_at_most]) (use assms in simp)
  show ?case
    unfolding SyncFromPrimary_loop.simps
    by (rule emits_bind, rule emits_mono [OF one], rule emits_mono [OF Cons.IH])
      (use update_length [of "stb_ClusterName standby" _ "sr_PerCluster result"] in \<open>auto intro: le_trans\<close>)
qed (simp add: emits_return)

lemma sync_events_at_most: "at_most (sync_events_loop entries) (length entries)"
proof (induction entries)
  case (Cons entry entries)
  show ?case
    unfolding sync_events_loop.simps by (intro emits_intro emits_mono [OF Cons.IH]) simp_all
qed (simp add: emits_return)

lemma reconcileCredentials_at_most: "at_most (reconcileCredentials A mc p standbys) (2 + 5 * length standbys)"
proof -
  let ?plan = "credential_plan mc p standbys"
  have "emits (SyncFromPrimary A ?plan) (\<lambda>r es. length es \<le> 2 + 4 * length standbys \<and>
      (case r of Inl e \<Rightarrow> True | Inr result \<Rightarrow> length (sr_PerCluster result) \<le> length standbys))"
    unfolding SyncFromPrimary_def fetchCredentials_def
    apply (rule emits_bind, rule emits_mono [OF fetchCredentials_at_most], rule emits_case_sum)
     apply (rule emits_return, simp add: CredentialRoles_def)
    apply (rule emits_bind, rule emits_mono [OF SyncFromPrimary_loop_at_most])
     apply (simp add: CredentialRoles_def)
    apply (rule emits_return, simp add: CredentialRoles_def credential_plan_def)
    done
  then show ?thesis
    unfolding reconcileCredentials_def
    apply (rule emits_bind [OF emits_mono])
    apply (intro emits_case_sum emits_if emits_return emits_bind emits_mono [OF sync_events_at_most])
       apply auto
    done
qed

lemma credentials_loop_at_most: "at_most (credentials_loop A c ns name roles) (length roles)"
proof (induction roles)
  case (Cons role roles)
  show ?case
    unfolding credentials_loop.simps Let_def by (intro emits_intro emits_mono [OF Cons.IH]) simp_all
qed (simp add: emits_return)

lemma reconcilePrimary_at_most: "at_most (reconcilePrimary A mc p) 3"
  unfolding reconcilePrimary_def Let_def
  by (intro emits_intro emits_mono [OF credentials_loop_at_most]) (simp_all add: CredentialRoles_def)

lemma reconcileStandby_at_most: "at_most (reconcileStandby A mc endpoint standby) 5"
  unfolding reconcileStandby_def Let_def
  by (intro emits_if emits_return emits_bind emits_mono [OF EnsurePrimaryAlias_at_most] emits_case_option emits_case_outcome
      emits_workload_call emits_case_sum) simp_all

section \<open>A failover\<close>

lemma demote_at_most: "at_most (demoteCluster A mc target host port) 1"
  unfolding demoteCluster_def applyUnstructured_def by (intro emits_intro) simp_all

lemma promote_at_most: "at_most (promoteCluster A mc target) 2"
  unfolding promoteCluster_def applyUnstructured_def Let_def by (intro emits_intro) simp_all

lemma repoint_loop_at_most: "at_most (repoint_loop A mc host port standbys) (length standbys)"
proof (induction standbys)
  case (Cons standby standbys)
  show ?case
    unfolding repoint_loop.simps repoint_demote
    by (rule emits_bind, rule emits_mono [OF demote_at_most], intro emits_case_outcome emits_mono [OF Cons.IH] emits_return) simp_all
qed (simp add: emits_return)

lemma alias_loop_at_most: "at_most (alias_loop A mc host port standbys) (4 * length standbys)"
proof (induction standbys)
  case (Cons standby standbys)
  show ?case
    unfolding alias_loop.simps
    by (intro emits_case_option emits_return emits_bind emits_mono [OF EnsurePrimaryAlias_at_most] emits_mono [OF Cons.IH]) simp_all
qed (simp add: emits_return)

lemma Run_at_most: "at_most (Run A plan) (7 + 5 * length (pn_OtherStandbys plan))"
  unfolding Run_def Let_def
  by (intro emits_if emits_return emits_bind emits_mono [OF demote_at_most] emits_case_outcome emits_mono [OF promote_at_most]
      emits_mono [OF repoint_loop_at_most] emits_mono [OF alias_loop_at_most]) simp_all

lemma failover_targets_at_most:
  "emits (failover_targets A ttl mc targets sides) (\<lambda>r es. length es \<le> length targets \<and>
     (case r of Inl e \<Rightarrow> True | Inr sides' \<Rightarrow> length (fs_others sides') \<le> length (fs_others sides) + length targets))"
proof (induction targets arbitrary: sides)
  case (Cons target targets)
  show ?case
    unfolding failover_targets.simps
    by (rule emits_bind, rule emits_mono [OF GetClient_at_most], intro emits_case_sum emits_return emits_mono [OF Cons.IH])
      (auto simp: place_cluster_def split: sum.splits if_splits)
qed (simp add: emits_return)

lemma completeFailover_at_most: "at_most (completeFailover A ttl mc) (9 + 6 * length (sp_Clusters (mc_Spec mc)))"
  unfolding completeFailover_def Let_def
  by (rule emits_bind, rule emits_mono [OF failover_targets_at_most],
      intro emits_case_sum emits_return emits_bind emits_mono [OF Run_at_most] emits_case_outcome emits_now emits_tech_call emits_record_event)
    (simp_all add: failover_plan_def no_sides_def)

lemma runFailover_at_most:
  assumes "returns_patched A"
  shows "at_most (runFailover A ttl mc orig) (11 + 6 * length (sp_Clusters (mc_Spec mc)))"
  by (rule runFailover_reduce [OF completeFailover_at_most]) (use assms in simp)

lemma runAutoFailover_at_most: "at_most (runAutoFailover A mc orig reachable) 3"
  unfolding runAutoFailover_def Let_def by (intro emits_intro) simp_all

section \<open>A deletion\<close>

lemma deleteOnCluster_at_most: "at_most (deleteOnCluster A mc target c) 5"
  unfolding deleteOnCluster_def deletePostgresql_def Let_def
  by (intro emits_if emits_return emits_bind emits_mono [OF Delete_at_most] emits_mono [OF DeleteAlias_at_most] emits_case_option
      emits_workload_call emits_case_sum) simp_all

lemma deletion_loop_at_most: "at_most (deletion_loop A ttl mc targets) (6 * length targets)"
proof (induction targets)
  case (Cons target targets)
  show ?case
    unfolding deletion_loop.simps
    by (rule emits_bind, rule emits_mono [OF GetClient_at_most],
        intro emits_case_sum emits_bind emits_mono [OF deleteOnCluster_at_most] emits_case_option emits_return emits_mono [OF Cons.IH])
      auto
qed (simp add: emits_return)

section \<open>A reconcile\<close>

lemma resolve_loop_at_most:
  "emits (resolve_loop A ttl targets rv) (\<lambda>r es. length es \<le> 2 * length targets \<and>
     length (rv_clients r) \<le> length (rv_clients rv) + length targets)"
proof (induction targets arbitrary: rv)
  case (Cons target targets)
  show ?case
    unfolding resolve_loop.simps Let_def
    by (rule emits_bind, rule emits_mono [OF GetClient_at_most],
        intro emits_case_sum emits_bind emits_record_event emits_now emits_mono [OF Cons.IH]) auto
qed (simp add: emits_return)

lemma ensure_loop_at_most: "at_most (ensure_loop A rcs mc endpoints requeue) (3 * length rcs)"
proof (induction rcs arbitrary: mc endpoints requeue)
  case (Cons rc rcs)
  show ?case
    unfolding ensure_loop.simps Let_def
    by (rule emits_bind, rule emits_mono [OF Ensure_at_most], intro emits_case_sum emits_case_prod emits_mono [OF Cons.IH]) auto
qed (simp add: emits_return)

lemma primary_step_at_most: "at_most (primary_step A mc primary requeue) 3"
  unfolding primary_step_def
  by (intro emits_case_option emits_return emits_bind emits_mono [OF reconcilePrimary_at_most] emits_case_outcome emits_now emits_if) simp_all

lemma standbys_loop_at_most: "at_most (standbys_loop A endpoint standbys mc) (5 * length standbys)"
proof (induction standbys arbitrary: mc)
  case (Cons standby standbys)
  show ?case
    unfolding standbys_loop.simps
    by (rule emits_bind, rule emits_mono [OF reconcileStandby_at_most],
        intro emits_case_outcome emits_return emits_bind emits_now emits_mono [OF Cons.IH]) auto
qed (simp add: emits_return)

lemma standbys_step_at_most:
  "at_most (standbys_step A mc primary ready endpoint standbys requeue) (2 + 10 * length standbys)"
  unfolding standbys_step_def
  by (intro emits_case_option emits_return emits_if emits_bind emits_mono [OF reconcileCredentials_at_most]
      emits_mono [OF standbys_loop_at_most] emits_case_outcome) auto

lemma reconcile_clusters_at_most:
  "at_most (reconcile_clusters A mc orig specPrimary rcs unreachable) (6 + 13 * length rcs)"
proof -
  have len: "length standbys \<le> length rcs" if "splitByRole rcs = (primary, standbys)" for primary standbys
    using splitByRole_standbys [of rcs] that by simp
  show ?thesis
    unfolding reconcile_clusters_def Let_def
    apply (rule emits_case_prod)
    apply (rule emits_bind, rule emits_mono [OF ensure_loop_at_most], (rule emits_case_prod)+)
    apply (rule emits_bind, rule emits_mono [OF primary_step_at_most], rule emits_case_outcome)
      apply ((rule emits_case_prod)+, rule emits_bind, rule emits_mono [OF standbys_step_at_most], rule emits_case_outcome)
        apply (rule emits_case_prod, intro emits_bind emits_now emits_tech_call emits_case_sum emits_return)
         apply (auto dest!: len intro!: emits_return)
    done
qed



end
