(* ===== verification/Registry_Steps.thy ===== *)
theory Registry_Steps
  imports Registry
begin

text \<open>
  The registry of \<open>internal/clusters\<close> under concurrent callers. \<open>GetClient\<close> and \<open>Invalidate\<close> are
  cut at the points where another goroutine can run: every call of a library, every acquisition
  and release of the \<open>sync.RWMutex\<close> and every access to the map is a step of its own. A run
  interleaves the steps of any number of calls with changes of the world by others.
\<close>

section \<open>Calls and where they stand\<close>

datatype reg_call =
    GetCall ClusterTarget string
  | InvalidateCall string string

text \<open>
  The place of a goroutine in its call: before the first statement; with the Secret; inside
  \<open>RLock\<close> before and after the lookup; before the check of the age; before the client is built;
  with a client; inside \<open>Lock\<close> before and after the assignment; inside the loop of \<open>Invalidate\<close>
  with the keys still to visit; returned.
\<close>

datatype phase =
    Called
  | Fetched Secret
  | Looking Secret
  | Looked Secret "cached_entry option"
  | Checking Secret "cached_entry option"
  | Building Secret
  | Built Secret client
  | Storing Secret client
  | Stored client
  | Dropping "string list"
  | Returned "err + client"
  | Finished

text \<open>
  The shared state. The mutex is given by the goroutines that hold it for reading and the one
  that holds it for writing. That a waiting writer keeps new readers out is not modelled: it
  only excludes runs.
\<close>

record 'w shared_registry =
  rg_world :: 'w
  rg_cache :: "string \<rightharpoonup> cached_entry"
  rg_readers :: "nat set"
  rg_writer :: "nat option"
  rg_phase :: "nat \<Rightarrow> phase"

definition fresh_registry :: "'w \<Rightarrow> 'w shared_registry" where
  "fresh_registry w = \<lparr>rg_world = w, rg_cache = Map.empty, rg_readers = {}, rg_writer = None,
     rg_phase = (\<lambda>_. Called)\<rparr>"

definition goto :: "nat \<Rightarrow> phase \<Rightarrow> 'w shared_registry \<Rightarrow> 'w shared_registry" where
  "goto i p s = s\<lparr>rg_phase := (rg_phase s)(i := p)\<rparr>"

text \<open>What a step does, for the history of a run.\<close>

datatype reg_action =
    ReadSecret nat string string Secret
  | Lookup string "cached_entry option"
  | Build string client
  | Store string client time
  | Drop string string
  | Internal

section \<open>Steps\<close>

fun GetClient_step ::
  "'w api \<Rightarrow> time \<Rightarrow> ClusterTarget \<Rightarrow> string \<Rightarrow> nat \<Rightarrow> phase \<Rightarrow> 'w shared_registry \<Rightarrow>
   (reg_action \<times> 'w shared_registry) option" where
  "GetClient_step A ttl target ns i Called s =
     (case tech_get_secret A (secret_namespace target ns) (ct_ClusterRef target) (rg_world s) of
        (Inl e, w) \<Rightarrow> Some (Internal, goto i (Returned (Inl (errorf_wrap (''getting kubeconfig secret '' @
            secret_namespace target ns @ ''/'' @ ct_ClusterRef target) e))) (s\<lparr>rg_world := w\<rparr>))
      | (Inr secret, w) \<Rightarrow> Some (ReadSecret i (secret_namespace target ns) (ct_ClusterRef target) secret,
            goto i (Fetched secret) (s\<lparr>rg_world := w\<rparr>)))"
| "GetClient_step A ttl target ns i (Fetched secret) s =
     (if rg_writer s = None
      then Some (Internal, goto i (Looking secret) (s\<lparr>rg_readers := insert i (rg_readers s)\<rparr>))
      else None)"
| "GetClient_step A ttl target ns i (Looking secret) s =
     (let entry = rg_cache s (target_key target ns secret)
      in Some (Lookup (target_key target ns secret) entry, goto i (Looked secret entry) s))"
| "GetClient_step A ttl target ns i (Looked secret entry) s =
     Some (Internal, goto i (Checking secret entry) (s\<lparr>rg_readers := rg_readers s - {i}\<rparr>))"
| "GetClient_step A ttl target ns i (Checking secret entry) s =
     (case entry of
        None \<Rightarrow> Some (Internal, goto i (Building secret) s)
      | Some e \<Rightarrow> (case time_now A (rg_world s) of (t, w) \<Rightarrow>
          Some (Internal, goto i (if t - ce_builtAt e < ttl then Returned (Inr (ce_client e)) else Building secret)
            (s\<lparr>rg_world := w\<rparr>))))"
| "GetClient_step A ttl target ns i (Building secret) s =
     (case dict_get (sec_Data secret) ''kubeconfig'' of
        None \<Rightarrow> Some (Internal, goto i (Returned (Inl (errorf (''secret '' @ secret_namespace target ns @ ''/'' @
            ct_ClusterRef target @ '' missing key 'kubeconfig'')))) s)
      | Some kubeconfigData \<Rightarrow>
          (case rest_config_from_kubeconfig A kubeconfigData of
             Inl e \<Rightarrow> Some (Internal, goto i (Returned (Inl (errorf_wrap (''parsing kubeconfig from secret '' @
                 secret_namespace target ns @ ''/'' @ ct_ClusterRef target) e))) s)
           | Inr cfg \<Rightarrow>
               (case new_client A cfg (rg_world s) of
                  (Inl e, w) \<Rightarrow> Some (Internal, goto i (Returned (Inl (errorf_wrap (''building client for cluster '' @
                      ct_Name target) e))) (s\<lparr>rg_world := w\<rparr>))
                | (Inr c, w) \<Rightarrow> Some (Build cfg c, goto i (Built secret c) (s\<lparr>rg_world := w\<rparr>)))))"
| "GetClient_step A ttl target ns i (Built secret c) s =
     (if rg_writer s = None \<and> rg_readers s = {}
      then Some (Internal, goto i (Storing secret c) (s\<lparr>rg_writer := Some i\<rparr>))
      else None)"
| "GetClient_step A ttl target ns i (Storing secret c) s =
     (case time_now A (rg_world s) of (t, w) \<Rightarrow>
        Some (Store (target_key target ns secret) c t, goto i (Stored c)
          (s\<lparr>rg_world := w, rg_cache := cache_store (target_key target ns secret) c t (rg_cache s)\<rparr>)))"
| "GetClient_step A ttl target ns i (Stored c) s =
     Some (Internal, goto i (Returned (Inr c)) (s\<lparr>rg_writer := None\<rparr>))"
| "GetClient_step A ttl target ns i _ s = None"

definition secret_prefix :: "string \<Rightarrow> string \<Rightarrow> string" where
  "secret_prefix ns name = ns @ ''/'' @ name @ ''@''"

text \<open>The loop of \<open>Invalidate\<close> visits the keys of the map in the order \<open>ks\<close>.\<close>

fun Invalidate_step ::
  "string \<Rightarrow> string \<Rightarrow> nat \<Rightarrow> string list \<Rightarrow> phase \<Rightarrow> 'w shared_registry \<Rightarrow>
   (reg_action \<times> 'w shared_registry) option" where
  "Invalidate_step ns name i ks Called s =
     (if rg_writer s = None \<and> rg_readers s = {}
      then Some (Drop ns name, goto i (Dropping ks) (s\<lparr>rg_writer := Some i\<rparr>))
      else None)"
| "Invalidate_step ns name i ks (Dropping (k # ks')) s =
     Some (Internal, goto i (Dropping ks')
       (if has_prefix (secret_prefix ns name) k then s\<lparr>rg_cache := (rg_cache s)(k := None)\<rparr> else s))"
| "Invalidate_step ns name i ks (Dropping []) s =
     Some (Internal, goto i Finished (s\<lparr>rg_writer := None\<rparr>))"
| "Invalidate_step ns name i ks _ s = None"

fun call_step ::
  "'w api \<Rightarrow> time \<Rightarrow> reg_call \<Rightarrow> nat \<Rightarrow> string list \<Rightarrow> 'w shared_registry \<Rightarrow>
   (reg_action \<times> 'w shared_registry) option" where
  "call_step A ttl (GetCall target ns) i ks s = GetClient_step A ttl target ns i (rg_phase s i) s"
| "call_step A ttl (InvalidateCall ns name) i ks s = Invalidate_step ns name i ks (rg_phase s i) s"

text \<open>
  Goroutine \<open>i\<close> executes the call \<open>calls i\<close>. The order of a \<open>range\<close> over the map is any order of
  its keys; between two steps the world may change in any way.
\<close>

inductive reg_step ::
  "'w api \<Rightarrow> time \<Rightarrow> (nat \<Rightarrow> reg_call) \<Rightarrow> 'w shared_registry \<Rightarrow> reg_action \<Rightarrow> 'w shared_registry \<Rightarrow> bool"
  for A ttl calls where
  goroutine: "call_step A ttl (calls i) i ks s = Some (a, s') \<Longrightarrow> distinct ks \<Longrightarrow> set ks = dom (rg_cache s) \<Longrightarrow>
    reg_step A ttl calls s a s'"
| outside: "reg_step A ttl calls s Internal (s\<lparr>rg_world := w\<rparr>)"

inductive reg_run ::
  "'w api \<Rightarrow> time \<Rightarrow> (nat \<Rightarrow> reg_call) \<Rightarrow> 'w shared_registry \<Rightarrow> reg_action list \<Rightarrow> 'w shared_registry \<Rightarrow> bool"
  for A ttl calls s where
  start: "reg_run A ttl calls s [] s"
| move: "reg_run A ttl calls s tr s' \<Longrightarrow> reg_step A ttl calls s' a s'' \<Longrightarrow>
    reg_run A ttl calls s (tr @ [a]) s''"

section \<open>The lock\<close>

text \<open>The case distinctions in the steps of \<open>GetClient\<close>.\<close>

lemmas step_splits = prod.splits sum.splits option.splits if_splits

fun holds_read :: "phase \<Rightarrow> bool" where
  "holds_read (Looking secret) = True"
| "holds_read (Looked secret entry) = True"
| "holds_read _ = False"

fun holds_write :: "phase \<Rightarrow> bool" where
  "holds_write (Storing secret c) = True"
| "holds_write (Stored c) = True"
| "holds_write (Dropping ks) = True"
| "holds_write _ = False"

fun fits :: "reg_call \<Rightarrow> phase \<Rightarrow> bool" where
  "fits (GetCall target ns) p \<longleftrightarrow> (case p of Dropping ks \<Rightarrow> False | Finished \<Rightarrow> False | _ \<Rightarrow> True)"
| "fits (InvalidateCall ns name) p \<longleftrightarrow> (case p of Called \<Rightarrow> True | Dropping ks \<Rightarrow> True | Finished \<Rightarrow> True | _ \<Rightarrow> False)"

definition lock_ok :: "'w shared_registry \<Rightarrow> bool" where
  "lock_ok s \<longleftrightarrow> rg_readers s = {i. holds_read (rg_phase s i)} \<and>
     (\<forall>i. rg_writer s = Some i \<longleftrightarrow> holds_write (rg_phase s i)) \<and>
     (rg_writer s \<noteq> None \<longrightarrow> rg_readers s = {})"

lemma goto_simps [simp]:
  "rg_world (goto i p s) = rg_world s" "rg_cache (goto i p s) = rg_cache s"
  "rg_readers (goto i p s) = rg_readers s" "rg_writer (goto i p s) = rg_writer s"
  "rg_phase (goto i p s) = (rg_phase s)(i := p)"
  by (simp_all add: goto_def)

lemma lock_ok_fresh: "lock_ok (fresh_registry w)"
  by (simp add: lock_ok_def fresh_registry_def)

lemma lock_ok_outside: "lock_ok (s\<lparr>rg_world := w\<rparr>) = lock_ok s"
  by (simp add: lock_ok_def)

lemma writer_unique: "lock_ok s \<Longrightarrow> holds_write (rg_phase s i) \<Longrightarrow> holds_write (rg_phase s j) \<Longrightarrow> j = i"
  unfolding lock_ok_def by (metis option.inject)

lemma GetClient_step_lock:
  assumes "GetClient_step A ttl target ns i (rg_phase s i) s = Some (a, s')" "lock_ok s"
  shows "lock_ok s'"
proof (cases "rg_phase s i")
qed (use assms writer_unique [OF assms(2), of i] in
  \<open>auto simp: lock_ok_def Let_def split: step_splits\<close>)

lemma Invalidate_step_lock:
  assumes "Invalidate_step ns name i ks (rg_phase s i) s = Some (a, s')" "lock_ok s"
  shows "lock_ok s'"
  using assms writer_unique [OF assms(2), of i]
  by (cases "(ns, name, i, ks, rg_phase s i, s)" rule: Invalidate_step.cases)
    (auto simp: lock_ok_def split: if_splits)

lemma call_step_lock: "call_step A ttl call i ks s = Some (a, s') \<Longrightarrow> lock_ok s \<Longrightarrow> lock_ok s'"
  by (cases call) (auto intro: GetClient_step_lock Invalidate_step_lock)

lemma GetClient_step_fits:
  assumes "GetClient_step A ttl target ns i (rg_phase s i) s = Some (a, s')"
  shows "\<exists>p. rg_phase s' = (rg_phase s)(i := p) \<and> fits (GetCall target ns) p"
proof (cases "rg_phase s i")
qed (use assms in \<open>auto simp: Let_def split: step_splits\<close>)

lemma Invalidate_step_fits:
  assumes "Invalidate_step ns name i ks (rg_phase s i) s = Some (a, s')"
  shows "\<exists>p. rg_phase s' = (rg_phase s)(i := p) \<and> fits (InvalidateCall ns name) p"
  using assms by (cases "(ns, name, i, ks, rg_phase s i, s)" rule: Invalidate_step.cases)
    (auto split: if_splits)

lemma call_step_fits:
  "call_step A ttl call i ks s = Some (a, s') \<Longrightarrow> \<exists>p. rg_phase s' = (rg_phase s)(i := p) \<and> fits call p"
  by (cases call) (auto dest!: GetClient_step_fits Invalidate_step_fits)

text \<open>Only a goroutine that holds the lock for writing changes the map.\<close>

lemma GetClient_step_cache:
  assumes "GetClient_step A ttl target ns i (rg_phase s i) s = Some (a, s')"
  shows "(\<exists>k c t. a = Store k c t \<and> rg_cache s' = cache_store k c t (rg_cache s) \<and> holds_write (rg_phase s i)) \<or>
    (\<forall>k c t. a \<noteq> Store k c t) \<and> rg_cache s' = rg_cache s"
proof (cases "rg_phase s i")
qed (use assms in \<open>auto simp: Let_def split: step_splits\<close>)

lemma GetClient_step_action:
  assumes "GetClient_step A ttl target ns i (rg_phase s i) s = Some (a, s')"
  shows "(\<forall>ns n. a \<noteq> Drop ns n) \<and> (\<forall>k e. a = Lookup k e \<longrightarrow> e = rg_cache s k \<and> holds_read (rg_phase s i))"
proof (cases "rg_phase s i")
qed (use assms in \<open>auto simp: Let_def split: step_splits\<close>)

section \<open>Invariants of a run\<close>

text \<open>
  Every goroutine is at a place of its call, the lock is consistent, the map is finite and has
  finitely many readers, and the loop of \<open>Invalidate\<close> has still to visit every key it will drop.
\<close>

definition loop_ok :: "(nat \<Rightarrow> reg_call) \<Rightarrow> 'w shared_registry \<Rightarrow> bool" where
  "loop_ok calls s \<longleftrightarrow> (\<forall>i ns name ks k. calls i = InvalidateCall ns name \<longrightarrow> rg_phase s i = Dropping ks \<longrightarrow>
     has_prefix (secret_prefix ns name) k \<longrightarrow> rg_cache s k \<noteq> None \<longrightarrow> k \<in> set ks)"

definition registry_inv :: "(nat \<Rightarrow> reg_call) \<Rightarrow> 'w shared_registry \<Rightarrow> bool" where
  "registry_inv calls s \<longleftrightarrow> (\<forall>i. fits (calls i) (rg_phase s i)) \<and> lock_ok s \<and> finite (dom (rg_cache s)) \<and>
     finite (rg_readers s) \<and> loop_ok calls s"

lemma registry_inv_fresh: "registry_inv calls (fresh_registry w)"
proof -
  have "fits call Called" for call by (cases call) simp_all
  then show ?thesis
    using lock_ok_fresh [of w] by (simp add: registry_inv_def loop_ok_def fresh_registry_def)
qed

lemma GetClient_step_loop:
  assumes "GetClient_step A ttl target ns i (rg_phase s i) s = Some (a, s')" "calls i = GetCall target ns"
    and "lock_ok s" "loop_ok calls s"
  shows "loop_ok calls s'"
  unfolding loop_ok_def
proof (intro allI impI)
  fix j ns' name ks k
  assume j: "calls j = InvalidateCall ns' name" "rg_phase s' j = Dropping ks"
    and k: "has_prefix (secret_prefix ns' name) k" "rg_cache s' k \<noteq> None"
  from j assms(2) have "j \<noteq> i" by auto
  with GetClient_step_fits [OF assms(1)] j have s: "rg_phase s j = Dropping ks" by auto
  with writer_unique [OF assms(3), of i j] \<open>j \<noteq> i\<close> have "\<not> holds_write (rg_phase s i)" by auto
  with GetClient_step_cache [OF assms(1)] have "rg_cache s' = rg_cache s" by auto
  with k j(1) s assms(4) show "k \<in> set ks" unfolding loop_ok_def by metis
qed

lemma Invalidate_step_loop:
  assumes "Invalidate_step ns name i ks (rg_phase s i) s = Some (a, s')" "calls i = InvalidateCall ns name"
    and "lock_ok s" "loop_ok calls s" "set ks = dom (rg_cache s)"
  shows "loop_ok calls s'"
  using assms writer_unique [OF assms(3), of i]
  by (cases "(ns, name, i, ks, rg_phase s i, s)" rule: Invalidate_step.cases)
    (fastforce simp: loop_ok_def split: if_splits)+

lemma Invalidate_step_cache:
  assumes "Invalidate_step ns name i ks (rg_phase s i) s = Some (a, s')"
  shows "dom (rg_cache s') \<subseteq> dom (rg_cache s)"
  using assms by (cases "(ns, name, i, ks, rg_phase s i, s)" rule: Invalidate_step.cases)
    (auto split: if_splits)

lemma call_step_dom: "call_step A ttl call i ks s = Some (a, s') \<Longrightarrow> finite (dom (rg_cache s)) \<Longrightarrow>
  finite (dom (rg_cache s'))"
  by (cases call) (auto dest!: GetClient_step_cache Invalidate_step_cache
      simp: cache_store_def intro: finite_subset)

lemma call_step_readers:
  assumes "call_step A ttl call i ks s = Some (a, s')"
  shows "rg_readers s' \<subseteq> insert i (rg_readers s)"
proof (cases call)
  case (GetCall target ns)
  with assms show ?thesis
    by (cases "rg_phase s i") (auto simp: Let_def split: step_splits)
next
  case (InvalidateCall ns name)
  with assms show ?thesis
    by (cases "(ns, name, i, ks, rg_phase s i, s)" rule: Invalidate_step.cases) (auto split: if_splits)
qed

lemma reg_step_inv: "reg_step A ttl calls s a s' \<Longrightarrow> registry_inv calls s \<Longrightarrow> registry_inv calls s'"
proof (induction rule: reg_step.induct)
  case (goroutine i ks s a s')
  then have "lock_ok s" "loop_ok calls s" by (simp_all add: registry_inv_def)
  with goroutine have "loop_ok calls s'"
    by (cases "calls i") (auto intro: GetClient_step_loop Invalidate_step_loop)
  with goroutine call_step_fits [OF goroutine(1)] call_step_lock [OF goroutine(1)] call_step_dom [OF goroutine(1)]
    finite_subset [OF call_step_readers [OF goroutine(1)]]
  show ?case by (auto simp: registry_inv_def)
next
  case (outside s w)
  then show ?case by (simp add: registry_inv_def loop_ok_def lock_ok_outside)
qed

lemma reg_run_inv: "reg_run A ttl calls s tr s' \<Longrightarrow> registry_inv calls s \<Longrightarrow> registry_inv calls s'"
  by (induction rule: reg_run.induct) (auto intro: reg_step_inv)

end
