(* ===== verification/Registry_Concurrent.thy ===== *)
theory Registry_Concurrent
  imports Registry_Steps
begin

text \<open>
  What the registry promises to concurrent callers: the map behaves as one that is used by one
  goroutine at a time, a client belongs to the Secret that the call has read, every call can be
  completed, and a call that runs alone is the operation of the theory \<open>Registry\<close>.
\<close>

section \<open>The serial history of the map\<close>

text \<open>
  The actions of a run as a history of a map without concurrency: a lookup must find what the
  map then holds, a store and an invalidation happen at once.
\<close>

fun serial :: "reg_action list \<Rightarrow> (string \<rightharpoonup> cached_entry) \<Rightarrow> (string \<rightharpoonup> cached_entry) option" where
  "serial [] m = Some m"
| "serial (Lookup k e # as) m = (if m k = e then serial as m else None)"
| "serial (Store k c t # as) m = serial as (cache_store k c t m)"
| "serial (Drop ns name # as) m = serial as (cache_drop (has_prefix (secret_prefix ns name)) m)"
| "serial (_ # as) m = serial as m"

text \<open>The map once the invalidation under way, if there is one, has ended.\<close>

definition settled :: "(nat \<Rightarrow> reg_call) \<Rightarrow> 'w shared_registry \<Rightarrow> (string \<rightharpoonup> cached_entry)" where
  "settled calls s =
     (case rg_writer s of
        None \<Rightarrow> rg_cache s
      | Some i \<Rightarrow>
          (case calls i of
             GetCall target ns \<Rightarrow> rg_cache s
           | InvalidateCall ns name \<Rightarrow> cache_drop (has_prefix (secret_prefix ns name)) (rg_cache s)))"

lemma serial_append: "serial (as @ bs) m = Option.bind (serial as m) (serial bs)"
  by (induction as m rule: serial.induct) auto

lemma settled_map_cong: "rg_cache s' = rg_cache s \<Longrightarrow> rg_writer s' = rg_writer s \<Longrightarrow> settled calls s' = settled calls s"
  by (simp add: settled_def split: option.split reg_call.split)

lemma GetClient_step_writer:
  assumes "GetClient_step A ttl target ns i (rg_phase s i) s = Some (a, s')" "\<not> holds_write (rg_phase s i)"
  shows "rg_writer s' = rg_writer s \<or> rg_writer s = None \<and> rg_writer s' = Some i"
proof (cases "rg_phase s i")
qed (use assms in \<open>auto simp: Let_def split: step_splits\<close>)

lemma settled_unlocked: "rg_writer s = None \<Longrightarrow> settled calls s = rg_cache s"
  by (simp add: settled_def)

lemma reader_unlocked: "lock_ok s \<Longrightarrow> holds_read (rg_phase s i) \<Longrightarrow> rg_writer s = None"
  unfolding lock_ok_def by auto

lemma GetClient_step_serial:
  assumes "GetClient_step A ttl target ns i (rg_phase s i) s = Some (a, s')" "calls i = GetCall target ns"
    and "lock_ok s"
  shows "serial [a] (settled calls s) = Some (settled calls s')"
proof (cases "holds_write (rg_phase s i)")
  case True
  with assms(3) have "rg_writer s = Some i" by (simp add: lock_ok_def)
  with True assms(1,2) show ?thesis
    by (cases "rg_phase s i") (auto simp: settled_def split: prod.splits)
next
  case False
  with GetClient_step_cache [OF assms(1)] have cache: "rg_cache s' = rg_cache s"
    and a: "\<And>k c t. a \<noteq> Store k c t" by auto
  from GetClient_step_writer [OF assms(1) False] have "settled calls s' = settled calls s"
    using assms(2) cache by (auto simp: settled_def split: option.split reg_call.split)
  moreover have "serial [a] (settled calls s) = Some (settled calls s)"
    using a GetClient_step_action [OF assms(1)] reader_unlocked [OF assms(3), of i]
    by (cases a) (auto simp: settled_unlocked)
  ultimately show ?thesis by simp
qed

lemma cache_drop_id:
  assumes "\<And>k. m k \<noteq> None \<Longrightarrow> \<not> P k"
  shows "cache_drop P m = m"
proof
  fix k
  show "cache_drop P m k = m k" using assms [of k] by (cases "m k") (auto simp: cache_drop_def)
qed

lemma cache_drop_key: "P k \<Longrightarrow> cache_drop P (m(k := None)) = cache_drop P m"
  by (auto simp: cache_drop_def)

lemma Invalidate_step_serial:
  assumes "Invalidate_step ns name i ks (rg_phase s i) s = Some (a, s')" "calls i = InvalidateCall ns name"
    and "lock_ok s" "loop_ok calls s"
  shows "serial [a] (settled calls s) = Some (settled calls s')"
proof (cases "rg_phase s i")
  case Called
  with assms show ?thesis by (auto simp: settled_def split: if_splits)
next
  case (Dropping ks')
  with assms(3) have w: "rg_writer s = Some i" by (simp add: lock_ok_def)
  show ?thesis
  proof (cases ks')
    case Nil
    with Dropping assms(2,4) have "\<not> has_prefix (secret_prefix ns name) k" if "rg_cache s k \<noteq> None" for k
      using that unfolding loop_ok_def by fastforce
    then have "cache_drop (has_prefix (secret_prefix ns name)) (rg_cache s) = rg_cache s"
      by (rule cache_drop_id)
    with Nil Dropping w assms(1,2) show ?thesis by (auto simp: settled_def)
  next
    case (Cons k ks'')
    with Dropping w assms(1,2) show ?thesis by (auto simp: settled_def cache_drop_key)
  qed
qed (use assms in auto)

lemma reg_step_serial: "reg_step A ttl calls s a s' \<Longrightarrow> registry_inv calls s \<Longrightarrow>
  serial [a] (settled calls s) = Some (settled calls s')"
proof (induction rule: reg_step.induct)
  case (goroutine i ks s a s')
  then have inv: "lock_ok s" "loop_ok calls s" by (simp_all add: registry_inv_def)
  show ?case
  proof (cases "calls i")
    case (GetCall target ns)
    with goroutine(1) GetClient_step_serial [where s = s and i = i and calls = calls, OF _ GetCall inv(1)] show ?thesis
      unfolding GetCall call_step.simps by blast
  next
    case (InvalidateCall ns name)
    with goroutine(1) Invalidate_step_serial [where s = s and i = i and calls = calls, OF _ InvalidateCall inv] show ?thesis
      unfolding InvalidateCall call_step.simps by blast
  qed
next
  case (outside s w)
  have "settled calls (s\<lparr>rg_world := w\<rparr>) = settled calls s" by (rule settled_map_cong) simp_all
  then show ?case by simp
qed

lemma reg_run_serial:
  "reg_run A ttl calls s tr s' \<Longrightarrow> registry_inv calls s \<Longrightarrow> serial tr (settled calls s) = Some (settled calls s')"
proof (induction rule: reg_run.induct)
  case (move tr s' a s'')
  with reg_run_inv [OF move(1)] reg_step_serial [OF move(2)] show ?case by (simp add: serial_append)
qed simp

section \<open>Where clients come from\<close>

text \<open>
  \<open>made_for tr k c\<close>: some call has read a Secret whose name and version give the key \<open>k\<close>, and the
  client \<open>c\<close> has been built from the kubeconfig of that Secret.
\<close>

definition made_for :: "'w api \<Rightarrow> reg_action list \<Rightarrow> string \<Rightarrow> client \<Rightarrow> bool" where
  "made_for A tr k c \<longleftrightarrow> (\<exists>i ns name secret kubeconfig cfg.
     ReadSecret i ns name secret \<in> set tr \<and> k = cache_key ns name (sec_ResourceVersion secret) \<and>
     dict_get (sec_Data secret) ''kubeconfig'' = Some kubeconfig \<and>
     rest_config_from_kubeconfig A kubeconfig = Inr cfg \<and> Build cfg c \<in> set tr)"

definition was_read :: "reg_action list \<Rightarrow> nat \<Rightarrow> ClusterTarget \<Rightarrow> string \<Rightarrow> Secret \<Rightarrow> bool" where
  "was_read tr i target ns secret \<longleftrightarrow>
     ReadSecret i (secret_namespace target ns) (ct_ClusterRef target) secret \<in> set tr"

fun origin :: "'w api \<Rightarrow> reg_action list \<Rightarrow> nat \<Rightarrow> ClusterTarget \<Rightarrow> string \<Rightarrow> phase \<Rightarrow> bool" where
  "origin A tr i target ns (Fetched secret) \<longleftrightarrow> was_read tr i target ns secret"
| "origin A tr i target ns (Looking secret) \<longleftrightarrow> was_read tr i target ns secret"
| "origin A tr i target ns (Looked secret entry) \<longleftrightarrow> was_read tr i target ns secret \<and>
     (\<forall>e. entry = Some e \<longrightarrow> made_for A tr (target_key target ns secret) (ce_client e))"
| "origin A tr i target ns (Checking secret entry) \<longleftrightarrow> was_read tr i target ns secret \<and>
     (\<forall>e. entry = Some e \<longrightarrow> made_for A tr (target_key target ns secret) (ce_client e))"
| "origin A tr i target ns (Building secret) \<longleftrightarrow> was_read tr i target ns secret"
| "origin A tr i target ns (Built secret c) \<longleftrightarrow> was_read tr i target ns secret \<and> made_for A tr (target_key target ns secret) c"
| "origin A tr i target ns (Storing secret c) \<longleftrightarrow> was_read tr i target ns secret \<and> made_for A tr (target_key target ns secret) c"
| "origin A tr i target ns (Stored c) \<longleftrightarrow> (\<exists>secret. was_read tr i target ns secret \<and> made_for A tr (target_key target ns secret) c)"
| "origin A tr i target ns (Returned (Inr c)) \<longleftrightarrow>
     (\<exists>secret. was_read tr i target ns secret \<and> made_for A tr (target_key target ns secret) c)"
| "origin A tr i target ns _ \<longleftrightarrow> True"

definition origins :: "'w api \<Rightarrow> (nat \<Rightarrow> reg_call) \<Rightarrow> reg_action list \<Rightarrow> 'w shared_registry \<Rightarrow> bool" where
  "origins A calls tr s \<longleftrightarrow> (\<forall>k e. rg_cache s k = Some e \<longrightarrow> made_for A tr k (ce_client e)) \<and>
     (\<forall>i target ns. calls i = GetCall target ns \<longrightarrow> origin A tr i target ns (rg_phase s i))"

lemma made_for_more: "made_for A tr k c \<Longrightarrow> made_for A (tr @ as) k c"
  unfolding made_for_def by fastforce

lemma was_read_more: "was_read tr i target ns secret \<Longrightarrow> was_read (tr @ as) i target ns secret"
  by (simp add: was_read_def)

lemma origin_more: "origin A tr i target ns p \<Longrightarrow> origin A (tr @ as) i target ns p"
  by (cases "(A, tr, i, target, ns, p)" rule: origin.cases) (auto intro: made_for_more was_read_more)

lemma made_for_build:
  assumes "was_read tr i target ns secret" "dict_get (sec_Data secret) ''kubeconfig'' = Some kubeconfig"
    and "rest_config_from_kubeconfig A kubeconfig = Inr cfg"
  shows "made_for A (tr @ [Build cfg c]) (target_key target ns secret) c"
  using assms unfolding made_for_def was_read_def by fastforce

lemma GetClient_step_origin:
  assumes "GetClient_step A ttl target ns i (rg_phase s i) s = Some (a, s')"
    and "origin A tr i target ns (rg_phase s i)" "\<forall>k e. rg_cache s k = Some e \<longrightarrow> made_for A tr k (ce_client e)"
  shows "origin A (tr @ [a]) i target ns (rg_phase s' i)"
  using assms(1) origin_more [OF assms(2), of "[a]"]
proof (cases "rg_phase s i")
  case Called
  with assms(1) show ?thesis by (auto simp: was_read_def split: prod.splits sum.splits)
next
  case (Building secret)
  with assms show ?thesis
    by (auto intro: made_for_build was_read_more split: option.splits sum.splits prod.splits)
next
  case (Looking secret)
  with assms show ?thesis by (auto simp: Let_def made_for_more was_read_more)
qed (auto split: prod.splits option.splits if_splits)

lemma GetClient_step_cache_origin:
  assumes "GetClient_step A ttl target ns i (rg_phase s i) s = Some (a, s')"
    and "origin A tr i target ns (rg_phase s i)" "\<forall>k e. rg_cache s k = Some e \<longrightarrow> made_for A tr k (ce_client e)"
  shows "\<forall>k e. rg_cache s' k = Some e \<longrightarrow> made_for A (tr @ [a]) k (ce_client e)"
proof (cases "\<exists>secret c. rg_phase s i = Storing secret c")
  case True
  with assms show ?thesis by (auto simp: cache_store_def made_for_more split: prod.splits if_splits)
next
  case False
  with assms(1) have "rg_cache s' = rg_cache s"
    by (cases "rg_phase s i") (auto simp: Let_def split: step_splits)
  with assms(3) show ?thesis by (auto intro: made_for_more)
qed

lemma Invalidate_step_cache_le:
  assumes "Invalidate_step ns name i ks (rg_phase s i) s = Some (a, s')"
  shows "rg_cache s' k = Some e \<Longrightarrow> rg_cache s k = Some e"
  using assms by (cases "(ns, name, i, ks, rg_phase s i, s)" rule: Invalidate_step.cases)
    (auto split: if_splits)

lemma reg_step_origins:
  "reg_step A ttl calls s a s' \<Longrightarrow> origins A calls tr s \<Longrightarrow> origins A calls (tr @ [a]) s'"
proof (induction rule: reg_step.induct)
  case (goroutine i ks s a s')
  then have cache: "\<forall>k e. rg_cache s k = Some e \<longrightarrow> made_for A tr k (ce_client e)"
    and phases: "\<And>j target ns. calls j = GetCall target ns \<Longrightarrow> origin A tr j target ns (rg_phase s j)"
    by (auto simp: origins_def)
  from call_step_fits [OF goroutine(1)] obtain p where p: "rg_phase s' = (rg_phase s)(i := p)" by auto
  show ?case
  proof (cases "calls i")
    case (GetCall target ns)
    with goroutine(1) have step: "GetClient_step A ttl target ns i (rg_phase s i) s = Some (a, s')" by simp
    from GetClient_step_origin [OF step phases [OF GetCall] cache]
      GetClient_step_cache_origin [OF step phases [OF GetCall] cache] p phases GetCall
    show ?thesis unfolding origins_def by (auto intro: origin_more)
  next
    case (InvalidateCall ns name)
    with goroutine(1) have step: "Invalidate_step ns name i ks (rg_phase s i) s = Some (a, s')" by simp
    from Invalidate_step_cache_le [OF step] cache p phases InvalidateCall
    show ?thesis unfolding origins_def by (auto intro: origin_more made_for_more)
  qed
next
  case (outside s w)
  then show ?case by (auto simp: origins_def intro: origin_more made_for_more)
qed

lemma reg_run_origins: "reg_run A ttl calls s tr s' \<Longrightarrow> origins A calls [] s \<Longrightarrow> origins A calls tr s'"
  by (induction rule: reg_run.induct) (auto intro: reg_step_origins)

lemma origins_fresh: "origins A calls [] (fresh_registry w)"
  by (simp add: origins_def fresh_registry_def)

lemma cache_key_eq:
  assumes "cache_key ns n rv = cache_key ns' n' rv'"
    and "CHR ''/'' \<notin> set ns" "CHR ''/'' \<notin> set ns'" "CHR ''@'' \<notin> set n" "CHR ''@'' \<notin> set n'"
  shows "ns = ns' \<and> n = n' \<and> rv = rv'"
  using assms by (auto simp: cache_key_def split_at_sep)

section \<open>A call that runs alone\<close>

fun has_returned :: "phase \<Rightarrow> bool" where
  "has_returned (Returned r) = True"
| "has_returned Finished = True"
| "has_returned _ = False"

text \<open>At most \<open>n\<close> steps of one goroutine, with no other step in between.\<close>

fun solo ::
  "'w api \<Rightarrow> time \<Rightarrow> reg_call \<Rightarrow> nat \<Rightarrow> string list \<Rightarrow> nat \<Rightarrow> 'w shared_registry \<Rightarrow> 'w shared_registry" where
  "solo A ttl call i ks 0 s = s"
| "solo A ttl call i ks (Suc n) s =
     (case call_step A ttl call i ks s of
        None \<Rightarrow> s
      | Some (a, s') \<Rightarrow> solo A ttl call i ks n s')"

definition unlocked :: "'w shared_registry \<Rightarrow> bool" where
  "unlocked s \<longleftrightarrow> rg_writer s = None \<and> rg_readers s = {}"

text \<open>The shared state after a call, with the answer to goroutine \<open>i\<close>, as one run of the operation leaves it.\<close>

definition agrees :: "'w shared_registry \<Rightarrow> nat \<Rightarrow> phase \<Rightarrow> 'w op_state \<Rightarrow> bool" where
  "agrees s i p st \<longleftrightarrow> unlocked s \<and> rg_phase s i = p \<and> rg_world s = op_world st \<and> rg_cache s = op_cache st"

lemma solo_stop: "call_step A ttl call i ks s = None \<Longrightarrow> solo A ttl call i ks n s = s"
  by (cases n) simp_all

lemma solo_returned: "has_returned (rg_phase s i) \<Longrightarrow> solo A ttl call i ks n s = s"
  by (rule solo_stop, cases call; cases "rg_phase s i") simp_all

text \<open>The answer and the effect of \<open>GetClient\<close> from the point where the client must be built.\<close>

definition build_result ::
  "'w api \<Rightarrow> ClusterTarget \<Rightarrow> string \<Rightarrow> Secret \<Rightarrow> 'w \<Rightarrow> (string \<rightharpoonup> cached_entry) \<Rightarrow>
   (err + client) \<times> 'w \<times> (string \<rightharpoonup> cached_entry)" where
  "build_result A target ns secret w m =
     (case dict_get (sec_Data secret) ''kubeconfig'' of
        None \<Rightarrow> (Inl (errorf (''secret '' @ secret_namespace target ns @ ''/'' @
            ct_ClusterRef target @ '' missing key 'kubeconfig'')), w, m)
      | Some kubeconfigData \<Rightarrow>
          (case rest_config_from_kubeconfig A kubeconfigData of
             Inl e \<Rightarrow> (Inl (errorf_wrap (''parsing kubeconfig from secret '' @ secret_namespace target ns @ ''/'' @
                 ct_ClusterRef target) e), w, m)
           | Inr cfg \<Rightarrow>
               (case new_client A cfg w of
                  (Inl e, w1) \<Rightarrow> (Inl (errorf_wrap (''building client for cluster '' @ ct_Name target) e), w1, m)
                | (Inr c, w1) \<Rightarrow>
                    (case time_now A w1 of (t, w2) \<Rightarrow> (Inr c, w2, cache_store (target_key target ns secret) c t m)))))"

text \<open>The goroutine has returned the answer, nobody holds the lock, and the rest of the state is the given one.\<close>

definition shows_result :: "'w shared_registry \<Rightarrow> nat \<Rightarrow> (err + client) \<times> 'w \<times> (string \<rightharpoonup> cached_entry) \<Rightarrow> bool" where
  "shows_result s i x \<longleftrightarrow> unlocked s \<and> rg_phase s i = Returned (fst x) \<and> snd x = (rg_world s, rg_cache s)"

lemma build_solo:
  assumes "unlocked s" "rg_phase s i = Building secret"
  shows "shows_result (solo A ttl (GetCall target ns) i ks (Suc (Suc (Suc (Suc n)))) s) i
    (build_result A target ns secret (rg_world s) (rg_cache s))"
proof (cases "dict_get (sec_Data secret) ''kubeconfig''")
  case None
  with assms show ?thesis by (simp add: shows_result_def build_result_def unlocked_def solo_returned)
next
  case (Some kubeconfig)
  show ?thesis
  proof (cases "rest_config_from_kubeconfig A kubeconfig")
    case (Inl e)
    with assms Some show ?thesis by (simp add: shows_result_def build_result_def unlocked_def solo_returned)
  next
    case (Inr cfg)
    obtain r w where new: "new_client A cfg (rg_world s) = (r, w)" by fastforce
    obtain t w' where time: "time_now A w = (t, w')" by fastforce
    from assms Some Inr new time show ?thesis
      by (cases r) (simp_all add: shows_result_def build_result_def unlocked_def solo_returned)
  qed
qed

text \<open>The same from the point where the entry found in the map is checked.\<close>

definition check_result ::
  "'w api \<Rightarrow> time \<Rightarrow> ClusterTarget \<Rightarrow> string \<Rightarrow> Secret \<Rightarrow> 'w \<Rightarrow> (string \<rightharpoonup> cached_entry) \<Rightarrow>
   (err + client) \<times> 'w \<times> (string \<rightharpoonup> cached_entry)" where
  "check_result A ttl target ns secret w m =
     (case m (target_key target ns secret) of
        None \<Rightarrow> build_result A target ns secret w m
      | Some e \<Rightarrow> (case time_now A w of (t, w1) \<Rightarrow>
          if t - ce_builtAt e < ttl then (Inr (ce_client e), w1, m) else build_result A target ns secret w1 m))"

lemma GetClient_result:
  "tech_get_secret A (secret_namespace target ns) (ct_ClusterRef target) (op_world st) = (Inr secret, w) \<Longrightarrow>
   (let x = run_state (GetClient A ttl target ns) st in (fst x, op_world (snd x), op_cache (snd x))) =
   check_result A ttl target ns secret w (op_cache st)"
  by (simp add: GetClient_def Let_def primitive_defs cache_hit_def secret_namespace_def [symmetric] build_result_def
      check_result_def split: option.split sum.split prod.split)

lemma build_solo_at:
  assumes "unlocked s" "rg_phase s i = Building secret" "rg_world s = w" "rg_cache s = m"
  shows "shows_result (solo A ttl (GetCall target ns) i ks (Suc (Suc (Suc (Suc n)))) s) i (build_result A target ns secret w m)"
  using build_solo [OF assms(1,2)] by (simp only: assms(3,4))

lemma check_solo:
  assumes "unlocked s" "rg_phase s i = Checking secret (m (target_key target ns secret))" "rg_world s = w" "rg_cache s = m"
  shows "shows_result (solo A ttl (GetCall target ns) i ks (Suc (Suc (Suc (Suc (Suc n))))) s) i
    (check_result A ttl target ns secret w m)"
proof -
  have build: "shows_result (solo A ttl (GetCall target ns) i ks (Suc (Suc (Suc (Suc n)))) (goto i (Building secret) (s\<lparr>rg_world := w'\<rparr>))) i
      (build_result A target ns secret w' m)" for w'
    by (rule build_solo_at) (use assms in \<open>simp_all add: unlocked_def\<close>)
  have step: "solo A ttl (GetCall target ns) i ks (Suc k) s = solo A ttl (GetCall target ns) i ks k s'"
    if "GetClient_step A ttl target ns i (rg_phase s i) s = Some (a, s')" for k a s' using that by simp
  show ?thesis
  proof (cases "m (target_key target ns secret)")
    case None
    have "goto i (Building secret) s = goto i (Building secret) (s\<lparr>rg_world := w\<rparr>)" using assms(3) by simp
    with build [of w] step None assms show ?thesis by (simp add: check_result_def del: solo.simps)
  next
    case (Some e)
    obtain t w' where time: "time_now A w = (t, w')" by fastforce
    show ?thesis
    proof (cases "t - ce_builtAt e < ttl")
      case True
      with Some time assms have "GetClient_step A ttl target ns i (rg_phase s i) s =
          Some (Internal, goto i (Returned (Inr (ce_client e))) (s\<lparr>rg_world := w'\<rparr>))" by simp
      from step [OF this] True Some time assms show ?thesis
        by (simp add: check_result_def solo_returned shows_result_def unlocked_def del: solo.simps)
    next
      case False
      with Some time assms build [of w'] show ?thesis
        by (subst step) (simp_all add: check_result_def del: solo.simps)
    qed
  qed
qed

lemma GetClient_solo:
  assumes "agrees s i Called st"
  shows "agrees (solo A ttl (GetCall target ns) i ks 9 s) i
    (Returned (fst (run_state (GetClient A ttl target ns) st))) (snd (run_state (GetClient A ttl target ns) st))"
proof -
  have nine: "(9::nat) = Suc (Suc (Suc (Suc (Suc (Suc (Suc (Suc (Suc 0))))))))" by simp
  note s = assms [unfolded agrees_def unlocked_def]
  let ?key = "target_key target ns" and ?solo = "solo A ttl (GetCall target ns) i ks"
  obtain r w where get: "tech_get_secret A (secret_namespace target ns) (ct_ClusterRef target) (op_world st) = (r, w)"
    by fastforce
  show ?thesis
  proof (cases r)
    case (Inl e)
    with get s show ?thesis
      unfolding nine by (simp add: GetClient_def Let_def primitive_defs secret_namespace_def [symmetric]
          agrees_def unlocked_def solo_returned)
  next
    case (Inr secret)
    note get = get [unfolded Inr]
    let ?entry = "op_cache st (?key secret)"
    define s1 where "s1 = s\<lparr>rg_world := w, rg_readers := {}, rg_phase := (rg_phase s)(i := Checking secret ?entry)\<rparr>"
    have s1: "unlocked s1" "rg_phase s1 i = Checking secret ?entry" "rg_world s1 = w" "rg_cache s1 = op_cache st"
      using s by (simp_all add: s1_def unlocked_def)
    have "?solo (Suc (Suc (Suc (Suc n)))) s = ?solo n s1" for n
      using get s by (simp add: goto_def s1_def Let_def)
    moreover have "shows_result (?solo (Suc (Suc (Suc (Suc (Suc 0))))) s1) i (check_result A ttl target ns secret w (op_cache st))"
      by (rule check_solo [OF s1])
    moreover note GetClient_result [OF get, of ttl]
    ultimately show ?thesis
      unfolding nine by (simp add: shows_result_def agrees_def Let_def prod_eq_iff del: solo.simps)
  qed
qed

lemma Invalidate_loop_solo:
  assumes "rg_phase s i = Dropping ks'"
  shows "solo A ttl (InvalidateCall ns name) i ks (Suc (length ks')) s =
    goto i Finished (s\<lparr>rg_writer := None,
      rg_cache := (\<lambda>k. if k \<in> set ks' \<and> has_prefix (secret_prefix ns name) k then None else rg_cache s k)\<rparr>)"
  using assms
proof (induction ks' arbitrary: s)
  case Nil
  then show ?case by simp
next
  case (Cons k ks')
  then show ?case by (auto simp: goto_def fun_eq_iff)
qed

lemma Invalidate_solo:
  assumes "agrees s i Called st" "set ks = dom (rg_cache s)"
  shows "agrees (solo A ttl (InvalidateCall ns name) i ks (Suc (Suc (length ks))) s) i Finished
    (snd (run_state (Invalidate ns name) st))"
proof -
  let ?s = "goto i (Dropping ks) (s\<lparr>rg_writer := Some i\<rparr>)"
  have cache: "(\<lambda>k. if k \<in> set ks \<and> has_prefix (secret_prefix ns name) k then None else rg_cache ?s k) =
      cache_drop (has_prefix (secret_prefix ns name)) (rg_cache s)"
    using assms(2) by (auto simp: cache_drop_def fun_eq_iff)
  have "solo A ttl (InvalidateCall ns name) i ks (Suc (Suc (length ks))) s =
      solo A ttl (InvalidateCall ns name) i ks (Suc (length ks)) ?s"
    using assms(1) by (simp add: agrees_def unlocked_def)
  also have "\<dots> = goto i Finished (?s\<lparr>rg_writer := None,
      rg_cache := cache_drop (has_prefix (secret_prefix ns name)) (rg_cache s)\<rparr>)"
    by (subst Invalidate_loop_solo) (simp, simp only: cache)
  finally show ?thesis
    using assms(1) by (simp add: agrees_def unlocked_def Invalidate_def cache_modify_def secret_prefix_def)
qed

section \<open>Every call can be completed\<close>

abbreviation holds :: "phase \<Rightarrow> bool" where
  "holds p \<equiv> holds_read p \<or> holds_write p"

text \<open>The number of steps a goroutine has left at most, when \<open>n\<close> keys are in the map.\<close>

fun steps_left :: "reg_call \<Rightarrow> nat \<Rightarrow> phase \<Rightarrow> nat" where
  "steps_left (InvalidateCall ns name) n Called = n + 2"
| "steps_left call n Called = 9"
| "steps_left call n (Fetched secret) = 8"
| "steps_left call n (Looking secret) = 7"
| "steps_left call n (Looked secret entry) = 6"
| "steps_left call n (Checking secret entry) = 5"
| "steps_left call n (Building secret) = 4"
| "steps_left call n (Built secret c) = 3"
| "steps_left call n (Storing secret c) = 2"
| "steps_left call n (Stored c) = 1"
| "steps_left call n (Dropping ks) = length ks + 1"
| "steps_left call n _ = 0"

abbreviation left_of :: "(nat \<Rightarrow> reg_call) \<Rightarrow> 'w shared_registry \<Rightarrow> nat \<Rightarrow> nat" where
  "left_of calls s i \<equiv> steps_left (calls i) (card (dom (rg_cache s))) (rg_phase s i)"

lemma GetClient_step_moves:
  assumes "fits (GetCall target ns) (rg_phase s i)" "\<not> has_returned (rg_phase s i)"
    and "holds (rg_phase s i) \<or> unlocked s"
  shows "\<exists>a s'. GetClient_step A ttl target ns i (rg_phase s i) s = Some (a, s') \<and>
    (\<forall>m. steps_left (GetCall target ns) m (rg_phase s' i) < steps_left (GetCall target ns) n (rg_phase s i))"
  using assms
  by (cases "rg_phase s i") (auto simp: unlocked_def Let_def split: prod.split sum.split option.split)

lemma Invalidate_step_moves:
  assumes "fits (InvalidateCall ns name) (rg_phase s i)" "\<not> has_returned (rg_phase s i)"
    and "holds (rg_phase s i) \<or> unlocked s" and "length ks = n"
  shows "\<exists>a s'. Invalidate_step ns name i ks (rg_phase s i) s = Some (a, s') \<and>
    (\<forall>m. steps_left (InvalidateCall ns name) m (rg_phase s' i) < steps_left (InvalidateCall ns name) n (rg_phase s i))"
  using assms
  by (cases "(ns, name, i, ks, rg_phase s i, s)" rule: Invalidate_step.cases) (auto simp: unlocked_def)

lemma reg_step_moves:
  assumes "registry_inv calls s" "\<not> has_returned (rg_phase s i)" "holds (rg_phase s i) \<or> unlocked s"
  shows "\<exists>a s'. reg_step A ttl calls s a s' \<and> left_of calls s' i < left_of calls s i \<and>
    (\<forall>j. j \<noteq> i \<longrightarrow> rg_phase s' j = rg_phase s j)"
proof -
  from assms(1) have fin: "finite (dom (rg_cache s))" and "fits (calls i) (rg_phase s i)"
    by (auto simp: registry_inv_def)
  from finite_distinct_list [OF fin] obtain ks where ks: "set ks = dom (rg_cache s)" "distinct ks" by blast
  then have len: "length ks = card (dom (rg_cache s))" by (metis distinct_card)
  have "\<exists>a s'. call_step A ttl (calls i) i ks s = Some (a, s') \<and> left_of calls s' i < left_of calls s i"
  proof (cases "calls i")
    case (GetCall target ns)
    with GetClient_step_moves [of target ns s i] \<open>fits (calls i) (rg_phase s i)\<close> assms(2,3)
    show ?thesis by simp metis
  next
    case (InvalidateCall ns name)
    with Invalidate_step_moves [of ns name s i ks] \<open>fits (calls i) (rg_phase s i)\<close> assms(2,3) len
    show ?thesis by simp metis
  qed
  then obtain a s' where step: "call_step A ttl (calls i) i ks s = Some (a, s')"
    "left_of calls s' i < left_of calls s i" by blast
  from call_step_fits [OF step(1)] have "\<forall>j. j \<noteq> i \<longrightarrow> rg_phase s' j = rg_phase s j" by auto
  with reg_step.goroutine [where calls = calls, OF step(1) ks(2,1)] step(2) show ?thesis by blast
qed

lemma reg_run_trans: "reg_run A ttl calls s2 tr2 s3 \<Longrightarrow> reg_run A ttl calls s1 tr1 s2 \<Longrightarrow>
  reg_run A ttl calls s1 (tr1 @ tr2) s3"
  by (induction rule: reg_run.induct) (auto simp flip: append_assoc intro: reg_run.intros)

lemma reg_run_step: "reg_step A ttl calls s a s' \<Longrightarrow> reg_run A ttl calls s [a] s'"
  using reg_run.move [OF reg_run.start] by fastforce

text \<open>
  A goroutine goes on alone until \<open>P\<close>, which stops it at the latest when it returns: it is not
  blocked while it holds the lock or nobody does.
\<close>

lemma run_until:
  assumes "registry_inv calls s"
    and "\<And>s. registry_inv calls s \<Longrightarrow> I s \<Longrightarrow> \<not> P (rg_phase s i) \<Longrightarrow>
      \<not> has_returned (rg_phase s i) \<and> (holds (rg_phase s i) \<or> unlocked s)"
    and "I s" and "\<And>s s'. registry_inv calls s' \<Longrightarrow> I s \<Longrightarrow>
      (\<forall>j. j \<noteq> i \<longrightarrow> rg_phase s' j = rg_phase s j) \<Longrightarrow> I s'"
  shows "\<exists>tr s'. reg_run A ttl calls s tr s' \<and> P (rg_phase s' i) \<and> (\<forall>j. j \<noteq> i \<longrightarrow> rg_phase s' j = rg_phase s j)"
  using assms(1,3)
proof (induction "left_of calls s i" arbitrary: s rule: less_induct)
  case less
  show ?case
  proof (cases "P (rg_phase s i)")
    case True
    then show ?thesis using reg_run.start by blast
  next
    case False
    with reg_step_moves [OF less(2)] assms(2) [OF less(2,3)] obtain a s' where
      step: "reg_step A ttl calls s a s'" "left_of calls s' i < left_of calls s i"
        "\<forall>j. j \<noteq> i \<longrightarrow> rg_phase s' j = rg_phase s j" by blast
    have inv: "registry_inv calls s'" by (rule reg_step_inv [OF step(1) less(2)])
    from less(1) [OF step(2) inv assms(4) [OF inv less(3) step(3)]] step(3) reg_run_step [OF step(1)]
    show ?thesis by (metis reg_run_trans)
  qed
qed

text \<open>A goroutine that holds the lock can go on until it has released it.\<close>

lemma run_release:
  assumes "registry_inv calls s"
  shows "\<exists>tr s'. reg_run A ttl calls s tr s' \<and> \<not> holds (rg_phase s' i) \<and>
    (\<forall>j. j \<noteq> i \<longrightarrow> rg_phase s' j = rg_phase s j)"
proof (rule run_until [OF assms, where I = "\<lambda>_. True"])
  fix s :: "'a shared_registry" assume "\<not> \<not> holds (rg_phase s i)"
  then show "\<not> has_returned (rg_phase s i) \<and> (holds (rg_phase s i) \<or> unlocked s)"
    by (cases "rg_phase s i") simp_all
qed simp_all

lemma run_release_all:
  assumes "registry_inv calls s"
  shows "\<exists>tr s'. reg_run A ttl calls s tr s' \<and> (\<forall>j. \<not> holds (rg_phase s' j))"
proof -
  have "finite {i. holds (rg_phase s i)}" if "registry_inv calls s" for s :: "'a shared_registry"
  proof -
    from that have "{i. holds (rg_phase s i)} = rg_readers s \<union> set_option (rg_writer s)"
      by (auto simp: registry_inv_def lock_ok_def)
    with that show ?thesis by (simp add: registry_inv_def)
  qed
  with assms show ?thesis
  proof (induction "card {i. holds (rg_phase s i)}" arbitrary: s rule: less_induct)
    case less
    show ?case
    proof (cases "\<exists>i. holds (rg_phase s i)")
      case True
      then obtain i where i: "holds (rg_phase s i)" by blast
      from run_release [OF less(2)] obtain tr s' where run: "reg_run A ttl calls s tr s'"
        "\<not> holds (rg_phase s' i)" "\<forall>j. j \<noteq> i \<longrightarrow> rg_phase s' j = rg_phase s j" by metis
      then have "{j. holds (rg_phase s' j)} \<subset> {j. holds (rg_phase s j)}" using i by fastforce
      with less(3) [OF less(2)] have "card {j. holds (rg_phase s' j)} < card {j. holds (rg_phase s j)}"
        by (simp add: psubset_card_mono)
      from less(1) [OF this reg_run_inv [OF run(1) less(2)] less(3)] run(1) show ?thesis
        by (metis reg_run_trans)
    next
      case False
      then show ?thesis using reg_run.start by blast
    qed
  qed
qed

lemma run_return:
  assumes "registry_inv calls s"
  shows "\<exists>tr s'. reg_run A ttl calls s tr s' \<and> has_returned (rg_phase s' i)"
proof -
  from run_release_all [OF assms] obtain tr s1 where 1: "reg_run A ttl calls s tr s1"
    "\<forall>j. \<not> holds (rg_phase s1 j)" by metis
  have "\<exists>tr s'. reg_run A ttl calls s1 tr s' \<and> has_returned (rg_phase s' i) \<and>
      (\<forall>j. j \<noteq> i \<longrightarrow> rg_phase s' j = rg_phase s1 j)"
  proof (rule run_until [OF reg_run_inv [OF 1(1) assms], where I = "\<lambda>s. \<forall>j. j \<noteq> i \<longrightarrow> \<not> holds (rg_phase s j)"])
    fix s :: "'a shared_registry"
    assume "registry_inv calls s" "\<forall>j. j \<noteq> i \<longrightarrow> \<not> holds (rg_phase s j)" "\<not> has_returned (rg_phase s i)"
    then show "\<not> has_returned (rg_phase s i) \<and> (holds (rg_phase s i) \<or> unlocked s)"
      unfolding registry_inv_def lock_ok_def unlocked_def
      by (metis (mono_tags, lifting) Collect_empty_eq not_None_eq)
  qed (use 1(2) in auto)
  with 1(1) show ?thesis by (metis reg_run_trans)
qed

section \<open>Playing a schedule\<close>

text \<open>The goroutines of \<open>sched\<close> take one step each, in this order; all execute \<open>GetClient\<close>.\<close>

fun play ::
  "'w api \<Rightarrow> time \<Rightarrow> (nat \<Rightarrow> reg_call) \<Rightarrow> nat list \<Rightarrow> 'w shared_registry \<Rightarrow>
   (reg_action list \<times> 'w shared_registry) option" where
  "play A ttl calls [] s = Some ([], s)"
| "play A ttl calls (i # sched) s =
     (case call_step A ttl (calls i) i [] s of
        None \<Rightarrow> None
      | Some (a, s') \<Rightarrow> map_option (\<lambda>(tr, s''). (a # tr, s'')) (play A ttl calls sched s'))"

lemma play_run:
  assumes "play A ttl calls sched s = Some (tr, s')" "registry_inv calls s"
    and "\<And>i. i \<in> set sched \<Longrightarrow> \<exists>target ns. calls i = GetCall target ns"
  shows "reg_run A ttl calls s tr s'"
  using assms
proof (induction sched arbitrary: s tr)
  case Nil
  then show ?case by (simp add: reg_run.start)
next
  case (Cons i sched)
  then obtain a s1 tr1 where 1: "call_step A ttl (calls i) i [] s = Some (a, s1)"
    "play A ttl calls sched s1 = Some (tr1, s')" "tr = a # tr1"
    by (auto split: option.splits)
  obtain target ns where call: "calls i = GetCall target ns" using Cons(4) by fastforce
  from Cons(3) have "finite (dom (rg_cache s))" by (simp add: registry_inv_def)
  from finite_distinct_list [OF this] obtain ks where "set ks = dom (rg_cache s)" "distinct ks" by blast
  with 1(1) call have step: "reg_step A ttl calls s a s1"
    by (intro reg_step.goroutine [where i = i and ks = ks]) simp_all
  have "reg_run A ttl calls s1 tr1 s'"
    using Cons(1) [OF 1(2) reg_step_inv [OF step Cons(3)]] Cons(4) by simp
  with reg_run_step [OF step] 1(3) show ?case using reg_run_trans by fastforce
qed

text \<open>Two goroutines ask for the client of the same cluster at the same time: both miss, both build.\<close>

definition two_callers :: "(reg_action list \<times> mem_world shared_registry) option" where
  "two_callers = play mem_api 1000 (\<lambda>_. GetCall sample_us ''sys'')
     [0, 1, 0, 1, 0, 1, 0, 1, 0, 1, 0, 1, 0, 0, 0, 1, 1, 1] (fresh_registry sample_world)"

lemma two_callers_value:
  "\<exists>tr s. two_callers = Some (tr, s) \<and> rg_phase s 0 = Returned (Inr 2) \<and> rg_phase s 1 = Returned (Inr 2) \<and>
     length tr = 18"
  by (simp add: two_callers_def fresh_registry_def mem_defs sample_defs secret_namespace_def Let_def atoi_def
      is_digit_def read_nat_def digit_val_def goto_def insert_Diff_if)

lemma two_callers_run:
  obtains tr s where
    "reg_run mem_api 1000 (\<lambda>_. GetCall sample_us ''sys'') (fresh_registry sample_world) tr s"
    "rg_phase s 0 = Returned (Inr 2)" "rg_phase s 1 = Returned (Inr 2)" "length tr = 18"
proof -
  from two_callers_value obtain tr s where tr: "two_callers = Some (tr, s)" "rg_phase s 0 = Returned (Inr 2)"
    "rg_phase s 1 = Returned (Inr 2)" "length tr = 18" by blast
  have "reg_run mem_api 1000 (\<lambda>_. GetCall sample_us ''sys'') (fresh_registry sample_world) tr s"
    by (rule play_run [OF tr(1) [unfolded two_callers_def] registry_inv_fresh]) blast
  from that [OF this tr(2-4)] show ?thesis .
qed

text \<open>Every read in the history is the read of the goroutine's call.\<close>

definition reads_own :: "(nat \<Rightarrow> reg_call) \<Rightarrow> reg_action \<Rightarrow> bool" where
  "reads_own calls a \<longleftrightarrow> (\<forall>i ns name secret. a = ReadSecret i ns name secret \<longrightarrow>
     (\<exists>target mcNamespace. calls i = GetCall target mcNamespace \<and>
        ns = secret_namespace target mcNamespace \<and> name = ct_ClusterRef target))"

lemma call_step_reads:
  assumes "call_step A ttl (calls i) i ks s = Some (a, s')"
  shows "reads_own calls a"
proof (cases "calls i")
  case (GetCall target ns)
  with assms show ?thesis
    by (cases "rg_phase s i")
       (auto simp: reads_own_def Let_def split: step_splits)
next
  case (InvalidateCall ns name)
  with assms show ?thesis
    by (cases "(ns, name, i, ks, rg_phase s i, s)" rule: Invalidate_step.cases)
       (auto simp: reads_own_def split: if_splits)
qed

lemma reg_run_reads: "reg_run A ttl calls s tr s' \<Longrightarrow> \<forall>a \<in> set tr. reads_own calls a"
proof (induction rule: reg_run.induct)
  case (move tr s' a s'')
  from move(2) have "reads_own calls a"
    by (cases rule: reg_step.cases) (simp_all add: call_step_reads, simp add: reads_own_def)
  with move show ?case by simp
qed simp

text \<open>Nothing but \<open>Invalidate\<close>, which the source never calls, takes entries out of the map.\<close>

lemma cache_only_grows:
  assumes "reg_run A ttl calls s tr s'" and "\<And>i. \<exists>target ns. calls i = GetCall target ns"
  shows "dom (rg_cache s) \<subseteq> dom (rg_cache s')"
  using assms(1)
proof (induction rule: reg_run.induct)
  case (move tr s' a s'')
  from move(2) have "dom (rg_cache s') \<subseteq> dom (rg_cache s'')"
  proof cases
    case (goroutine i ks)
    obtain target ns where "calls i = GetCall target ns" using assms(2) by blast
    with goroutine GetClient_step_cache [of A ttl target ns i s' a s''] show ?thesis
      by (auto simp: cache_store_def)
  qed simp
  with move(3) show ?case by blast
qed simp

section \<open>Properties\<close>

text \<open>
  C15. Serializability: under every interleaving, a goroutine that changes the map is the only one
  that uses it, and all lookups, stores and invalidations of a run, each taken as one step in
  the order in which the lock was taken, form a history of a map without concurrency: every
  lookup finds what that map holds, and the map of the run is the one of the history (with the
  invalidation under way done).
\<close>

theorem registry_serializable:
  assumes "reg_run A ttl calls (fresh_registry w) tr s"
  shows "(\<forall>i j. holds_write (rg_phase s i) \<and> i \<noteq> j \<longrightarrow> \<not> holds_read (rg_phase s j) \<and> \<not> holds_write (rg_phase s j)) \<and>
    serial tr Map.empty = Some (settled calls s)"
proof
  from reg_run_inv [OF assms registry_inv_fresh] have "lock_ok s" by (simp add: registry_inv_def)
  then show "\<forall>i j. holds_write (rg_phase s i) \<and> i \<noteq> j \<longrightarrow>
      \<not> holds_read (rg_phase s j) \<and> \<not> holds_write (rg_phase s j)"
    unfolding lock_ok_def by (metis Collect_empty_eq option.distinct(1) option.inject)
  show "serial tr Map.empty = Some (settled calls s)"
    using reg_run_serial [OF assms registry_inv_fresh] by (simp add: settled_def fresh_registry_def)
qed

lemma registry_serializable_witness:
  "\<exists>tr (s :: mem_world shared_registry). length tr = 18 \<and> serial tr Map.empty = Some (settled (\<lambda>_. GetCall sample_us ''sys'') s)"
proof (rule two_callers_run)
  fix tr s
  assume run: "reg_run mem_api 1000 (\<lambda>_. GetCall sample_us ''sys'') (fresh_registry sample_world) tr s"
    and len: "length tr = 18"
  from conjunct2 [OF registry_serializable [OF run]] len show ?thesis by blast
qed

text \<open>
  C16. Provenance: under every interleaving, with names without slash and at sign (as Kubernetes has
  them), a client returned by \<open>GetClient\<close> has been built from the kubeconfig of the Secret of its
  target, in the version that this very call has read; never from another Secret or version.
\<close>

theorem registry_provenance:
  assumes "reg_run A ttl calls (fresh_registry w) tr s"
    and "\<And>j target ns. calls j = GetCall target ns \<Longrightarrow>
      CHR ''/'' \<notin> set (secret_namespace target ns) \<and> CHR ''@'' \<notin> set (ct_ClusterRef target)"
    and "calls i = GetCall target ns" and "rg_phase s i = Returned (Inr c)"
  shows "\<exists>j secret source kubeconfig cfg.
    ReadSecret i (secret_namespace target ns) (ct_ClusterRef target) secret \<in> set tr \<and>
    ReadSecret j (secret_namespace target ns) (ct_ClusterRef target) source \<in> set tr \<and>
    sec_ResourceVersion source = sec_ResourceVersion secret \<and>
    dict_get (sec_Data source) ''kubeconfig'' = Some kubeconfig \<and>
    rest_config_from_kubeconfig A kubeconfig = Inr cfg \<and> Build cfg c \<in> set tr"
proof -
  from reg_run_origins [OF assms(1) origins_fresh] assms(3,4) have "origin A tr i target ns (Returned (Inr c))"
    unfolding origins_def by metis
  then obtain secret j ns' name source kubeconfig cfg where
    read: "ReadSecret i (secret_namespace target ns) (ct_ClusterRef target) secret \<in> set tr"
    and source: "ReadSecret j ns' name source \<in> set tr"
      "target_key target ns secret = cache_key ns' name (sec_ResourceVersion source)"
    and build: "dict_get (sec_Data source) ''kubeconfig'' = Some kubeconfig"
      "rest_config_from_kubeconfig A kubeconfig = Inr cfg" "Build cfg c \<in> set tr"
    by (auto simp: was_read_def made_for_def)
  from reg_run_reads [OF assms(1)] source(1) assms(2) have "CHR ''/'' \<notin> set ns'" "CHR ''@'' \<notin> set name"
    unfolding reads_own_def by metis+
  with cache_key_eq [OF source(2)] assms(2) [OF assms(3)] have "ns' = secret_namespace target ns"
    "name = ct_ClusterRef target" "sec_ResourceVersion source = sec_ResourceVersion secret" by auto
  with read source(1) build show ?thesis by blast
qed

lemma registry_provenance_witness:
  "\<exists>tr (s :: mem_world shared_registry). rg_phase s 1 = Returned (Inr 2) \<and> (\<exists>cfg. Build cfg 2 \<in> set tr) \<and>
     (\<exists>secret. ReadSecret 1 ''sys'' ''kc-us'' secret \<in> set tr)"
proof (rule two_callers_run)
  fix tr s
  assume run: "reg_run mem_api 1000 (\<lambda>_. GetCall sample_us ''sys'') (fresh_registry sample_world) tr s"
    and one: "rg_phase s 1 = Returned (Inr 2)"
  have names: "secret_namespace sample_us ''sys'' = ''sys''" "ct_ClusterRef sample_us = ''kc-us''"
    by (simp_all add: sample_defs secret_namespace_def)
  from names have plain: "CHR ''/'' \<notin> set (secret_namespace target ns) \<and> CHR ''@'' \<notin> set (ct_ClusterRef target)"
    if "GetCall sample_us ''sys'' = GetCall target ns" for target ns using that by auto
  from registry_provenance [OF run plain refl one, unfolded names] one show ?thesis by blast
qed

text \<open>
  C17. No deadlock: from every state that a run reaches, every call can be completed, whatever the
  other goroutines are doing.
\<close>

theorem registry_completes:
  assumes "reg_run A ttl calls (fresh_registry w) tr s"
  shows "\<exists>tr' s'. reg_run A ttl calls s tr' s' \<and> has_returned (rg_phase s' i)"
  by (rule run_return [OF reg_run_inv [OF assms registry_inv_fresh]])

lemma registry_completes_witness:
  "\<exists>s tr' s'. reg_run mem_api 1000 (\<lambda>_. GetCall sample_us ''sys'') s tr' s' \<and> has_returned (rg_phase s' 7)"
proof (rule two_callers_run)
  fix tr s
  assume run: "reg_run mem_api 1000 (\<lambda>_. GetCall sample_us ''sys'') (fresh_registry sample_world) tr s"
  from registry_completes [OF run, of 7] show ?thesis by blast
qed

text \<open>
  C18. The steps of a call, taken without interruption from a state where nobody holds the lock, have
  the answer and the effect of the operation \<open>GetClient\<close> or \<open>Invalidate\<close>: the model that the
  other theories use is the registry of one caller.
\<close>

theorem registry_alone:
  assumes "agrees s i Called st" "set ks = dom (rg_cache s)"
  shows "agrees (solo A ttl (GetCall target ns) i ks 9 s) i
      (Returned (fst (run_state (GetClient A ttl target ns) st))) (snd (run_state (GetClient A ttl target ns) st)) \<and>
    agrees (solo A ttl (InvalidateCall ns name) i ks (Suc (Suc (length ks))) s) i
      Finished (snd (run_state (Invalidate ns name) st))"
  by (rule conjI [OF GetClient_solo [OF assms(1)] Invalidate_solo [OF assms]])

lemma registry_alone_witness:
  "agrees (solo mem_api 1000 (GetCall sample_us ''sys'') 0 [] 9 (fresh_registry sample_world)) 0
     (Returned (fst (run_state (GetClient mem_api 1000 sample_us ''sys'') (mem_state sample_world))))
     (snd (run_state (GetClient mem_api 1000 sample_us ''sys'') (mem_state sample_world)))"
proof -
  have "agrees (fresh_registry sample_world) 0 Called (mem_state sample_world)"
    "set [] = dom (rg_cache (fresh_registry sample_world))"
    by (simp_all add: agrees_def unlocked_def fresh_registry_def mem_state_def)
  from registry_alone [OF this] show ?thesis by blast
qed

end
